theory Spec2Isabelle
  imports Complex_Main
begin

section \<open>The per-frame script engine of \<^verbatim>\<open>src/components/engine.jsx\<close>\<close>

text \<open>
  The \<^verbatim>\<open>Scene\<close> component keeps one cached module per script slot (the scene script and
  one script per uploaded model), resets the cache in an effect, and dispatches the
  modules from \<^verbatim>\<open>useFrame\<close>. The functions of the component are embedded below as
  state-passing functions. What the component calls but does not define is kept abstract:
  \<^item> the JavaScript engine: \<^verbatim>\<open>new Function(..., text)\<close> is the parameter \<open>js\<close>, which
    maps a source text to \<open>None\<close> (SyntaxError) or to the behaviour of its top-level
    statements; a script text is taken to be a statement list of its own, so that the
    \<^verbatim>\<open>try { ... } catch\<close> the component wraps around it encloses it;
  \<^item> the browser's markup parser: a markup text is given by the elements it parses to;
  \<^item> three.js: an \<^verbatim>\<open>Object3D\<close> is the record of the three properties the component
    and its scripts use, the \<^verbatim>\<open>AnimationMixer\<close> is the list of its running actions.
\<close>

subsection \<open>JavaScript values, exceptions and completions\<close>

datatype exn = SyntaxError | TypeError | ReferenceError | NotFoundError | ScriptError string

datatype 'a completion = Normal 'a | Throw exn

type_synonym obj_ref = nat

datatype clip = AnimationClip (clip_name: string) (clip_uuid: nat)

record 'v object3d =
  name :: string
  animations :: "clip list option"
  userData :: "string \<rightharpoonup> 'v"

subsection \<open>The document\<close>

datatype element = Element (elem_id: string) (childNodes: "element list")

text \<open>
  The document in tree order around the overlay element that \<^verbatim>\<open>overlayRef.current\<close>
  refers to: the elements before it, its children (\<open>None\<close> while
  \<^verbatim>\<open>overlayRef.current\<close> is null), and the elements after it.
\<close>

record dom =
  before :: "element list"
  overlay :: "element list option"
  after :: "element list"

fun contains_id :: "string \<Rightarrow> element \<Rightarrow> bool" where
  "contains_id i (Element j cs) = (j = i \<or> (\<exists>c \<in> set cs. contains_id i c))"

fun findIndex :: "('a \<Rightarrow> bool) \<Rightarrow> 'a list \<Rightarrow> nat option" where
  "findIndex P [] = None"
| "findIndex P (x # xs) = (if P x then Some 0 else map_option Suc (findIndex P xs))"

text \<open>Where \<^verbatim>\<open>document.getElementById\<close> finds its element: the first one in tree order.\<close>

datatype place = Outside | OverlayRoot | OverlayChild nat | BelowOverlayChild nat

definition getElementById :: "dom \<Rightarrow> string \<Rightarrow> place option" where
  "getElementById d i =
     (if i = [] then None
      else if \<exists>e \<in> set (before d). contains_id i e then Some Outside
      else (case overlay d of
        None \<Rightarrow> (if \<exists>e \<in> set (after d). contains_id i e then Some Outside else None)
      | Some kids \<Rightarrow>
          (if i = ''scriptOverlay'' then Some OverlayRoot
           else (case findIndex (contains_id i) kids of
             Some k \<Rightarrow> (if elem_id (kids ! k) = i then Some (OverlayChild k)
                       else Some (BelowOverlayChild k))
           | None \<Rightarrow> (if \<exists>e \<in> set (after d). contains_id i e then Some Outside else None)))))"

subsection \<open>The world the scripts and the capabilities act on\<close>

datatype log_line =
    No_model_found_for string
  | No_animations_found_for string
  | Animation_not_found_for_model string string
  | Playing_animation_for_model string string
  | No_model_or_animations_found
  | Animation_not_found string
  | Creating_new_mixer
  | Playing_animation string
  | Error_in_scene_script exn
  | Error_initializing_scene_script exn
  | Error_executing_scene_script_update exn
  | Error_in_model_script_body exn
  | Error_initializing_model_script nat exn
  | Error_executing_model_script_update nat exn
  | Error_in_model_script nat exn
  | Error_in_script_execution exn

record 'v world =
  objects :: "obj_ref \<Rightarrow> 'v object3d"
  playing :: "(clip \<times> obj_ref) list"
  document :: dom
  console :: "log_line list"

definition console_log :: "log_line \<Rightarrow> 'v world \<Rightarrow> 'v world" where
  "console_log l w = w\<lparr>console := console w @ [l]\<rparr>"

text \<open>\<^verbatim>\<open>mixer.stopAllAction()\<close> and \<^verbatim>\<open>mixer.clipAction(clip, root).reset()....play()\<close>.\<close>

definition stopAllAction :: "'v world \<Rightarrow> 'v world" where
  "stopAllAction w = w\<lparr>playing := []\<rparr>"

definition play_action :: "clip \<Rightarrow> obj_ref \<Rightarrow> 'v world \<Rightarrow> 'v world" where
  "play_action c obj w =
     (if (c, obj) \<in> set (playing w) then w else w\<lparr>playing := playing w @ [(c, obj)]\<rparr>)"

subsection \<open>The props of \<^verbatim>\<open>Scene\<close>\<close>

record 'v props =
  activeModel :: "obj_ref option"
  mixer :: bool
  isEditMode :: bool
  modelScripts :: "string option list"
  sceneScript :: string
  uploadedModels :: "obj_ref list"
  modelNames :: "string list"
  onPlayAnimation :: "(string \<Rightarrow> string \<Rightarrow> 'v world \<Rightarrow> unit completion \<times> 'v world) option"
  onStopAnimation :: "(string \<Rightarrow> 'v world \<Rightarrow> unit completion \<times> 'v world) option"

text \<open>
  \<open>mixer\<close> tells whether the prop is an \<^verbatim>\<open>AnimationMixer\<close> or null; an entry \<open>None\<close> of
  \<open>modelScripts\<close> is a hole of the array.
\<close>

subsection \<open>The capabilities\<close>

definition getModelByName :: "'v props \<Rightarrow> string \<Rightarrow> obj_ref option" where
  "getModelByName p n =
     (case findIndex (\<lambda>x. x = n) (modelNames p) of
        None \<Rightarrow> None
      | Some index \<Rightarrow>
          if index < length (uploadedModels p) then Some (uploadedModels p ! index) else None)"

definition getAnimationsForModel :: "'v props \<Rightarrow> string \<Rightarrow> 'v world \<Rightarrow> clip list" where
  "getAnimationsForModel p modelName w =
     (case getModelByName p modelName of
        None \<Rightarrow> []
      | Some model \<Rightarrow> (case animations (objects w model) of None \<Rightarrow> [] | Some a \<Rightarrow> a))"

definition targetModel :: "'v props \<Rightarrow> string \<Rightarrow> 'v world \<Rightarrow> obj_ref option" where
  "targetModel p modelName w =
     (case activeModel p of
        Some a \<Rightarrow> if modelName = name (objects w a) then Some a else getModelByName p modelName
      | None \<Rightarrow> getModelByName p modelName)"

text \<open>
  In \<^verbatim>\<open>targetModel.animations || animations\<close> the identifier \<^verbatim>\<open>animations\<close> is not bound
  in \<^verbatim>\<open>Scene\<close> (it is a state variable of \<^verbatim>\<open>Engine\<close>): evaluating it throws a
  ReferenceError, which happens when the property of the model is undefined.
\<close>

definition playAnimation ::
  "'v props \<Rightarrow> string \<Rightarrow> string \<Rightarrow> 'v world \<Rightarrow> unit completion \<times> 'v world" where
  "playAnimation p modelName animationName w =
     (if \<not> mixer p then (Normal (), w)
      else (case targetModel p modelName w of
        None \<Rightarrow> (Normal (), console_log (No_model_found_for modelName) w)
      | Some target \<Rightarrow>
          (case animations (objects w target) of
             None \<Rightarrow> (Throw ReferenceError, w)
           | Some modelAnimations \<Rightarrow>
               (if modelAnimations = []
                then (Normal (), console_log (No_animations_found_for modelName) w)
                else (case find (\<lambda>anim. clip_name anim = animationName) modelAnimations of
                  None \<Rightarrow>
                    (Normal (),
                     console_log (Animation_not_found_for_model animationName modelName) w)
                | Some animation \<Rightarrow>
                    (let w1 = console_log (Playing_animation_for_model animationName modelName) w;
                         w2 = stopAllAction w1;
                         w3 = play_action animation target w2
                     in (case onPlayAnimation p of
                           None \<Rightarrow> (Normal (), w3)
                         | Some callback \<Rightarrow> callback modelName animationName w3)))))))"

definition stopAnimation :: "'v props \<Rightarrow> string \<Rightarrow> 'v world \<Rightarrow> unit completion \<times> 'v world" where
  "stopAnimation p modelName w =
     (let w1 = (if mixer p then stopAllAction w else w)
      in case onStopAnimation p of
           None \<Rightarrow> (Normal (), w1)
         | Some callback \<Rightarrow> callback modelName w1)"

type_synonym html = "element list"

definition createHTML :: "html \<Rightarrow> 'v world \<Rightarrow> unit completion \<times> 'v world" where
  "createHTML markup w =
     (case overlay (document w) of
        None \<Rightarrow> (Normal (), w)
      | Some kids \<Rightarrow>
          (case markup of
             [] \<Rightarrow> (Normal (), w)
           | el # _ \<Rightarrow> (Normal (), w\<lparr>document := (document w)\<lparr>overlay := Some (kids @ [el])\<rparr>\<rparr>)))"

definition removeHTML :: "string \<Rightarrow> 'v world \<Rightarrow> unit completion \<times> 'v world" where
  "removeHTML i w =
     (case getElementById (document w) i of
        None \<Rightarrow> (Normal (), w)
      | Some el \<Rightarrow>
          (case overlay (document w) of
             None \<Rightarrow> (Normal (), w)
           | Some kids \<Rightarrow>
               (case el of
                  OverlayChild k \<Rightarrow>
                    (Normal (),
                     w\<lparr>document := (document w)\<lparr>overlay := Some (take k kids @ drop (Suc k) kids)\<rparr>\<rparr>)
                | _ \<Rightarrow> (Throw NotFoundError, w))))"

text \<open>The two callbacks that \<^verbatim>\<open>Engine\<close> passes to \<^verbatim>\<open>Scene\<close>.\<close>

definition handlePlayAnimation ::
  "obj_ref option \<Rightarrow> bool \<Rightarrow> string \<Rightarrow> string \<Rightarrow> 'v world \<Rightarrow> unit completion \<times> 'v world" where
  "handlePlayAnimation active mx modelName animationName w =
     (case active of
        None \<Rightarrow> (Normal (), console_log No_model_or_animations_found w)
      | Some model \<Rightarrow>
          (case animations (objects w model) of
             None \<Rightarrow> (Normal (), console_log No_model_or_animations_found w)
           | Some anims \<Rightarrow>
               (case find (\<lambda>anim. clip_name anim = animationName) anims of
                  None \<Rightarrow> (Normal (), console_log (Animation_not_found animationName) w)
                | Some animation \<Rightarrow>
                    if \<not> mx then (Normal (), console_log Creating_new_mixer w)
                    else (Normal (),
                          play_action animation model
                            (stopAllAction (console_log (Playing_animation animationName) w))))))"

definition handleStopAnimation :: "bool \<Rightarrow> string \<Rightarrow> 'v world \<Rightarrow> unit completion \<times> 'v world" where
  "handleStopAnimation mx modelName w = (Normal (), if mx then stopAllAction w else w)"

definition rendered_by_Engine :: "'v props \<Rightarrow> bool" where
  "rendered_by_Engine p \<longleftrightarrow>
     onPlayAnimation p = Some (handlePlayAnimation (activeModel p) (mixer p)) \<and>
     onStopAnimation p = Some (handleStopAnimation (mixer p))"


subsection \<open>Scripts, compiled modules and the cache\<close>

record input_state =
  keys :: "string \<rightharpoonup> bool"
  mouse_x :: int
  mouse_y :: int
  buttons :: "nat \<rightharpoonup> bool"

text \<open>
  The arguments of a script call, in the order of the parameter list (\<^verbatim>\<open>THREE\<close>, the
  library, is left out; a scene script has no \<open>model\<close>).
\<close>

record 'v call_args =
  arg_model :: "obj_ref option"
  arg_scene :: obj_ref
  arg_getModelByName :: "string \<Rightarrow> obj_ref option"
  arg_getAnimationsForModel :: "string \<Rightarrow> 'v world \<Rightarrow> clip list"
  arg_playAnimation :: "string \<Rightarrow> string \<Rightarrow> 'v world \<Rightarrow> unit completion \<times> 'v world"
  arg_stopAnimation :: "string \<Rightarrow> 'v world \<Rightarrow> unit completion \<times> 'v world"
  arg_createHTML :: "html \<Rightarrow> 'v world \<Rightarrow> unit completion \<times> 'v world"
  arg_removeHTML :: "string \<Rightarrow> 'v world \<Rightarrow> unit completion \<times> 'v world"
  arg_input :: input_state
  arg_delta :: real
  arg_camera :: obj_ref

text \<open>
  A compiled module is a closure: the variables it captured (\<open>locals\<close>) and its
  \<^verbatim>\<open>update\<close> function, which may change them, the world, and may throw.
\<close>

type_synonym 'v script_fn =
  "'v call_args \<Rightarrow> (string \<rightharpoonup> 'v) \<times> 'v world \<Rightarrow> unit completion \<times> (string \<rightharpoonup> 'v) \<times> 'v world"

record 'v compiled_unit =
  locals :: "string \<rightharpoonup> 'v"
  update :: "'v script_fn"

text \<open>
  What a script's top level can return, as far as the driver tells values apart: null,
  another falsy value (undefined when there is no \<^verbatim>\<open>return\<close>), a truthy value that is
  not an object, or an object, whose \<^verbatim>\<open>update\<close> property is a function or not.
\<close>

datatype 'v jsval = JNull | JFalsy | JTruthy | JObject "'v compiled_unit option"

fun falsy :: "'v jsval \<Rightarrow> bool" where
  "falsy JNull = True"
| "falsy JFalsy = True"
| "falsy JTruthy = False"
| "falsy (JObject u) = False"

type_synonym 'v toplevel = "'v call_args \<Rightarrow> 'v world \<Rightarrow> 'v jsval completion \<times> 'v world"

type_synonym 'v js_engine = "string \<Rightarrow> 'v toplevel option"

definition noop_unit :: "'v compiled_unit" where
  "noop_unit = \<lparr>locals = Map.empty, update = (\<lambda>a s. (Normal (), s))\<rparr>"

record 'v cache_entry =
  script :: string
  module :: "'v jsval"

datatype slot = SceneSlot | EntitySlot nat

text \<open>
  The calls the driver makes to what it does not define: the mixer, the Function
  constructor, the function it built (the top level of a script), the \<^verbatim>\<open>update\<close> of a
  cached module. The field \<open>calls\<close> of the state records them in order; the component has
  no such field, and nothing reads it.
\<close>

datatype call = Mixer_update real | New_Function slot | Call_scriptFn slot | Call_update slot

record 'v scene_state =
  sceneScriptRef :: "'v cache_entry"
  modelScriptsRef :: "nat \<rightharpoonup> 'v cache_entry"
  input :: input_state
  world :: "'v world"
  calls :: "call list"

record r3f_state =
  scene :: obj_ref
  camera :: obj_ref

definition record_call :: "call \<Rightarrow> 'v scene_state \<Rightarrow> 'v scene_state" where
  "record_call c st = st\<lparr>calls := calls st @ [c]\<rparr>"

subsection \<open>The effect that resets the cache and clears the overlay\<close>

definition clear_overlay :: "'v world \<Rightarrow> 'v world" where
  "clear_overlay w =
     (case overlay (document w) of
        None \<Rightarrow> w
      | Some kids \<Rightarrow> w\<lparr>document := (document w)\<lparr>overlay := Some []\<rparr>\<rparr>)"

definition reset_model_cache :: "string \<Rightarrow> nat \<Rightarrow> 'v scene_state \<Rightarrow> 'v scene_state" where
  "reset_model_cache scr index st =
     (case modelScriptsRef st index of
        None \<Rightarrow> st\<lparr>modelScriptsRef := (modelScriptsRef st)(index \<mapsto> \<lparr>script = scr, module = JNull\<rparr>)\<rparr>
      | Some en \<Rightarrow>
          if script en \<noteq> scr
          then st\<lparr>modelScriptsRef := (modelScriptsRef st)(index \<mapsto> \<lparr>script = scr, module = JNull\<rparr>)\<rparr>
          else st)"

fun forEach_script :: "nat \<Rightarrow> string option list \<Rightarrow> 'v scene_state \<Rightarrow> 'v scene_state" where
  "forEach_script index [] st = st"
| "forEach_script index (None # ss) st = forEach_script (Suc index) ss st"
| "forEach_script index (Some scr # ss) st =
     forEach_script (Suc index) ss (reset_model_cache scr index st)"

definition Scene_effect :: "'v props \<Rightarrow> 'v scene_state \<Rightarrow> 'v scene_state" where
  "Scene_effect p st =
     (let st1 = st\<lparr>world := clear_overlay (world st)\<rparr>;
          st2 = (if sceneScript p \<noteq> script (sceneScriptRef st1)
                 then st1\<lparr>sceneScriptRef := \<lparr>script = sceneScript p, module = JNull\<rparr>\<rparr>
                 else st1)
      in forEach_script 0 (modelScripts p) st2)"

text \<open>
  A render commits new props; the effect runs when one of its dependencies
  \<^verbatim>\<open>[sceneScript, modelScripts, isEditMode]\<close> changed. (React compares the array
  \<^verbatim>\<open>modelScripts\<close> by identity; here it counts as changed when its content changed.)
\<close>

definition commit :: "'v props \<Rightarrow> 'v props \<Rightarrow> 'v scene_state \<Rightarrow> 'v scene_state" where
  "commit p p' st =
     (if sceneScript p' \<noteq> sceneScript p \<or> modelScripts p' \<noteq> modelScripts p
         \<or> isEditMode p' \<noteq> isEditMode p
      then Scene_effect p' st else st)"

subsection \<open>The frame driver\<close>

definition script_args ::
  "'v props \<Rightarrow> r3f_state \<Rightarrow> real \<Rightarrow> input_state \<Rightarrow> obj_ref option \<Rightarrow> 'v call_args" where
  "script_args p rs delta inp m =
     \<lparr>arg_model = m, arg_scene = scene rs,
      arg_getModelByName = getModelByName p,
      arg_getAnimationsForModel = getAnimationsForModel p,
      arg_playAnimation = playAnimation p,
      arg_stopAnimation = stopAnimation p,
      arg_createHTML = createHTML,
      arg_removeHTML = removeHTML,
      arg_input = inp, arg_delta = delta, arg_camera = camera rs\<rparr>"

text \<open>
  The function that \<^verbatim>\<open>new Function\<close> builds around a script text: the top level of the
  script inside \<^verbatim>\<open>try { ... } catch (error) { console.error(...); return { update: () => {} }; }\<close>.
\<close>

definition scriptFn :: "(exn \<Rightarrow> log_line) \<Rightarrow> 'v toplevel \<Rightarrow> 'v toplevel" where
  "scriptFn msg body a w =
     (case body a w of
        (Normal v, w') \<Rightarrow> (Normal v, w')
      | (Throw e, w') \<Rightarrow> (Normal (JObject (Some noop_unit)), console_log (msg e) w'))"

definition scene_module_init ::
  "'v js_engine \<Rightarrow> 'v props \<Rightarrow> r3f_state \<Rightarrow> real \<Rightarrow> 'v scene_state
     \<Rightarrow> unit completion \<times> 'v scene_state" where
  "scene_module_init js p rs delta st =
     (if \<not> falsy (module (sceneScriptRef st)) then (Normal (), st)
      else (case js (sceneScript p) of
        None \<Rightarrow> (Throw SyntaxError, record_call (New_Function SceneSlot) st)
      | Some body \<Rightarrow>
          (let st1 = record_call (Call_scriptFn SceneSlot) (record_call (New_Function SceneSlot) st)
           in (case scriptFn Error_in_scene_script body
                     (script_args p rs delta (input st1) None) (world st1) of
                (Normal v, w') \<Rightarrow>
                  (Normal (), st1\<lparr>world := w', sceneScriptRef := (sceneScriptRef st1)\<lparr>module := v\<rparr>\<rparr>)
              | (Throw e, w') \<Rightarrow>
                  (Normal (),
                   st1\<lparr>world := console_log (Error_initializing_scene_script e) w',
                       sceneScriptRef := (sceneScriptRef st1)\<lparr>module := JObject (Some noop_unit)\<rparr>\<rparr>)))))"

definition scene_module_update ::
  "'v props \<Rightarrow> r3f_state \<Rightarrow> real \<Rightarrow> 'v scene_state \<Rightarrow> unit completion \<times> 'v scene_state" where
  "scene_module_update p rs delta st =
     (case module (sceneScriptRef st) of
        JNull \<Rightarrow> (Throw TypeError, st)
      | JObject (Some u) \<Rightarrow>
          let st1 = record_call (Call_update SceneSlot) st
          in (case update u (script_args p rs delta (input st1) None) (locals u, world st1) of
                (r, l', w') \<Rightarrow>
                  (Normal (),
                   st1\<lparr>world := (case r of
                                    Normal x \<Rightarrow> w'
                                  | Throw e \<Rightarrow> console_log (Error_executing_scene_script_update e) w'),
                       sceneScriptRef := (sceneScriptRef st1)\<lparr>module := JObject (Some (u\<lparr>locals := l'\<rparr>))\<rparr>\<rparr>))
      | _ \<Rightarrow> (Normal (), st))"

definition execute_scene_script ::
  "'v js_engine \<Rightarrow> 'v props \<Rightarrow> r3f_state \<Rightarrow> real \<Rightarrow> 'v scene_state
     \<Rightarrow> unit completion \<times> 'v scene_state" where
  "execute_scene_script js p rs delta st =
     (if sceneScript p = [] then (Normal (), st)
      else (case scene_module_init js p rs delta st of
        (Throw e, st') \<Rightarrow> (Throw e, st')
      | (Normal x, st') \<Rightarrow> scene_module_update p rs delta st'))"

definition cached_module :: "'v scene_state \<Rightarrow> nat \<Rightarrow> 'v jsval" where
  "cached_module st index =
     (case modelScriptsRef st index of None \<Rightarrow> JFalsy | Some en \<Rightarrow> module en)"

definition set_module :: "nat \<Rightarrow> 'v jsval \<Rightarrow> 'v scene_state \<Rightarrow> 'v scene_state" where
  "set_module index v st =
     (case modelScriptsRef st index of
        None \<Rightarrow> st
      | Some en \<Rightarrow> st\<lparr>modelScriptsRef := (modelScriptsRef st)(index \<mapsto> en\<lparr>module := v\<rparr>)\<rparr>)"

definition model_module_init ::
  "'v js_engine \<Rightarrow> 'v props \<Rightarrow> r3f_state \<Rightarrow> real \<Rightarrow> obj_ref \<Rightarrow> nat \<Rightarrow> string
     \<Rightarrow> 'v scene_state \<Rightarrow> unit completion \<times> 'v scene_state" where
  "model_module_init js p rs delta model index scr st =
     (if \<not> falsy (cached_module st index) then (Normal (), st)
      else (case js scr of
        None \<Rightarrow> (Throw SyntaxError, record_call (New_Function (EntitySlot index)) st)
      | Some body \<Rightarrow>
         (let st0 = record_call (New_Function (EntitySlot index)) st;
              st1 = (case modelScriptsRef st0 index of
                       None \<Rightarrow> st0\<lparr>modelScriptsRef :=
                                    (modelScriptsRef st0)(index \<mapsto> \<lparr>script = scr, module = JNull\<rparr>)\<rparr>
                     | Some en \<Rightarrow> st0);
              st2 = record_call (Call_scriptFn (EntitySlot index)) st1
          in (case scriptFn Error_in_model_script_body body
                    (script_args p rs delta (input st2) (Some model)) (world st2) of
               (Normal v, w') \<Rightarrow> (Normal (), set_module index v (st2\<lparr>world := w'\<rparr>))
             | (Throw e, w') \<Rightarrow>
                 (Normal (),
                  set_module index (JObject (Some noop_unit))
                    (st2\<lparr>world := console_log (Error_initializing_model_script index e) w'\<rparr>))))))"

definition model_module_update ::
  "'v props \<Rightarrow> r3f_state \<Rightarrow> real \<Rightarrow> obj_ref \<Rightarrow> nat \<Rightarrow> 'v scene_state
     \<Rightarrow> unit completion \<times> 'v scene_state" where
  "model_module_update p rs delta model index st =
     (case cached_module st index of
        JNull \<Rightarrow> (Throw TypeError, st)
      | JObject (Some u) \<Rightarrow>
          let st1 = record_call (Call_update (EntitySlot index)) st
          in (case update u (script_args p rs delta (input st1) (Some model)) (locals u, world st1) of
                (r, l', w') \<Rightarrow>
                  (Normal (),
                   set_module index (JObject (Some (u\<lparr>locals := l'\<rparr>)))
                     (st1\<lparr>world := (case r of
                                       Normal x \<Rightarrow> w'
                                     | Throw e \<Rightarrow>
                                         console_log (Error_executing_model_script_update index e) w')\<rparr>)))
      | _ \<Rightarrow> (Normal (), st))"

definition execute_model_script ::
  "'v js_engine \<Rightarrow> 'v props \<Rightarrow> r3f_state \<Rightarrow> real \<Rightarrow> obj_ref \<Rightarrow> nat \<Rightarrow> 'v scene_state
     \<Rightarrow> 'v scene_state" where
  "execute_model_script js p rs delta model index st =
     (case (if index < length (modelScripts p) then modelScripts p ! index else None) of
        None \<Rightarrow> st
      | Some scr \<Rightarrow>
          (if scr = [] then st
           else (case (case model_module_init js p rs delta model index scr st of
                        (Throw e, st') \<Rightarrow> (Throw e, st')
                      | (Normal x, st') \<Rightarrow> model_module_update p rs delta model index st') of
                  (Normal x, st') \<Rightarrow> st'
                | (Throw e, st') \<Rightarrow>
                    st'\<lparr>world := console_log (Error_in_model_script index e) (world st')\<rparr>)))"

fun forEach_model ::
  "(obj_ref \<Rightarrow> nat \<Rightarrow> 'v scene_state \<Rightarrow> 'v scene_state) \<Rightarrow> nat \<Rightarrow> obj_ref list
     \<Rightarrow> 'v scene_state \<Rightarrow> 'v scene_state" where
  "forEach_model f index [] st = st"
| "forEach_model f index (model # ms) st = forEach_model f (Suc index) ms (f model index st)"

definition useFrame ::
  "'v js_engine \<Rightarrow> 'v props \<Rightarrow> r3f_state \<Rightarrow> real \<Rightarrow> 'v scene_state \<Rightarrow> 'v scene_state" where
  "useFrame js p rs delta st =
     (let st0 = (if mixer p then record_call (Mixer_update delta) st else st)
      in if isEditMode p then st0
         else (case execute_scene_script js p rs delta st0 of
           (Throw e, st1) \<Rightarrow> st1\<lparr>world := console_log (Error_in_script_execution e) (world st1)\<rparr>
         | (Normal x, st1) \<Rightarrow>
             forEach_model (execute_model_script js p rs delta) 0 (uploadedModels p) st1))"

subsection \<open>Several frames, and what is read off the record of calls\<close>

fun frames ::
  "'v js_engine \<Rightarrow> 'v props \<Rightarrow> r3f_state \<Rightarrow> real list \<Rightarrow> 'v scene_state \<Rightarrow> 'v scene_state" where
  "frames js p rs [] st = st"
| "frames js p rs (delta # ds) st = frames js p rs ds (useFrame js p rs delta st)"

fun slot_of :: "call \<Rightarrow> slot option" where
  "slot_of (Mixer_update d) = None"
| "slot_of (New_Function s) = Some s"
| "slot_of (Call_scriptFn s) = Some s"
| "slot_of (Call_update s) = Some s"

text \<open>The calls that making sure of a slot's module adds to the record.\<close>

definition scene_init_calls :: "'v js_engine \<Rightarrow> 'v props \<Rightarrow> 'v scene_state \<Rightarrow> call list" where
  "scene_init_calls js p st =
     (if falsy (module (sceneScriptRef st))
      then (case js (sceneScript p) of
              None \<Rightarrow> [New_Function SceneSlot]
            | Some b \<Rightarrow> [New_Function SceneSlot, Call_scriptFn SceneSlot])
      else [])"

definition model_init_calls :: "'v js_engine \<Rightarrow> string \<Rightarrow> nat \<Rightarrow> 'v scene_state \<Rightarrow> call list" where
  "model_init_calls js scr i st =
     (if falsy (cached_module st i)
      then (case js scr of
              None \<Rightarrow> [New_Function (EntitySlot i)]
            | Some b \<Rightarrow> [New_Function (EntitySlot i), Call_scriptFn (EntitySlot i)])
      else [])"

text \<open>What the effect leaves in the cache entry of a model, given the script of its index.\<close>

definition reset_entry :: "string option \<Rightarrow> 'v cache_entry option \<Rightarrow> 'v cache_entry option" where
  "reset_entry s cur =
     (case s of
        None \<Rightarrow> cur
      | Some scr \<Rightarrow>
          (case cur of
             None \<Rightarrow> Some \<lparr>script = scr, module = JNull\<rparr>
           | Some en \<Rightarrow> if script en \<noteq> scr then Some \<lparr>script = scr, module = JNull\<rparr> else Some en))"

text \<open>
  The module a slot has in the cache, and a step of the driver that is foreign to a slot:
  it leaves the slot's cache entry alone and records only calls for other slots.
\<close>

fun slot_module :: "slot \<Rightarrow> 'v scene_state \<Rightarrow> 'v jsval" where
  "slot_module SceneSlot st = module (sceneScriptRef st)"
| "slot_module (EntitySlot i) st = cached_module st i"

fun slot_entry :: "slot \<Rightarrow> 'v scene_state \<Rightarrow> 'v cache_entry option" where
  "slot_entry SceneSlot st = Some (sceneScriptRef st)"
| "slot_entry (EntitySlot i) st = modelScriptsRef st i"

definition foreign :: "slot \<Rightarrow> 'v scene_state \<Rightarrow> 'v scene_state \<Rightarrow> bool" where
  "foreign s st st' \<longleftrightarrow>
     slot_entry s st' = slot_entry s st \<and>
     (\<exists>cs. calls st' = calls st @ cs \<and> (\<forall>c \<in> set cs. slot_of c \<noteq> Some s))"

text \<open>
  A script text that the engine parses and whose top level, when it returns, returns a
  truthy value (an object that exposes \<^verbatim>\<open>update\<close>, as the scripts are meant to).
\<close>

definition yields_module :: "'v js_engine \<Rightarrow> string \<Rightarrow> bool" where
  "yields_module js scr \<longleftrightarrow>
     (\<exists>b. js scr = Some b \<and> (\<forall>a w v w'. b a w = (Normal v, w') \<longrightarrow> \<not> falsy v))"

text \<open>The script text of a slot, when it has one that is not empty.\<close>

fun slot_script :: "'v props \<Rightarrow> slot \<Rightarrow> string option" where
  "slot_script p SceneSlot = (if sceneScript p = [] then None else Some (sceneScript p))"
| "slot_script p (EntitySlot i) =
     (if i < length (uploadedModels p) \<and> i < length (modelScripts p)
      then (case modelScripts p ! i of
              None \<Rightarrow> None
            | Some scr \<Rightarrow> if scr = [] then None else Some scr)
      else None)"

text \<open>The calls that the frames after a state have added to the record.\<close>

definition calls_since :: "'v scene_state \<Rightarrow> 'v scene_state \<Rightarrow> call list" where
  "calls_since st st' = drop (length (calls st)) (calls st')"

text \<open>The scene script cannot make the frame skip the model scripts.\<close>

definition scene_safe :: "'v js_engine \<Rightarrow> 'v props \<Rightarrow> 'v scene_state \<Rightarrow> bool" where
  "scene_safe js p st \<longleftrightarrow>
     sceneScript p = [] \<or> \<not> falsy (module (sceneScriptRef st)) \<or> yields_module js (sceneScript p)"

text \<open>The step of the frame that belongs to a slot.\<close>

fun own_step ::
  "'v js_engine \<Rightarrow> 'v props \<Rightarrow> r3f_state \<Rightarrow> real \<Rightarrow> slot \<Rightarrow> 'v scene_state \<Rightarrow> 'v scene_state" where
  "own_step js p rs d SceneSlot st = snd (execute_scene_script js p rs d st)"
| "own_step js p rs d (EntitySlot i) st =
     execute_model_script js p rs d (uploadedModels p ! i) i st"

text \<open>
  Scripts whose calls keep a relation \<open>R\<close> between the three.js objects (and with them every
  \<^verbatim>\<open>userData\<close>) before and after the call, when called with the arguments the driver
  passes for the given props: an \<^verbatim>\<open>update\<close> function, a module, the top level of a
  script, and the scripts that a frame can run: the texts of the slots and the modules in
  the cache. With equality for \<open>R\<close> these are the scripts that write to no object.
\<close>

type_synonym 'v objects_rel = "(obj_ref \<Rightarrow> 'v object3d) \<Rightarrow> (obj_ref \<Rightarrow> 'v object3d) \<Rightarrow> bool"

definition keeps_rel :: "'v objects_rel \<Rightarrow> 'v props \<Rightarrow> r3f_state \<Rightarrow> 'v script_fn \<Rightarrow> bool" where
  "keeps_rel R p rs f \<longleftrightarrow>
     (\<forall>d inp m l w. R (objects w) (objects (snd (snd (f (script_args p rs d inp m) (l, w))))))"

fun module_keeps_rel :: "'v objects_rel \<Rightarrow> 'v props \<Rightarrow> r3f_state \<Rightarrow> 'v jsval \<Rightarrow> bool" where
  "module_keeps_rel R p rs (JObject (Some u)) = keeps_rel R p rs (update u)"
| "module_keeps_rel R p rs v = True"

definition toplevel_keeps_rel :: "'v objects_rel \<Rightarrow> 'v props \<Rightarrow> r3f_state \<Rightarrow> 'v toplevel \<Rightarrow> bool" where
  "toplevel_keeps_rel R p rs b \<longleftrightarrow>
     (\<forall>d inp m w. R (objects w) (objects (snd (b (script_args p rs d inp m) w))) \<and>
        (\<forall>v. fst (b (script_args p rs d inp m) w) = Normal v \<longrightarrow> module_keeps_rel R p rs v))"

definition scripts_keep_rel ::
  "'v objects_rel \<Rightarrow> 'v js_engine \<Rightarrow> 'v props \<Rightarrow> r3f_state \<Rightarrow> 'v scene_state \<Rightarrow> bool" where
  "scripts_keep_rel R js p rs st \<longleftrightarrow>
     (\<forall>b. sceneScript p \<noteq> [] \<and> js (sceneScript p) = Some b \<longrightarrow> toplevel_keeps_rel R p rs b) \<and>
     (\<forall>i scr b. i < length (modelScripts p) \<and> modelScripts p ! i = Some scr \<and> scr \<noteq> [] \<and>
         js scr = Some b \<longrightarrow> toplevel_keeps_rel R p rs b) \<and>
     module_keeps_rel R p rs (module (sceneScriptRef st)) \<and>
     (\<forall>i en. modelScriptsRef st i = Some en \<longrightarrow> module_keeps_rel R p rs (module en))"

text \<open>No key of a \<^verbatim>\<open>userData\<close> is lost from the first objects to the second.\<close>

definition userData_kept :: "'v objects_rel" where
  "userData_kept os os' \<longleftrightarrow> (\<forall>r k. userData (os r) k \<noteq> None \<longrightarrow> userData (os' r) k \<noteq> None)"

text \<open>
  The state of a frame in running mode when the step of model slot \<open>j\<close> begins: after the
  update of the mixer, the scene script and the steps of the models before \<open>j\<close>.
\<close>

definition before_model ::
  "'v js_engine \<Rightarrow> 'v props \<Rightarrow> r3f_state \<Rightarrow> real \<Rightarrow> nat \<Rightarrow> 'v scene_state \<Rightarrow> 'v scene_state" where
  "before_model js p rs d j st =
     forEach_model (execute_model_script js p rs d) 0 (take j (uploadedModels p))
       (snd (execute_scene_script js p rs d
          (if mixer p then record_call (Mixer_update d) st else st)))"

text \<open>
  The clip and the model that \<^verbatim>\<open>playAnimation(modelName, animationName)\<close> finds, if there
  is a mixer: the clip with that name in the animations of the model with that name.
\<close>

definition requested_clip ::
  "'v props \<Rightarrow> string \<Rightarrow> string \<Rightarrow> 'v world \<Rightarrow> (clip \<times> obj_ref) option" where
  "requested_clip p modelName animationName w =
     (if \<not> mixer p then None
      else (case targetModel p modelName w of
        None \<Rightarrow> None
      | Some target \<Rightarrow>
          (case animations (objects w target) of
             None \<Rightarrow> None
           | Some modelAnimations \<Rightarrow>
               (case find (\<lambda>anim. clip_name anim = animationName) modelAnimations of
                  None \<Rightarrow> None
                | Some animation \<Rightarrow> Some (animation, target)))))"

text \<open>
  The clip that \<^verbatim>\<open>handlePlayAnimation\<close> looks up: the clip of the active model with the
  given name, whatever model was named.
\<close>

definition active_clip :: "'v props \<Rightarrow> string \<Rightarrow> 'v world \<Rightarrow> (clip \<times> obj_ref) option" where
  "active_clip p animationName w =
     (case activeModel p of
        None \<Rightarrow> None
      | Some model \<Rightarrow>
          (case animations (objects w model) of
             None \<Rightarrow> None
           | Some anims \<Rightarrow>
               (case find (\<lambda>anim. clip_name anim = animationName) anims of
                  None \<Rightarrow> None
                | Some animation \<Rightarrow> Some (animation, model))))"

text \<open>
  The \<^verbatim>\<open>update\<close> of a script that calls \<^verbatim>\<open>playAnimation(modelName, animationName)\<close>
  and does nothing else.
\<close>

definition play_update :: "string \<Rightarrow> string \<Rightarrow> 'v script_fn" where
  "play_update modelName animationName a s =
     (case s of (l, w) \<Rightarrow>
        (case arg_playAnimation a modelName animationName w of (r, w') \<Rightarrow> (r, l, w')))"

subsection \<open>Concrete objects, documents and worlds used in the examples\<close>

definition demo_objects :: "obj_ref \<Rightarrow> int object3d" where
  "demo_objects r =
     (if r = 1 then
        \<lparr>name = ''Hero'',
         animations = Some [AnimationClip ''idle'' 10, AnimationClip ''walk'' 11],
         userData = Map.empty\<rparr>
      else if r = 2 then
        \<lparr>name = ''Enemy'',
         animations = Some [AnimationClip ''run'' 20, AnimationClip ''walk'' 21],
         userData = Map.empty\<rparr>
      else \<lparr>name = [], animations = None, userData = Map.empty\<rparr>)"

definition demo_dom :: dom where
  "demo_dom =
     \<lparr>before = [Element ''root'' [Element ''scriptPrompt'' []]],
      overlay = Some [Element ''hud'' [Element ''score'' []]],
      after = [Element [] []]\<rparr>"

definition demo_world :: "int world" where
  "demo_world = \<lparr>objects = demo_objects, playing = [], document = demo_dom, console = []\<rparr>"

definition twice_hud_world :: "int world" where
  "twice_hud_world =
     demo_world\<lparr>document := \<lparr>before = [], overlay = Some [Element ''hud'' []],
                               after = [Element ''hud'' []]\<rparr>\<rparr>"

text \<open>
  Script texts and what the JavaScript engine makes of them. Every other text is taken to
  be a syntax error.
\<close>

definition counter_script :: string where
  "counter_script =
     ''let n = 0; function update(model) { n++; model.userData.counter = (model.userData.counter || 0) + 1; } return { update };''"

definition edited_counter_script :: string where
  "edited_counter_script =
     ''let n = 0; function update(model) { n++; model.userData.counter = (model.userData.counter || 0) + 1; } return { update }; // edited''"

definition boom_script :: string where
  "boom_script = ''function update() { throw new Error(1); } return { update };''"

definition hits_script :: string where
  "hits_script = ''scene.userData.hits = (scene.userData.hits || 0) + 1;''"

definition throw_script :: string where
  "throw_script = ''throw new Error(0);''"

definition hud_script :: string where
  "hud_script = ''function update() { createHTML(<div id=hud></div>); } return { update };''"

definition walk_script :: string where
  "walk_script = ''function update() { playAnimation(hero.glb, walk); } return { update };''"

definition run_script :: string where
  "run_script = ''function update() { playAnimation(enemy.glb, run); } return { update };''"

definition broken_script :: string where
  "broken_script = ''function update( {''"

definition increment :: "obj_ref \<Rightarrow> string \<Rightarrow> int world \<Rightarrow> int world" where
  "increment r k w =
     w\<lparr>objects := (objects w)
          (r := (objects w r)
             \<lparr>userData := (userData (objects w r))
                 (k \<mapsto> (case userData (objects w r) k of None \<Rightarrow> 1 | Some n \<Rightarrow> n + 1))\<rparr>)\<rparr>"

definition first_arg :: "'v call_args \<Rightarrow> obj_ref" where
  "first_arg a = (case arg_model a of Some m \<Rightarrow> m | None \<Rightarrow> arg_scene a)"

definition counter_update :: "int script_fn" where
  "counter_update a s =
     (case s of (l, w) \<Rightarrow>
        (Normal (),
         l(''n'' \<mapsto> (case l ''n'' of None \<Rightarrow> 1 | Some n \<Rightarrow> n + 1)),
         increment (first_arg a) ''counter'' w))"

definition boom_update :: "int script_fn" where
  "boom_update a s = (Throw (ScriptError ''1''), s)"

definition hud_update :: "int script_fn" where
  "hud_update a s =
     (case s of (l, w) \<Rightarrow>
        (case arg_createHTML a [Element ''hud'' []] w of (r, w') \<Rightarrow> (r, l, w')))"

definition returns :: "int script_fn \<Rightarrow> int toplevel" where
  "returns f a w = (Normal (JObject (Some \<lparr>locals = Map.empty, update = f\<rparr>)), w)"

definition demo_js :: "int js_engine" where
  "demo_js txt =
     (if txt = counter_script
      then Some (\<lambda>a w. (Normal (JObject (Some \<lparr>locals = [''n'' \<mapsto> 0], update = counter_update\<rparr>)), w))
      else if txt = boom_script then Some (returns boom_update)
      else if txt = hits_script then Some (\<lambda>a w. (Normal JFalsy, increment (arg_scene a) ''hits'' w))
      else if txt = throw_script then Some (\<lambda>a w. (Throw (ScriptError ''0''), w))
      else if txt = hud_script then Some (returns hud_update)
      else if txt = walk_script then Some (returns (play_update ''hero.glb'' ''walk''))
      else if txt = run_script then Some (returns (play_update ''enemy.glb'' ''run''))
      else if txt = edited_counter_script
      then Some (\<lambda>a w. (Normal (JObject (Some \<lparr>locals = [''n'' \<mapsto> 0], update = counter_update\<rparr>)), w))
      else None)"

text \<open>Props, as \<^verbatim>\<open>Engine\<close> passes them, and states of the component.\<close>

definition demo_props :: "int props" where
  "demo_props =
     \<lparr>activeModel = None, mixer = True, isEditMode = False,
      modelScripts = [Some ''A'', Some ''B''], sceneScript = ''S'',
      uploadedModels = [1, 2], modelNames = [''hero.glb'', ''enemy.glb''],
      onPlayAnimation = Some (handlePlayAnimation None True),
      onStopAnimation = Some (handleStopAnimation True)\<rparr>"

definition demo_input :: input_state where
  "demo_input = \<lparr>keys = Map.empty, mouse_x = 0, mouse_y = 0, buttons = Map.empty\<rparr>"

definition demo_rs :: r3f_state where
  "demo_rs = \<lparr>scene = 0, camera = 9\<rparr>"

definition demo_state :: "int scene_state" where
  "demo_state =
     \<lparr>sceneScriptRef = \<lparr>script = ''S'', module = JObject (Some noop_unit)\<rparr>,
      modelScriptsRef = [0 \<mapsto> \<lparr>script = ''A'', module = JObject (Some noop_unit)\<rparr>],
      input = demo_input, world = demo_world, calls = []\<rparr>"

text \<open>The state of a component that has just been mounted: nothing compiled yet.\<close>

definition fresh_state :: "int scene_state" where
  "fresh_state =
     \<lparr>sceneScriptRef = \<lparr>script = [], module = JNull\<rparr>, modelScriptsRef = Map.empty,
      input = demo_input, world = demo_world, calls = []\<rparr>"

text \<open>A running game: a scene script and two model scripts, the first of which throws.\<close>

definition game_props :: "int props" where
  "game_props =
     demo_props\<lparr>sceneScript := hud_script, modelScripts := [Some boom_script, Some counter_script]\<rparr>"

definition broken_scene_props :: "int props" where
  "broken_scene_props = game_props\<lparr>sceneScript := broken_script\<rparr>"

definition broken_model_props :: "int props" where
  "broken_model_props = game_props\<lparr>modelScripts := [Some broken_script, Some counter_script]\<rparr>"

text \<open>A scene script that counts the runs of its top level and returns nothing.\<close>

definition hits_props :: "int props" where
  "hits_props =
     demo_props\<lparr>sceneScript := hits_script, modelScripts := [], uploadedModels := [],
                modelNames := []\<rparr>"



text \<open>An engine for scripts that write to no object.\<close>

definition quiet_js :: "int js_engine" where
  "quiet_js txt =
     (if txt = boom_script then Some (returns boom_update)
      else if txt = hud_script then Some (returns hud_update)
      else if txt = walk_script then Some (returns (play_update ''hero.glb'' ''walk''))
      else if txt = run_script then Some (returns (play_update ''enemy.glb'' ''run''))
      else None)"

text \<open>Two models whose scripts both play an animation, and their compiled modules.\<close>

definition duel_props :: "int props" where
  "duel_props = demo_props\<lparr>sceneScript := hud_script, modelScripts := [Some walk_script, Some run_script]\<rparr>"

definition duel_state :: "int scene_state" where
  "duel_state =
     \<lparr>sceneScriptRef =
        \<lparr>script = hud_script,
         module = JObject (Some \<lparr>locals = Map.empty, update = hud_update\<rparr>)\<rparr>,
      modelScriptsRef =
        [0 \<mapsto> \<lparr>script = walk_script,
                module = JObject (Some \<lparr>locals = Map.empty,
                                        update = play_update ''hero.glb'' ''walk''\<rparr>)\<rparr>,
         1 \<mapsto> \<lparr>script = run_script,
                module = JObject (Some \<lparr>locals = Map.empty,
                                        update = play_update ''enemy.glb'' ''run''\<rparr>)\<rparr>],
      input = demo_input, world = demo_world, calls = []\<rparr>"

text \<open>
  The same two models with the hero selected in the editor (the active model): the script
  of the hero plays its \<^verbatim>\<open>idle\<close>, the script of the enemy plays the \<^verbatim>\<open>walk\<close> of the enemy.
\<close>

definition idle_script :: string where
  "idle_script = ''function update() { playAnimation(hero.glb, idle); } return { update };''"

definition enemy_walk_script :: string where
  "enemy_walk_script = ''function update() { playAnimation(enemy.glb, walk); } return { update };''"

definition selected_props :: "int props" where
  "selected_props =
     demo_props\<lparr>activeModel := Some 1, sceneScript := hud_script,
                modelScripts := [Some idle_script, Some enemy_walk_script],
                onPlayAnimation := Some (handlePlayAnimation (Some 1) True)\<rparr>"

definition selected_state :: "int scene_state" where
  "selected_state =
     \<lparr>sceneScriptRef =
        \<lparr>script = hud_script,
         module = JObject (Some \<lparr>locals = Map.empty, update = hud_update\<rparr>)\<rparr>,
      modelScriptsRef =
        [0 \<mapsto> \<lparr>script = idle_script,
                module = JObject (Some \<lparr>locals = Map.empty,
                                        update = play_update ''hero.glb'' ''idle''\<rparr>)\<rparr>,
         1 \<mapsto> \<lparr>script = enemy_walk_script,
                module = JObject (Some \<lparr>locals = Map.empty,
                                        update = play_update ''enemy.glb'' ''walk''\<rparr>)\<rparr>],
      input = demo_input, world = demo_world, calls = []\<rparr>"

text \<open>One model with the counting script, before and after an edit of its text.\<close>

definition solo_props :: "int props" where
  "solo_props =
     demo_props\<lparr>sceneScript := [], modelScripts := [Some counter_script],
                uploadedModels := [1], modelNames := [''hero.glb'']\<rparr>"

definition edited_props :: "int props" where
  "edited_props = solo_props\<lparr>modelScripts := [Some edited_counter_script]\<rparr>"

section \<open>Properties\<close>

subsection \<open>Lookup in the document\<close>

lemma findIndex_None: "findIndex P xs = None \<longleftrightarrow> (\<forall>x \<in> set xs. \<not> P x)"
  by (induction xs) auto

lemma getElementById_outside_only:
  assumes "i \<noteq> []" "i \<noteq> ''scriptOverlay''"
    and "\<exists>e \<in> set (before d) \<union> set (after d). contains_id i e"
    and "\<forall>kids. overlay d = Some kids \<longrightarrow> (\<forall>e \<in> set kids. \<not> contains_id i e)"
  shows "getElementById d i = Some Outside"
proof (cases "overlay d")
  case None
  with assms show ?thesis by (auto simp: getElementById_def)
next
  case (Some kids)
  with assms(4) have "findIndex (contains_id i) kids = None" by (simp add: findIndex_None)
  with Some assms show ?thesis by (auto simp: getElementById_def)
qed

subsection \<open>The effect\<close>

lemma forEach_script_world: "world (forEach_script n ss st) = world st"
  by (induction n ss st rule: forEach_script.induct)
     (auto simp: reset_model_cache_def split: option.splits)

lemma forEach_script_scene: "sceneScriptRef (forEach_script n ss st) = sceneScriptRef st"
  by (induction n ss st rule: forEach_script.induct)
     (auto simp: reset_model_cache_def split: option.splits)

lemma forEach_script_calls: "calls (forEach_script n ss st) = calls st"
  by (induction n ss st rule: forEach_script.induct)
     (auto simp: reset_model_cache_def split: option.splits)

lemma reset_model_cache_at:
  "modelScriptsRef (reset_model_cache scr n st) i =
     (if i = n then reset_entry (Some scr) (modelScriptsRef st i) else modelScriptsRef st i)"
  by (auto simp: reset_model_cache_def reset_entry_def split: option.splits)

lemma forEach_script_at:
  "modelScriptsRef (forEach_script n ss st) i =
     (if n \<le> i \<and> i < n + length ss then reset_entry (ss ! (i - n)) (modelScriptsRef st i)
      else modelScriptsRef st i)"
proof (induction n ss st rule: forEach_script.induct)
  case (1 index st)
  then show ?case by auto
next
  case (2 index ss st)
  then show ?case
    by (auto simp: reset_entry_def nth_Cons')
next
  case (3 index scr ss st)
  then show ?case
    by (auto simp: reset_model_cache_at nth_Cons')
qed

lemma Scene_effect_scene:
  "sceneScriptRef (Scene_effect p st) =
     (if sceneScript p = script (sceneScriptRef st) then sceneScriptRef st
      else \<lparr>script = sceneScript p, module = JNull\<rparr>)"
  by (simp add: Scene_effect_def Let_def forEach_script_scene)

lemma Scene_effect_models:
  "modelScriptsRef (Scene_effect p st) i =
     (if i < length (modelScripts p) then reset_entry (modelScripts p ! i) (modelScriptsRef st i)
      else modelScriptsRef st i)"
  by (simp add: Scene_effect_def Let_def forEach_script_at)

lemma Scene_effect_world: "world (Scene_effect p st) = clear_overlay (world st)"
  by (simp add: Scene_effect_def Let_def forEach_script_world)

lemma Scene_effect_calls: "calls (Scene_effect p st) = calls st"
  by (simp add: Scene_effect_def Let_def forEach_script_calls)

lemma commit_mode_change: "isEditMode p' \<noteq> isEditMode p \<Longrightarrow> commit p p' st = Scene_effect p' st"
  by (simp add: commit_def)

lemma clear_overlay_overlay:
  "overlay (document (clear_overlay w)) =
     (case overlay (document w) of None \<Rightarrow> None | Some kids \<Rightarrow> Some [])"
  by (simp add: clear_overlay_def split: option.splits)

lemma getElementById_empty_overlay:
  "overlay d = Some [] \<or> overlay d = None \<Longrightarrow>
     getElementById d i \<noteq> Some (OverlayChild k) \<and> getElementById d i \<noteq> Some (BelowOverlayChild k)"
  by (auto simp: getElementById_def split: if_splits)

subsection \<open>Frames in editing mode\<close>

lemma useFrame_edit:
  "isEditMode p \<Longrightarrow>
     useFrame js p rs d st = (if mixer p then record_call (Mixer_update d) st else st)"
  by (simp add: useFrame_def)

lemma frames_edit_world: "isEditMode p \<Longrightarrow> world (frames js p rs ds st) = world st"
  by (induction ds arbitrary: st) (simp_all add: useFrame_edit record_call_def)

subsection \<open>The steps of the driver: what they record and what they leave alone\<close>

lemma record_call_simps:
  "calls (record_call c st) = calls st @ [c]"
  "world (record_call c st) = world st"
  "input (record_call c st) = input st"
  "sceneScriptRef (record_call c st) = sceneScriptRef st"
  "modelScriptsRef (record_call c st) = modelScriptsRef st"
  by (simp_all add: record_call_def)

lemma set_module_simps:
  "calls (set_module i v st) = calls st"
  "world (set_module i v st) = world st"
  "input (set_module i v st) = input st"
  "sceneScriptRef (set_module i v st) = sceneScriptRef st"
  by (simp_all add: set_module_def split: option.splits)

lemma set_module_at:
  "modelScriptsRef (set_module i v st) j =
     (if j = i then map_option (\<lambda>en. en\<lparr>module := v\<rparr>) (modelScriptsRef st j)
      else modelScriptsRef st j)"
  by (simp add: set_module_def split: option.splits)

lemma scene_module_init_calls:
  "calls (snd (scene_module_init js p rs d st)) = calls st @ scene_init_calls js p st"
  by (simp add: scene_module_init_def scene_init_calls_def Let_def record_call_simps
      split: option.splits prod.splits completion.splits)

lemma scene_module_update_calls:
  "calls (snd (scene_module_update p rs d st)) =
     calls st @ (case module (sceneScriptRef st) of JObject (Some u) \<Rightarrow> [Call_update SceneSlot] | _ \<Rightarrow> [])"
  by (simp add: scene_module_update_def Let_def record_call_simps
      split: jsval.splits option.splits prod.splits)

lemma model_module_init_calls:
  "calls (snd (model_module_init js p rs d m i scr st)) = calls st @ model_init_calls js scr i st"
  by (simp add: model_module_init_def model_init_calls_def Let_def record_call_simps set_module_simps
      split: option.splits prod.splits completion.splits)

lemma model_module_init_frame:
  "sceneScriptRef (snd (model_module_init js p rs d m i scr st)) = sceneScriptRef st"
  "input (snd (model_module_init js p rs d m i scr st)) = input st"
  by (simp_all add: model_module_init_def Let_def record_call_simps set_module_simps
      split: option.splits prod.splits completion.splits)

lemma model_module_init_other:
  "j \<noteq> i \<Longrightarrow> modelScriptsRef (snd (model_module_init js p rs d m i scr st)) j = modelScriptsRef st j"
  by (simp add: model_module_init_def Let_def record_call_simps set_module_at
      split: option.splits prod.splits completion.splits)

lemma model_module_init_cached:
  "\<not> falsy (cached_module st i) \<Longrightarrow> model_module_init js p rs d m i scr st = (Normal (), st)"
  by (simp add: model_module_init_def)

lemma model_module_init_syntax_error:
  "falsy (cached_module st i) \<Longrightarrow> js scr = None \<Longrightarrow>
     model_module_init js p rs d m i scr st
       = (Throw SyntaxError, record_call (New_Function (EntitySlot i)) st)"
  by (simp add: model_module_init_def)

lemma model_module_update_calls:
  "calls (snd (model_module_update p rs d m i st)) =
     calls st @ (case cached_module st i of JObject (Some u) \<Rightarrow> [Call_update (EntitySlot i)] | _ \<Rightarrow> [])"
  by (simp add: model_module_update_def Let_def record_call_simps set_module_simps
      split: jsval.splits option.splits prod.splits)

lemma model_module_update_frame:
  "sceneScriptRef (snd (model_module_update p rs d m i st)) = sceneScriptRef st"
  "input (snd (model_module_update p rs d m i st)) = input st"
  by (simp_all add: model_module_update_def Let_def record_call_simps set_module_simps
      split: jsval.splits option.splits prod.splits)

lemma model_module_update_other:
  "j \<noteq> i \<Longrightarrow> modelScriptsRef (snd (model_module_update p rs d m i st)) j = modelScriptsRef st j"
  by (simp add: model_module_update_def Let_def record_call_simps set_module_at
      split: jsval.splits option.splits prod.splits)

lemma model_module_update_ready:
  assumes "modelScriptsRef st i = Some en" "module en = JObject (Some u)"
  shows "\<exists>l st'. model_module_update p rs d m i st = (Normal (), st') \<and>
           modelScriptsRef st' i = Some (en\<lparr>module := JObject (Some (u\<lparr>locals := l\<rparr>))\<rparr>) \<and>
           calls st' = calls st @ [Call_update (EntitySlot i)]"
  using assms
  by (auto simp: model_module_update_def cached_module_def Let_def record_call_simps set_module_simps
      set_module_at split: prod.splits)

subsection \<open>Steps that are foreign to a slot\<close>

lemma foreign_refl: "foreign s st st"
  by (simp add: foreign_def)

lemma foreign_trans:
  assumes "foreign s st st'" "foreign s st' st''"
  shows "foreign s st st''"
proof -
  from assms(1) obtain cs1 where 1: "slot_entry s st' = slot_entry s st"
    "calls st' = calls st @ cs1" "\<forall>c \<in> set cs1. slot_of c \<noteq> Some s"
    unfolding foreign_def by blast
  from assms(2) obtain cs2 where 2: "slot_entry s st'' = slot_entry s st'"
    "calls st'' = calls st' @ cs2" "\<forall>c \<in> set cs2. slot_of c \<noteq> Some s"
    unfolding foreign_def by blast
  from 1 2 have "calls st'' = calls st @ (cs1 @ cs2)"
    "\<forall>c \<in> set (cs1 @ cs2). slot_of c \<noteq> Some s"
    by auto
  with 1(1) 2(1) show ?thesis unfolding foreign_def by metis
qed

lemma slot_module_entry:
  "slot_entry s st' = slot_entry s st \<Longrightarrow> slot_module s st' = slot_module s st"
  by (cases s) (simp_all add: cached_module_def)

lemma foreign_module: "foreign s st st' \<Longrightarrow> slot_module s st' = slot_module s st"
  unfolding foreign_def by (blast intro: slot_module_entry)

lemma foreign_count:
  assumes "foreign s st st'" "slot_of c = Some s"
  shows "count_list (calls st') c = count_list (calls st) c"
proof -
  from assms(1) obtain cs where 1: "calls st' = calls st @ cs"
    "\<forall>c \<in> set cs. slot_of c \<noteq> Some s"
    unfolding foreign_def by blast
  with assms(2) have "c \<notin> set cs" by auto
  then have "count_list cs c = 0" by (simp add: count_list_0_iff)
  with 1(1) show ?thesis by simp
qed

lemma execute_model_script_frame:
  "sceneScriptRef (execute_model_script js p rs d m i st) = sceneScriptRef st"
  "input (execute_model_script js p rs d m i st) = input st"
proof -
  have "sceneScriptRef (execute_model_script js p rs d m i st) = sceneScriptRef st \<and>
        input (execute_model_script js p rs d m i st) = input st"
  proof (cases "if i < length (modelScripts p) then modelScripts p ! i else None")
    case None
    then show ?thesis by (simp add: execute_model_script_def)
  next
    case (Some scr)
    obtain r st' where i: "model_module_init js p rs d m i scr st = (r, st')" by force
    obtain r2 st2 where u: "model_module_update p rs d m i st' = (r2, st2)" by force
    from model_module_init_frame [of js p rs d m i scr st] i
    have 1: "sceneScriptRef st' = sceneScriptRef st" "input st' = input st" by simp_all
    from model_module_update_frame [of p rs d m i st'] u
    have 2: "sceneScriptRef st2 = sceneScriptRef st'" "input st2 = input st'" by simp_all
    from Some i u 1 2 show ?thesis
      by (simp add: execute_model_script_def split: completion.splits)
  qed
  then show "sceneScriptRef (execute_model_script js p rs d m i st) = sceneScriptRef st"
    "input (execute_model_script js p rs d m i st) = input st" by simp_all
qed

lemma execute_model_script_other:
  assumes "j \<noteq> i"
  shows "modelScriptsRef (execute_model_script js p rs d m i st) j = modelScriptsRef st j"
proof (cases "if i < length (modelScripts p) then modelScripts p ! i else None")
  case None
  then show ?thesis by (simp add: execute_model_script_def)
next
  case (Some scr)
  obtain r st' where i: "model_module_init js p rs d m i scr st = (r, st')" by force
  obtain r2 st2 where u: "model_module_update p rs d m i st' = (r2, st2)" by force
  from model_module_init_other [OF assms, of js p rs d m scr st] i
  have 1: "modelScriptsRef st' j = modelScriptsRef st j" by simp
  from model_module_update_other [OF assms, of p rs d m st'] u
  have 2: "modelScriptsRef st2 j = modelScriptsRef st' j" by simp
  from Some i u 1 2 show ?thesis
    by (simp add: execute_model_script_def split: completion.splits)
qed

lemma execute_model_script_calls:
  "\<exists>cs. calls (execute_model_script js p rs d m i st) = calls st @ cs \<and>
        (\<forall>c \<in> set cs. slot_of c = Some (EntitySlot i))"
proof (cases "if i < length (modelScripts p) then modelScripts p ! i else None")
  case None
  then show ?thesis by (simp add: execute_model_script_def)
next
  case (Some scr)
  obtain r st' where i: "model_module_init js p rs d m i scr st = (r, st')" by force
  obtain r2 st2 where u: "model_module_update p rs d m i st' = (r2, st2)" by force
  from model_module_init_calls [of js p rs d m i scr st] i
  have 1: "calls st' = calls st @ model_init_calls js scr i st" by simp
  have s1: "\<forall>c \<in> set (model_init_calls js scr i st). slot_of c = Some (EntitySlot i)"
    by (auto simp: model_init_calls_def split: option.splits)
  from model_module_update_calls [of p rs d m i st'] u
  have 2: "calls st2 = calls st' @
     (case cached_module st' i of JObject (Some u) \<Rightarrow> [Call_update (EntitySlot i)] | _ \<Rightarrow> [])"
    by simp
  from Some i u 1 2 s1 show ?thesis
    by (auto simp: execute_model_script_def split: completion.splits jsval.splits option.splits)
qed

lemma execute_model_script_foreign:
  assumes "s \<noteq> EntitySlot i"
  shows "foreign s st (execute_model_script js p rs d m i st)"
proof -
  have e: "slot_entry s (execute_model_script js p rs d m i st) = slot_entry s st"
    using assms by (cases s) (simp_all add: execute_model_script_frame execute_model_script_other)
  from execute_model_script_calls [of js p rs d m i st]
  obtain cs where c: "calls (execute_model_script js p rs d m i st) = calls st @ cs"
    "\<forall>c \<in> set cs. slot_of c = Some (EntitySlot i)" by blast
  with assms have "\<forall>c \<in> set cs. slot_of c \<noteq> Some s" by auto
  with e c(1) show ?thesis unfolding foreign_def by blast
qed

lemma forEach_model_foreign:
  assumes "\<forall>i. s = EntitySlot i \<longrightarrow> i < n \<or> n + length ms \<le> i"
  shows "foreign s st (forEach_model (execute_model_script js p rs d) n ms st)"
  using assms
proof (induction ms arbitrary: n st)
  case Nil
  then show ?case by (simp add: foreign_refl)
next
  case (Cons m ms)
  from Cons.prems have "s \<noteq> EntitySlot n" by auto
  then have 1: "foreign s st (execute_model_script js p rs d m n st)"
    by (rule execute_model_script_foreign)
  from Cons.prems have "\<forall>i. s = EntitySlot i \<longrightarrow> i < Suc n \<or> Suc n + length ms \<le> i" by auto
  from Cons.IH [OF this] have
    2: "foreign s (execute_model_script js p rs d m n st)
          (forEach_model (execute_model_script js p rs d) (Suc n) ms (execute_model_script js p rs d m n st))" .
  from foreign_trans [OF 1 2] show ?case by simp
qed

lemma forEach_model_split:
  assumes "n \<le> i" "i < n + length ms"
  shows "\<exists>st1. foreign (EntitySlot i) st st1 \<and>
           foreign (EntitySlot i) (execute_model_script js p rs d (ms ! (i - n)) i st1)
             (forEach_model (execute_model_script js p rs d) n ms st)"
  using assms
proof (induction ms arbitrary: n st)
  case Nil
  then show ?case by simp
next
  case (Cons m ms)
  show ?case
  proof (cases "i = n")
    case True
    have "foreign (EntitySlot i) (execute_model_script js p rs d m n st)
          (forEach_model (execute_model_script js p rs d) (Suc n) ms (execute_model_script js p rs d m n st))"
      by (rule forEach_model_foreign) (use True in auto)
    with True show ?thesis
      by (intro exI [of _ st]) (simp add: foreign_refl)
  next
    case False
    with Cons.prems have r: "Suc n \<le> i" "i < Suc n + length ms" by auto
    from Cons.IH [OF r, of "execute_model_script js p rs d m n st"]
    obtain st1 where
      1: "foreign (EntitySlot i) (execute_model_script js p rs d m n st) st1" and
      2: "foreign (EntitySlot i) (execute_model_script js p rs d (ms ! (i - Suc n)) i st1)
           (forEach_model (execute_model_script js p rs d) (Suc n) ms
              (execute_model_script js p rs d m n st))"
      by blast
    have "foreign (EntitySlot i) st (execute_model_script js p rs d m n st)"
      by (rule execute_model_script_foreign) (use False in auto)
    from foreign_trans [OF this 1] have 3: "foreign (EntitySlot i) st st1" .
    from r False have "(m # ms) ! (i - n) = ms ! (i - Suc n)"
      by (simp add: nth_Cons')
    with 2 3 show ?thesis by auto
  qed
qed

subsection \<open>The step of a slot on its own module\<close>

lemma falsy_cases: "falsy v \<longleftrightarrow> v = JNull \<or> v = JFalsy"
  by (cases v) simp_all

lemma scriptFn_truthy:
  assumes "\<forall>a w v w'. b a w = (Normal v, w') \<longrightarrow> \<not> falsy v"
  shows "\<exists>v w'. scriptFn msg b a w = (Normal v, w') \<and> \<not> falsy v"
proof (cases "b a w")
  case (Pair r w')
  show ?thesis
  proof (cases r)
    case (Normal v)
    with Pair assms show ?thesis by (auto simp: scriptFn_def)
  next
    case (Throw e)
    with Pair show ?thesis by (simp add: scriptFn_def)
  qed
qed

lemma scriptFn_Normal: "\<exists>v w'. scriptFn msg b a w = (Normal v, w')"
  by (cases "b a w") (auto simp: scriptFn_def split: completion.splits)

(* model: own step *)


lemma cached_module_simps:
  "cached_module (record_call c st) i = cached_module st i"
  "cached_module (st\<lparr>world := w\<rparr>) i = cached_module st i"
  by (simp_all add: cached_module_def record_call_def)

lemma cached_module_set_module:
  "modelScriptsRef st i \<noteq> None \<Longrightarrow> cached_module (set_module i v st) i = v"
  by (auto simp: cached_module_def set_module_def)


lemma cached_module_JObject:
  "cached_module st i = JObject o' \<Longrightarrow> \<exists>en. modelScriptsRef st i = Some en \<and> module en = JObject o'"
  by (simp add: cached_module_def split: option.splits)

lemma model_module_update_truthy:
  assumes "\<not> falsy (cached_module st i)"
  shows "\<exists>st'. model_module_update p rs d m i st = (Normal (), st') \<and> \<not> falsy (cached_module st' i) \<and>
       (\<exists>cs. calls st' = calls st @ cs \<and> (\<forall>c \<in> set cs. c = Call_update (EntitySlot i)))"
proof (cases "cached_module st i")
  case JNull
  with assms show ?thesis by simp
next
  case JFalsy
  with assms show ?thesis by simp
next
  case JTruthy
  then have "model_module_update p rs d m i st = (Normal (), st)"
    by (simp add: model_module_update_def)
  with JTruthy show ?thesis by simp
next
  case (JObject o')
  show ?thesis
  proof (cases o')
    case None
    with JObject have "model_module_update p rs d m i st = (Normal (), st)"
      by (simp add: model_module_update_def)
    with JObject show ?thesis by simp
  next
    case (Some u)
    with JObject obtain en where en: "modelScriptsRef st i = Some en" "module en = JObject (Some u)"
      using cached_module_JObject by blast
    from model_module_update_ready [OF en, of p rs d m]
    obtain l st' where u: "model_module_update p rs d m i st = (Normal (), st')"
      "modelScriptsRef st' i = Some (en\<lparr>module := JObject (Some (u\<lparr>locals := l\<rparr>))\<rparr>)"
      "calls st' = calls st @ [Call_update (EntitySlot i)]" by blast
    from u(2) have "\<not> falsy (cached_module st' i)" by (simp add: cached_module_def)
    with u show ?thesis by auto
  qed
qed

lemma yields_moduleD:
  assumes "yields_module js scr"
  obtains b where "js scr = Some b" "\<forall>a w v w'. b a w = (Normal v, w') \<longrightarrow> \<not> falsy v"
  using assms unfolding yields_module_def by blast

lemma execute_model_script_no_script:
  "(if i < length (modelScripts p) then modelScripts p ! i else None) = None \<or>
   (if i < length (modelScripts p) then modelScripts p ! i else None) = Some [] \<Longrightarrow>
     execute_model_script js p rs d m i st = st"
  by (auto simp: execute_model_script_def)

lemma execute_model_script_cached:
  assumes "\<not> falsy (cached_module st i)"
  shows "\<not> falsy (cached_module (execute_model_script js p rs d m i st) i) \<and>
         (\<exists>cs. calls (execute_model_script js p rs d m i st) = calls st @ cs \<and>
               (\<forall>c \<in> set cs. c = Call_update (EntitySlot i)))"
proof (cases "if i < length (modelScripts p) then modelScripts p ! i else None")
  case None
  with assms show ?thesis by (simp add: execute_model_script_def)
next
  case (Some scr)
  from model_module_update_truthy [OF assms, of p rs d m]
  obtain st' cs where u: "model_module_update p rs d m i st = (Normal (), st')"
    "\<not> falsy (cached_module st' i)" "calls st' = calls st @ cs"
    "\<forall>c \<in> set cs. c = Call_update (EntitySlot i)" by blast
  show ?thesis
  proof (cases "scr = []")
    case True
    with Some assms show ?thesis by (simp add: execute_model_script_def)
  next
    case False
    with Some u assms have "execute_model_script js p rs d m i st = st'"
      by (simp add: execute_model_script_def model_module_init_cached)
    with u show ?thesis by blast
  qed
qed



lemma execute_model_script_syntax_error:
  assumes "i < length (modelScripts p)" "modelScripts p ! i = Some scr" "scr \<noteq> []"
    and "falsy (cached_module st i)" "js scr = None"
  shows "execute_model_script js p rs d m i st
           = (record_call (New_Function (EntitySlot i)) st)
               \<lparr>world := console_log (Error_in_model_script i SyntaxError) (world st)\<rparr>"
  using assms
  by (simp add: execute_model_script_def model_module_init_syntax_error record_call_simps)

lemma scene_module_init_frame:
  "modelScriptsRef (snd (scene_module_init js p rs d st)) = modelScriptsRef st"
  "input (snd (scene_module_init js p rs d st)) = input st"
  by (simp_all add: scene_module_init_def Let_def record_call_simps
      split: option.splits prod.splits completion.splits)

lemma scene_module_update_frame:
  "modelScriptsRef (snd (scene_module_update p rs d st)) = modelScriptsRef st"
  "input (snd (scene_module_update p rs d st)) = input st"
  by (simp_all add: scene_module_update_def Let_def record_call_simps
      split: jsval.splits option.splits prod.splits)

lemma scene_module_init_cached:
  "\<not> falsy (module (sceneScriptRef st)) \<Longrightarrow> scene_module_init js p rs d st = (Normal (), st)"
  by (simp add: scene_module_init_def)

lemma scene_module_init_syntax_error:
  "falsy (module (sceneScriptRef st)) \<Longrightarrow> js (sceneScript p) = None \<Longrightarrow>
     scene_module_init js p rs d st = (Throw SyntaxError, record_call (New_Function SceneSlot) st)"
  by (simp add: scene_module_init_def)

lemma scene_module_init_fresh:
  assumes "falsy (module (sceneScriptRef st))" "js (sceneScript p) = Some b"
  shows "\<exists>v w' st'. scriptFn Error_in_scene_script b
             (script_args p rs d (input st) None) (world st) = (Normal v, w') \<and>
           scene_module_init js p rs d st = (Normal (), st') \<and>
           module (sceneScriptRef st') = v \<and>
           calls st' = calls st @ [New_Function SceneSlot, Call_scriptFn SceneSlot]"
proof -
  obtain v w' where s: "scriptFn Error_in_scene_script b
             (script_args p rs d (input st) None) (world st) = (Normal v, w')"
    using scriptFn_Normal by blast
  with assms show ?thesis
    by (simp add: scene_module_init_def Let_def record_call_simps)
qed

lemma scene_module_update_truthy:
  "\<not> falsy (module (sceneScriptRef st)) \<Longrightarrow>
     \<exists>st'. scene_module_update p rs d st = (Normal (), st') \<and> \<not> falsy (module (sceneScriptRef st')) \<and>
       (\<exists>cs. calls st' = calls st @ cs \<and> (\<forall>c \<in> set cs. c = Call_update SceneSlot))"
  by (cases "module (sceneScriptRef st)")
     (auto simp: scene_module_update_def Let_def record_call_simps split: option.splits prod.splits)


subsection \<open>The scene script in a frame\<close>

lemma foreign_record_call: "slot_of c \<noteq> Some s \<Longrightarrow> foreign s st (record_call c st)"
  by (cases s) (simp_all add: foreign_def record_call_simps)

lemma foreign_world: "foreign s st (st\<lparr>world := w\<rparr>)"
  by (cases s) (simp_all add: foreign_def)

lemma execute_scene_script_frame:
  "modelScriptsRef (snd (execute_scene_script js p rs d st)) = modelScriptsRef st"
  "input (snd (execute_scene_script js p rs d st)) = input st"
proof -
  obtain r st' where i: "scene_module_init js p rs d st = (r, st')" by force
  from scene_module_init_frame [of js p rs d st] i
  have 1: "modelScriptsRef st' = modelScriptsRef st" "input st' = input st" by simp_all
  from scene_module_update_frame [of p rs d st'] 1
  have 2: "modelScriptsRef (snd (scene_module_update p rs d st')) = modelScriptsRef st"
    "input (snd (scene_module_update p rs d st')) = input st" by simp_all
  from i 1 2 show "modelScriptsRef (snd (execute_scene_script js p rs d st)) = modelScriptsRef st"
    "input (snd (execute_scene_script js p rs d st)) = input st"
    by (simp_all add: execute_scene_script_def split: completion.splits)
qed

lemma execute_scene_script_calls:
  "\<exists>cs. calls (snd (execute_scene_script js p rs d st)) = calls st @ cs \<and>
        (\<forall>c \<in> set cs. slot_of c = Some SceneSlot)"
proof (cases "sceneScript p = []")
  case True
  then show ?thesis by (simp add: execute_scene_script_def)
next
  case False
  obtain r st' where i: "scene_module_init js p rs d st = (r, st')" by force
  have c1: "calls st' = calls st @ scene_init_calls js p st"
    using scene_module_init_calls [of js p rs d st] i by simp
  have s1: "\<forall>c \<in> set (scene_init_calls js p st). slot_of c = Some SceneSlot"
    by (auto simp: scene_init_calls_def split: option.splits)
  show ?thesis
  proof (cases r)
    case (Throw e)
    with False i c1 s1 show ?thesis by (simp add: execute_scene_script_def)
  next
    case (Normal x)
    have "calls (snd (scene_module_update p rs d st')) =
       calls st' @ (case module (sceneScriptRef st') of JObject (Some u) \<Rightarrow> [Call_update SceneSlot] | _ \<Rightarrow> [])"
      by (rule scene_module_update_calls)
    with Normal False i c1 s1 show ?thesis
      by (auto simp: execute_scene_script_def split: jsval.splits option.splits)
  qed
qed

lemma execute_scene_script_foreign:
  "foreign (EntitySlot i) st (snd (execute_scene_script js p rs d st))"
proof -
  from execute_scene_script_calls [of js p rs d st]
  obtain cs where c: "calls (snd (execute_scene_script js p rs d st)) = calls st @ cs"
    "\<forall>c \<in> set cs. slot_of c = Some SceneSlot" by blast
  then have "\<forall>c \<in> set cs. slot_of c \<noteq> Some (EntitySlot i)" by auto
  with c(1) show ?thesis
    unfolding foreign_def by (auto simp: execute_scene_script_frame)
qed

lemma execute_scene_script_cached:
  assumes "\<not> falsy (module (sceneScriptRef st))"
  shows "\<exists>st'. execute_scene_script js p rs d st = (Normal (), st') \<and>
           \<not> falsy (module (sceneScriptRef st')) \<and>
           (\<exists>cs. calls st' = calls st @ cs \<and> (\<forall>c \<in> set cs. c = Call_update SceneSlot))"
proof (cases "sceneScript p = []")
  case True
  with assms show ?thesis by (simp add: execute_scene_script_def)
next
  case False
  from scene_module_update_truthy [OF assms, of p rs d] False assms show ?thesis
    by (simp add: execute_scene_script_def scene_module_init_cached)
qed

lemma execute_scene_script_fresh:
  assumes "sceneScript p \<noteq> []" "falsy (module (sceneScriptRef st))"
    and "yields_module js (sceneScript p)"
  shows "\<exists>st'. execute_scene_script js p rs d st = (Normal (), st') \<and>
           \<not> falsy (module (sceneScriptRef st')) \<and>
           (\<exists>cs. calls st' = calls st @ [New_Function SceneSlot, Call_scriptFn SceneSlot] @ cs \<and>
                 (\<forall>c \<in> set cs. c = Call_update SceneSlot))"
proof -
  from assms(3) obtain b where b: "js (sceneScript p) = Some b"
    "\<forall>a w v w'. b a w = (Normal v, w') \<longrightarrow> \<not> falsy v" by (rule yields_moduleD)
  from scene_module_init_fresh [where js = js and p = p and b = b and st = st and rs = rs
      and d = d] assms(2) b(1)
  obtain v w' st1 where i: "scriptFn Error_in_scene_script b
             (script_args p rs d (input st) None) (world st) = (Normal v, w')"
      "scene_module_init js p rs d st = (Normal (), st1)"
      "module (sceneScriptRef st1) = v"
      "calls st1 = calls st @ [New_Function SceneSlot, Call_scriptFn SceneSlot]"
    by blast
  from scriptFn_truthy [OF b(2), of Error_in_scene_script
      "script_args p rs d (input st) None" "world st"] i(1)
  have "\<not> falsy v" by auto
  with i(3) have t: "\<not> falsy (module (sceneScriptRef st1))" by simp
  from scene_module_update_truthy [OF t, of p rs d]
  obtain st' cs where u: "scene_module_update p rs d st1 = (Normal (), st')"
    "\<not> falsy (module (sceneScriptRef st'))" "calls st' = calls st1 @ cs"
    "\<forall>c \<in> set cs. c = Call_update SceneSlot" by blast
  from assms(1) i(2) u(1) have "execute_scene_script js p rs d st = (Normal (), st')"
    by (simp add: execute_scene_script_def)
  with u i(4) show ?thesis by auto
qed


lemma execute_scene_script_syntax_error:
  assumes "sceneScript p \<noteq> []" "falsy (module (sceneScriptRef st))" "js (sceneScript p) = None"
  shows "execute_scene_script js p rs d st
           = (Throw SyntaxError, record_call (New_Function SceneSlot) st)"
  using assms by (simp add: execute_scene_script_def scene_module_init_syntax_error)

lemma execute_scene_script_safe:
  assumes "scene_safe js p st"
  shows "\<exists>st'. execute_scene_script js p rs d st = (Normal (), st')"
proof (cases "sceneScript p = []")
  case True
  then show ?thesis by (simp add: execute_scene_script_def)
next
  case False
  show ?thesis
  proof (cases "falsy (module (sceneScriptRef st))")
    case True
    with False assms have "yields_module js (sceneScript p)" by (simp add: scene_safe_def)
    from execute_scene_script_fresh [OF False True this, of rs d] show ?thesis by blast
  next
    case f: False
    from execute_scene_script_cached [OF f, of js p rs d] show ?thesis by blast
  qed
qed

subsection \<open>A frame, seen from one slot\<close>

lemma foreign_grows: "foreign s st st' \<Longrightarrow> \<exists>cs. calls st' = calls st @ cs"
  unfolding foreign_def by blast

lemma own_step_grows: "\<exists>cs. calls (own_step js p rs d s st) = calls st @ cs"
proof (cases s)
  case SceneSlot
  with execute_scene_script_calls [of js p rs d st] show ?thesis by auto
next
  case (EntitySlot i)
  with execute_model_script_calls [of js p rs d "uploadedModels p ! i" i st] show ?thesis by auto
qed

lemma own_step_cached:
  assumes "\<not> falsy (slot_module s st)"
  shows "\<not> falsy (slot_module s (own_step js p rs d s st)) \<and>
         (\<exists>cs. calls (own_step js p rs d s st) = calls st @ cs \<and> (\<forall>c \<in> set cs. c = Call_update s))"
proof (cases s)
  case SceneSlot
  with assms have "\<not> falsy (module (sceneScriptRef st))" by simp
  from execute_scene_script_cached [OF this, where js = js and p = p and rs = rs and d = d] SceneSlot show ?thesis by auto
next
  case (EntitySlot i)
  with assms have "\<not> falsy (cached_module st i)" by simp
  from execute_model_script_cached [OF this, where js = js and p = p and rs = rs and d = d and m = "uploadedModels p ! i"] EntitySlot
  show ?thesis by simp
qed



lemma scene_safe_foreign:
  "foreign SceneSlot st st' \<Longrightarrow> scene_safe js p st' = scene_safe js p st"
  by (simp add: scene_safe_def foreign_def)

lemma useFrame_reaches:
  assumes "\<not> isEditMode p" "scene_safe js p st" "slot_script p s = Some scr"
  shows "\<exists>st1. foreign s st st1 \<and> foreign s (own_step js p rs d s st1) (useFrame js p rs d st)"
proof -
  define st0 where "st0 = (if mixer p then record_call (Mixer_update d) st else st)"
  have f0: "foreign t st st0" for t
    by (simp add: st0_def foreign_record_call foreign_refl)
  from assms(2) scene_safe_foreign [OF f0] have "scene_safe js p st0" by simp
  from execute_scene_script_safe [OF this, where rs = rs and d = d]
  obtain sta where sc: "execute_scene_script js p rs d st0 = (Normal (), sta)" by blast
  with assms(1) have u: "useFrame js p rs d st
      = forEach_model (execute_model_script js p rs d) 0 (uploadedModels p) sta"
    by (simp add: useFrame_def st0_def)
  show ?thesis
  proof (cases s)
    case SceneSlot
    from sc have "own_step js p rs d SceneSlot st0 = sta" by simp
    moreover have "foreign SceneSlot sta (forEach_model (execute_model_script js p rs d) 0 (uploadedModels p) sta)"
      by (rule forEach_model_foreign) simp
    ultimately show ?thesis using SceneSlot u f0 by auto
  next
    case (EntitySlot i)
    with assms(3) have i: "0 \<le> i" "i < 0 + length (uploadedModels p)"
      by (auto split: if_splits)
    from forEach_model_split [OF i, where js = js and p = p and rs = rs and d = d and st = sta]
    obtain st1 where 1: "foreign (EntitySlot i) sta st1"
      "foreign (EntitySlot i) (execute_model_script js p rs d (uploadedModels p ! (i - 0)) i st1)
             (forEach_model (execute_model_script js p rs d) 0 (uploadedModels p) sta)" by blast
    from execute_scene_script_foreign [where i = i and st = st0 and js = js and p = p and rs = rs and d = d] sc
    have "foreign (EntitySlot i) st0 sta" by simp
    from foreign_trans [OF f0 this] have "foreign (EntitySlot i) st sta" .
    from foreign_trans [OF this 1(1)] have "foreign (EntitySlot i) st st1" .
    with 1(2) u EntitySlot show ?thesis by auto
  qed
qed

lemma useFrame_foreign_or_step:
  "foreign s st (useFrame js p rs d st) \<or>
   (\<exists>st1. foreign s st st1 \<and> foreign s (own_step js p rs d s st1) (useFrame js p rs d st))"
proof -
  define st0 where "st0 = (if mixer p then record_call (Mixer_update d) st else st)"
  have f0: "foreign t st st0" for t
    by (simp add: st0_def foreign_record_call foreign_refl)
  show ?thesis
  proof (cases "isEditMode p")
    case True
    then have "useFrame js p rs d st = st0" by (simp add: useFrame_def st0_def)
    with f0 show ?thesis by simp
  next
    case False
    obtain r sta where sc: "execute_scene_script js p rs d st0 = (r, sta)" by force
    show ?thesis
    proof (cases s)
      case SceneSlot
      have o: "own_step js p rs d SceneSlot st0 = sta" using sc by simp
      have "foreign SceneSlot sta (useFrame js p rs d st)"
      proof (cases r)
        case (Normal x)
        with sc False have "useFrame js p rs d st
          = forEach_model (execute_model_script js p rs d) 0 (uploadedModels p) sta"
          by (simp add: useFrame_def st0_def)
        moreover have "foreign SceneSlot sta
            (forEach_model (execute_model_script js p rs d) 0 (uploadedModels p) sta)"
          by (rule forEach_model_foreign) simp
        ultimately show ?thesis by simp
      next
        case (Throw e)
        with sc False have "useFrame js p rs d st
          = sta\<lparr>world := console_log (Error_in_script_execution e) (world sta)\<rparr>"
          by (simp add: useFrame_def st0_def)
        then show ?thesis by (simp add: foreign_world)
      qed
      with o f0 SceneSlot show ?thesis by auto
    next
      case (EntitySlot i)
      from execute_scene_script_foreign [where i = i and st = st0 and js = js and p = p and rs = rs and d = d] sc
      have "foreign (EntitySlot i) st0 sta" by simp
      from foreign_trans [OF f0 this] have fa: "foreign (EntitySlot i) st sta" .
      show ?thesis
      proof (cases r)
        case (Throw e)
        with sc False have "useFrame js p rs d st
          = sta\<lparr>world := console_log (Error_in_script_execution e) (world sta)\<rparr>"
          by (simp add: useFrame_def st0_def)
        with foreign_trans [OF fa foreign_world] EntitySlot show ?thesis by simp
      next
        case (Normal x)
        with sc False have u: "useFrame js p rs d st
          = forEach_model (execute_model_script js p rs d) 0 (uploadedModels p) sta"
          by (simp add: useFrame_def st0_def)
        show ?thesis
        proof (cases "i < length (uploadedModels p)")
          case True
          then have i: "0 \<le> i" "i < 0 + length (uploadedModels p)" by simp_all
          from forEach_model_split [OF i, where js = js and p = p and rs = rs and d = d and st = sta]
          obtain st1 where 1: "foreign (EntitySlot i) sta st1"
            "foreign (EntitySlot i) (execute_model_script js p rs d (uploadedModels p ! (i - 0)) i st1)
               (forEach_model (execute_model_script js p rs d) 0 (uploadedModels p) sta)" by blast
          from foreign_trans [OF fa 1(1)] 1(2) u EntitySlot show ?thesis by auto
        next
          case False
          have "foreign (EntitySlot i) sta
            (forEach_model (execute_model_script js p rs d) 0 (uploadedModels p) sta)"
            by (rule forEach_model_foreign) (use False in auto)
          from foreign_trans [OF fa this] u EntitySlot show ?thesis by simp
        qed
      qed
    qed
  qed
qed

subsection \<open>Frames and the record of calls\<close>

lemma useFrame_grows: "\<exists>cs. calls (useFrame js p rs d st) = calls st @ cs"
proof -
  from useFrame_foreign_or_step [of SceneSlot st js p rs d]
  show ?thesis
  proof
    assume "foreign SceneSlot st (useFrame js p rs d st)"
    then show ?thesis by (rule foreign_grows)
  next
    assume "\<exists>st1. foreign SceneSlot st st1 \<and>
      foreign SceneSlot (own_step js p rs d SceneSlot st1) (useFrame js p rs d st)"
    then obtain st1 where 1: "foreign SceneSlot st st1"
      "foreign SceneSlot (own_step js p rs d SceneSlot st1) (useFrame js p rs d st)" by blast
    from foreign_grows [OF 1(1)] obtain c1 where c1: "calls st1 = calls st @ c1" by blast
    from own_step_grows [of js p rs d SceneSlot st1]
    obtain c2 where c2: "calls (own_step js p rs d SceneSlot st1) = calls st1 @ c2" by blast
    from foreign_grows [OF 1(2)]
    obtain c3 where "calls (useFrame js p rs d st) = calls (own_step js p rs d SceneSlot st1) @ c3"
      by blast
    with c1 c2 have "calls (useFrame js p rs d st) = calls st @ (c1 @ c2 @ c3)" by simp
    then show ?thesis by blast
  qed
qed

lemma frames_grows: "\<exists>cs. calls (frames js p rs ds st) = calls st @ cs"
proof (induction ds arbitrary: st)
  case Nil
  then show ?case by simp
next
  case (Cons d ds)
  from useFrame_grows [of js p rs d st]
  obtain c1 where c1: "calls (useFrame js p rs d st) = calls st @ c1" by blast
  from Cons.IH [of "useFrame js p rs d st"]
  obtain c2 where "calls (frames js p rs ds (useFrame js p rs d st))
      = calls (useFrame js p rs d st) @ c2" by blast
  with c1 have "calls (frames js p rs (d # ds) st) = calls st @ (c1 @ c2)" by simp
  then show ?case by blast
qed

lemma count_calls_since:
  assumes "\<exists>cs. calls st' = calls st @ cs"
  shows "count_list (calls st') c = count_list (calls st) c + count_list (calls_since st st') c"
proof -
  from assms obtain cs where "calls st' = calls st @ cs" by blast
  then show ?thesis by (simp add: calls_since_def)
qed

text \<open>A slot whose module is cached: the frame neither parses nor runs its script text.\<close>

lemma useFrame_cached:
  assumes "\<not> falsy (slot_module s st)"
  shows "\<not> falsy (slot_module s (useFrame js p rs d st)) \<and>
         count_list (calls (useFrame js p rs d st)) (New_Function s)
           = count_list (calls st) (New_Function s) \<and>
         count_list (calls (useFrame js p rs d st)) (Call_scriptFn s)
           = count_list (calls st) (Call_scriptFn s)"
proof -
  from useFrame_foreign_or_step [of s st js p rs d]
  show ?thesis
  proof
    assume f: "foreign s st (useFrame js p rs d st)"
    from foreign_module [OF f] foreign_count [OF f, of "New_Function s"]
      foreign_count [OF f, of "Call_scriptFn s"] assms
    show ?thesis by simp
  next
    assume "\<exists>st1. foreign s st st1 \<and>
      foreign s (own_step js p rs d s st1) (useFrame js p rs d st)"
    then obtain st1 where 1: "foreign s st st1"
      and 2: "foreign s (own_step js p rs d s st1) (useFrame js p rs d st)" by blast
    from foreign_module [OF 1] assms have t: "\<not> falsy (slot_module s st1)" by simp
    from own_step_cached [OF t, of js p rs d]
    obtain cs where o: "\<not> falsy (slot_module s (own_step js p rs d s st1))"
      "calls (own_step js p rs d s st1) = calls st1 @ cs" "\<forall>c \<in> set cs. c = Call_update s"
      by blast
    from o(3) have "New_Function s \<notin> set cs" "Call_scriptFn s \<notin> set cs" by auto
    then have z: "count_list cs (New_Function s) = 0" "count_list cs (Call_scriptFn s) = 0"
      by (simp_all add: count_list_0_iff)
    from foreign_module [OF 2] o(1) foreign_count [OF 1, of "New_Function s"]
      foreign_count [OF 1, of "Call_scriptFn s"] foreign_count [OF 2, of "New_Function s"]
      foreign_count [OF 2, of "Call_scriptFn s"] o(2) z
    show ?thesis by simp
  qed
qed



lemma useFrame_scene_safe:
  assumes "scene_safe js p st"
  shows "scene_safe js p (useFrame js p rs d st)"
proof (cases "falsy (module (sceneScriptRef st))")
  case True
  with assms show ?thesis by (simp add: scene_safe_def)
next
  case False
  then have "\<not> falsy (slot_module SceneSlot st)" by simp
  from useFrame_cached [OF this, of js p rs d] show ?thesis by (simp add: scene_safe_def)
qed





lemma forEach_model_calls:
  "\<exists>cs. calls (forEach_model (execute_model_script js p rs d) n ms st) = calls st @ cs \<and>
        (\<forall>c \<in> set cs. slot_of c \<noteq> None)"
proof (induction ms arbitrary: n st)
  case Nil
  then show ?case by simp
next
  case (Cons m ms)
  from execute_model_script_calls [of js p rs d m n st]
  obtain c1 where 1: "calls (execute_model_script js p rs d m n st) = calls st @ c1"
    "\<forall>c \<in> set c1. slot_of c = Some (EntitySlot n)" by blast
  from Cons.IH [of "Suc n" "execute_model_script js p rs d m n st"]
  obtain c2 where 2: "calls (forEach_model (execute_model_script js p rs d) (Suc n) ms
        (execute_model_script js p rs d m n st)) = calls (execute_model_script js p rs d m n st) @ c2"
    "\<forall>c \<in> set c2. slot_of c \<noteq> None" by blast
  from 1 2 have "calls (forEach_model (execute_model_script js p rs d) n (m # ms) st)
      = calls st @ (c1 @ c2)" "\<forall>c \<in> set (c1 @ c2). slot_of c \<noteq> None" by auto
  then show ?case by blast
qed

lemma useFrame_run_calls:
  assumes "\<not> isEditMode p"
  shows "\<exists>cs. calls (useFrame js p rs d st)
            = calls (if mixer p then record_call (Mixer_update d) st else st) @ cs \<and>
          (\<forall>c \<in> set cs. slot_of c \<noteq> None)"
proof -
  define st0 where "st0 = (if mixer p then record_call (Mixer_update d) st else st)"
  obtain r sta where sc: "execute_scene_script js p rs d st0 = (r, sta)" by force
  from execute_scene_script_calls [of js p rs d st0] sc
  obtain c1 where 1: "calls sta = calls st0 @ c1" "\<forall>c \<in> set c1. slot_of c = Some SceneSlot"
    by auto
  show ?thesis
  proof (cases r)
    case (Throw e)
    with sc assms have "useFrame js p rs d st
          = sta\<lparr>world := console_log (Error_in_script_execution e) (world sta)\<rparr>"
      by (simp add: useFrame_def st0_def)
    with 1 show ?thesis unfolding st0_def by auto
  next
    case (Normal x)
    with sc assms have u: "useFrame js p rs d st
          = forEach_model (execute_model_script js p rs d) 0 (uploadedModels p) sta"
      by (simp add: useFrame_def st0_def)
    from forEach_model_calls [of js p rs d 0 "uploadedModels p" sta]
    obtain c2 where 2: "calls (forEach_model (execute_model_script js p rs d) 0 (uploadedModels p) sta)
        = calls sta @ c2" "\<forall>c \<in> set c2. slot_of c \<noteq> None" by blast
    from 1 2 u have "calls (useFrame js p rs d st) = calls st0 @ (c1 @ c2)"
      "\<forall>c \<in> set (c1 @ c2). slot_of c \<noteq> None" by auto
    then show ?thesis unfolding st0_def by blast
  qed
qed

subsection \<open>Evaluating the examples\<close>

lemma script_args_simps:
  "arg_model (script_args p rs d inp m) = m"
  "arg_scene (script_args p rs d inp m) = scene rs"
  "arg_getModelByName (script_args p rs d inp m) = getModelByName p"
  "arg_getAnimationsForModel (script_args p rs d inp m) = getAnimationsForModel p"
  "arg_playAnimation (script_args p rs d inp m) = playAnimation p"
  "arg_stopAnimation (script_args p rs d inp m) = stopAnimation p"
  "arg_createHTML (script_args p rs d inp m) = createHTML"
  "arg_removeHTML (script_args p rs d inp m) = removeHTML"
  "arg_input (script_args p rs d inp m) = inp"
  "arg_delta (script_args p rs d inp m) = d"
  "arg_camera (script_args p rs d inp m) = camera rs"
  by (simp_all add: script_args_def)

lemma demo_js_simps:
  "demo_js counter_script
     = Some (\<lambda>a w. (Normal (JObject (Some \<lparr>locals = [''n'' \<mapsto> 0], update = counter_update\<rparr>)), w))"
  "demo_js boom_script = Some (returns boom_update)"
  "demo_js hits_script = Some (\<lambda>a w. (Normal JFalsy, increment (arg_scene a) ''hits'' w))"
  "demo_js throw_script = Some (\<lambda>a w. (Throw (ScriptError ''0''), w))"
  "demo_js hud_script = Some (returns hud_update)"
  "demo_js walk_script = Some (returns (play_update ''hero.glb'' ''walk''))"
  "demo_js run_script = Some (returns (play_update ''enemy.glb'' ''run''))"
  "demo_js broken_script = None"
  "demo_js edited_counter_script
     = Some (\<lambda>a w. (Normal (JObject (Some \<lparr>locals = [''n'' \<mapsto> 0], update = counter_update\<rparr>)), w))"
  by (simp_all add: demo_js_def counter_script_def boom_script_def hits_script_def
      throw_script_def hud_script_def walk_script_def run_script_def broken_script_def
      edited_counter_script_def)

lemma script_nonempty:
  "counter_script \<noteq> []" "boom_script \<noteq> []" "hits_script \<noteq> []" "throw_script \<noteq> []"
  "hud_script \<noteq> []" "walk_script \<noteq> []" "run_script \<noteq> []" "broken_script \<noteq> []"
  "edited_counter_script \<noteq> []" "edited_counter_script \<noteq> counter_script"
  by (simp_all add: counter_script_def boom_script_def hits_script_def
      throw_script_def hud_script_def walk_script_def run_script_def broken_script_def
      edited_counter_script_def)

lemma game_props_simps:
  "activeModel game_props = None" "mixer game_props" "\<not> isEditMode game_props"
  "modelScripts game_props = [Some boom_script, Some counter_script]"
  "sceneScript game_props = hud_script"
  "uploadedModels game_props = [1, 2]"
  "modelNames game_props = [''hero.glb'', ''enemy.glb'']"
  by (simp_all add: game_props_def demo_props_def)

lemma fresh_state_simps:
  "sceneScriptRef fresh_state = \<lparr>script = [], module = JNull\<rparr>"
  "modelScriptsRef fresh_state = Map.empty"
  "input fresh_state = demo_input" "world fresh_state = demo_world" "calls fresh_state = []"
  by (simp_all add: fresh_state_def)

lemmas driver_defs = useFrame_def execute_scene_script_def scene_module_init_def
  scene_module_update_def execute_model_script_def model_module_init_def model_module_update_def
  scriptFn_def cached_module_def set_module_def record_call_def Let_def

lemmas script_defs = returns_def hud_update_def counter_update_def boom_update_def
  play_update_def first_arg_def noop_unit_def createHTML_def console_log_def increment_def
  demo_world_def demo_dom_def demo_objects_def

lemma yields_module_demo:
  "yields_module demo_js counter_script" "yields_module demo_js boom_script"
  "yields_module demo_js hud_script" "yields_module demo_js walk_script"
  "yields_module demo_js run_script" "yields_module demo_js throw_script"
  by (simp_all add: yields_module_def demo_js_simps returns_def)


lemma hits_props_simps:
  "mixer hits_props" "\<not> isEditMode hits_props"
  "modelScripts hits_props = []"
  "sceneScript hits_props = hits_script"
  "uploadedModels hits_props = []"
  by (simp_all add: hits_props_def demo_props_def)

lemma broken_props_simps:
  "mixer broken_scene_props" "\<not> isEditMode broken_scene_props"
  "sceneScript broken_scene_props = broken_script"
  "modelScripts broken_scene_props = [Some boom_script, Some counter_script]"
  "uploadedModels broken_scene_props = [1, 2]"
  "mixer broken_model_props" "\<not> isEditMode broken_model_props"
  "sceneScript broken_model_props = hud_script"
  "modelScripts broken_model_props = [Some broken_script, Some counter_script]"
  "uploadedModels broken_model_props = [1, 2]"
  by (simp_all add: broken_scene_props_def broken_model_props_def game_props_def demo_props_def)


subsection \<open>A script text that does not parse, and a top level that throws\<close>

lemma useFrame_scene_syntax_error:
  assumes "\<not> isEditMode p" "sceneScript p \<noteq> []" "js (sceneScript p) = None"
    and "falsy (module (sceneScriptRef st))"
  shows "useFrame js p rs d st
     = (record_call (New_Function SceneSlot)
          (if mixer p then record_call (Mixer_update d) st else st))
         \<lparr>world := console_log (Error_in_script_execution SyntaxError) (world st)\<rparr>"
proof -
  define st0 where "st0 = (if mixer p then record_call (Mixer_update d) st else st)"
  have "falsy (module (sceneScriptRef st0))" "world st0 = world st"
    using assms(4) by (simp_all add: st0_def record_call_simps)
  with execute_scene_script_syntax_error [where js = js and p = p and st = st0 and rs = rs
      and d = d] assms(1-3)
  show ?thesis
    by (simp add: useFrame_def st0_def [symmetric] record_call_simps)
qed

lemma frames_scene_syntax_error:
  assumes "\<not> isEditMode p" "sceneScript p \<noteq> []" "js (sceneScript p) = None"
    and "falsy (module (sceneScriptRef st))"
  shows "sceneScriptRef (frames js p rs ds st) = sceneScriptRef st \<and>
     modelScriptsRef (frames js p rs ds st) = modelScriptsRef st \<and>
     count_list (calls (frames js p rs ds st)) (New_Function SceneSlot)
       = count_list (calls st) (New_Function SceneSlot) + length ds"
  using assms(4)
proof (induction ds arbitrary: st)
  case Nil
  then show ?case by simp
next
  case (Cons d ds)
  define st' where "st' = useFrame js p rs d st"
  from useFrame_scene_syntax_error [where js = js and p = p and st = st and rs = rs and d = d]
    assms(1-3) Cons.prems
  have 1: "sceneScriptRef st' = sceneScriptRef st" "modelScriptsRef st' = modelScriptsRef st"
    "count_list (calls st') (New_Function SceneSlot)
       = Suc (count_list (calls st) (New_Function SceneSlot))"
    by (simp_all add: st'_def record_call_simps)
  from 1(1) Cons.prems have "falsy (module (sceneScriptRef st'))" by simp
  from Cons.IH [OF this] 1 show ?case by (simp add: st'_def)
qed

lemma useFrame_entity_syntax_error:
  assumes "\<not> isEditMode p" "scene_safe js p st" "slot_script p (EntitySlot i) = Some scr"
    and "js scr = None" "falsy (cached_module st i)"
  shows "modelScriptsRef (useFrame js p rs d st) i = modelScriptsRef st i \<and>
     count_list (calls (useFrame js p rs d st)) (New_Function (EntitySlot i))
       = Suc (count_list (calls st) (New_Function (EntitySlot i)))"
proof -
  from useFrame_reaches [OF assms(1-3), where rs = rs and d = d]
  obtain st1 where 1: "foreign (EntitySlot i) st st1"
    and 2: "foreign (EntitySlot i) (own_step js p rs d (EntitySlot i) st1) (useFrame js p rs d st)"
    by blast
  from assms(3) have a: "i < length (modelScripts p)" "modelScripts p ! i = Some scr" "scr \<noteq> []"
    by (auto split: if_splits option.splits)
  from foreign_module [OF 1] assms(5) have f: "falsy (cached_module st1 i)" by simp
  from execute_model_script_syntax_error [where js = js and p = p and st = st1 and i = i
      and scr = scr and rs = rs and d = d and m = "uploadedModels p ! i"] a f assms(4)
  have o: "modelScriptsRef (own_step js p rs d (EntitySlot i) st1) i = modelScriptsRef st1 i"
    "calls (own_step js p rs d (EntitySlot i) st1) = calls st1 @ [New_Function (EntitySlot i)]"
    by (simp_all add: record_call_simps)
  from 1 2 o(1) have "modelScriptsRef (useFrame js p rs d st) i = modelScriptsRef st i"
    by (simp add: foreign_def)
  moreover from foreign_count [OF 1, of "New_Function (EntitySlot i)"]
    foreign_count [OF 2, of "New_Function (EntitySlot i)"] o(2)
  have "count_list (calls (useFrame js p rs d st)) (New_Function (EntitySlot i))
       = Suc (count_list (calls st) (New_Function (EntitySlot i)))" by simp
  ultimately show ?thesis by simp
qed

lemma frames_scene_safe: "scene_safe js p st \<Longrightarrow> scene_safe js p (frames js p rs ds st)"
  by (induction ds arbitrary: st) (simp_all add: useFrame_scene_safe)

lemma frames_entity_syntax_error:
  assumes "\<not> isEditMode p" "slot_script p (EntitySlot i) = Some scr" "js scr = None"
    and "scene_safe js p st" "falsy (cached_module st i)"
  shows "modelScriptsRef (frames js p rs ds st) i = modelScriptsRef st i \<and>
     count_list (calls (frames js p rs ds st)) (New_Function (EntitySlot i))
       = count_list (calls st) (New_Function (EntitySlot i)) + length ds"
  using assms(4,5)
proof (induction ds arbitrary: st)
  case Nil
  then show ?case by simp
next
  case (Cons d ds)
  define st' where "st' = useFrame js p rs d st"
  from useFrame_entity_syntax_error [where js = js and p = p and st = st and i = i
      and scr = scr and rs = rs and d = d] assms(1-3) Cons.prems
  have 1: "modelScriptsRef st' i = modelScriptsRef st i"
    "count_list (calls st') (New_Function (EntitySlot i))
       = Suc (count_list (calls st) (New_Function (EntitySlot i)))"
    by (simp_all add: st'_def)
  from 1(1) Cons.prems(2) have f: "falsy (cached_module st' i)" by (simp add: cached_module_def)
  from useFrame_scene_safe [OF Cons.prems(1), of rs d] have s: "scene_safe js p st'"
    by (simp add: st'_def)
  from Cons.IH [OF s f] 1 show ?case by (simp add: st'_def)
qed

lemma toplevel_exception_caches_noop:
  assumes "falsy (module (sceneScriptRef st))" "js (sceneScript p) = Some b"
    and "b (script_args p rs d (input st) None) (world st) = (Throw e, w')"
  shows "scene_module_init js p rs d st
     = (Normal (),
        st\<lparr>calls := calls st @ [New_Function SceneSlot, Call_scriptFn SceneSlot],
           world := console_log (Error_in_scene_script e) w',
           sceneScriptRef := (sceneScriptRef st)\<lparr>module := JObject (Some noop_unit)\<rparr>\<rparr>)"
  using assms
  by (simp add: scene_module_init_def scriptFn_def Let_def record_call_def)

subsection \<open>Frames whose scripts keep a relation on the objects\<close>

lemma console_log_simps:
  "objects (console_log l w) = objects w" "playing (console_log l w) = playing w"
  "document (console_log l w) = document w"
  by (simp_all add: console_log_def)

lemma rel_refl: "reflp R \<Longrightarrow> R x x"
  by (simp add: reflp_def)

lemma rel_trans: "transp R \<Longrightarrow> \<forall>x y z. R x y \<longrightarrow> R y z \<longrightarrow> R x z"
  unfolding transp_def by blast

lemma noop_keeps_rel:
  assumes "reflp R"
  shows "keeps_rel R p rs (update noop_unit)"
proof -
  have "R x x" for x using assms by (rule rel_refl)
  then show ?thesis by (simp add: noop_unit_def keeps_rel_def)
qed

lemma keeps_relD:
  assumes "keeps_rel R p rs f" "f (script_args p rs d inp m) (l, w) = (r, l', w')"
  shows "R (objects w) (objects w')"
proof -
  from assms(1) have "R (objects w) (objects (snd (snd (f (script_args p rs d inp m) (l, w)))))"
    unfolding keeps_rel_def by blast
  with assms(2) show ?thesis by simp
qed

lemma scriptFn_keeps_rel:
  assumes "reflp R" "toplevel_keeps_rel R p rs b"
  shows "R (objects w) (objects (snd (scriptFn msg b (script_args p rs d inp m) w))) \<and>
         (\<forall>v. fst (scriptFn msg b (script_args p rs d inp m) w) = Normal v \<longrightarrow>
              module_keeps_rel R p rs v)"
proof (cases "b (script_args p rs d inp m) w")
  case (Pair r w')
  from assms(2) have o: "R (objects w) (objects (snd (b (script_args p rs d inp m) w)))"
    and v: "\<forall>v. fst (b (script_args p rs d inp m) w) = Normal v \<longrightarrow> module_keeps_rel R p rs v"
    unfolding toplevel_keeps_rel_def by blast+
  show ?thesis
  proof (cases r)
    case (Normal x)
    with Pair o v show ?thesis by (simp add: scriptFn_def)
  next
    case (Throw e)
    with Pair o show ?thesis
      by (simp add: scriptFn_def console_log_simps noop_keeps_rel [OF assms(1)])
  qed
qed

lemma scripts_keep_relD:
  assumes "scripts_keep_rel R js p rs st"
  shows "sceneScript p \<noteq> [] \<Longrightarrow> js (sceneScript p) = Some b \<Longrightarrow> toplevel_keeps_rel R p rs b"
    and "i < length (modelScripts p) \<Longrightarrow> modelScripts p ! i = Some scr \<Longrightarrow> scr \<noteq> [] \<Longrightarrow>
           js scr = Some b \<Longrightarrow> toplevel_keeps_rel R p rs b"
    and "module_keeps_rel R p rs (module (sceneScriptRef st))"
    and "modelScriptsRef st j = Some en \<Longrightarrow> module_keeps_rel R p rs (module en)"
  using assms unfolding scripts_keep_rel_def by blast+

lemma scripts_keep_rel_cong:
  assumes "scripts_keep_rel R js p rs st" "sceneScriptRef st' = sceneScriptRef st"
    "modelScriptsRef st' = modelScriptsRef st"
  shows "scripts_keep_rel R js p rs st'"
  using assms unfolding scripts_keep_rel_def by simp

lemma scripts_keep_rel_world:
  "scripts_keep_rel R js p rs (st\<lparr>world := w\<rparr>) = scripts_keep_rel R js p rs st"
  by (simp add: scripts_keep_rel_def)

lemma scripts_keep_rel_scene:
  assumes "scripts_keep_rel R js p rs st" "module_keeps_rel R p rs v"
    "sceneScriptRef st' = (sceneScriptRef st)\<lparr>module := v\<rparr>"
    "modelScriptsRef st' = modelScriptsRef st"
  shows "scripts_keep_rel R js p rs st'"
  using assms unfolding scripts_keep_rel_def by simp

lemma scripts_keep_rel_model:
  assumes "scripts_keep_rel R js p rs st" "module_keeps_rel R p rs v"
    "sceneScriptRef st' = sceneScriptRef st"
    "\<forall>j. modelScriptsRef st' j = modelScriptsRef st j \<or>
        (\<exists>en. modelScriptsRef st' j = Some en \<and> module en = v)"
  shows "scripts_keep_rel R js p rs st'"
  unfolding scripts_keep_rel_def
proof (intro conjI allI impI)
  fix b assume "sceneScript p \<noteq> [] \<and> js (sceneScript p) = Some b"
  with assms(1) show "toplevel_keeps_rel R p rs b" unfolding scripts_keep_rel_def by blast
next
  fix i scr b
  assume "i < length (modelScripts p) \<and> modelScripts p ! i = Some scr \<and> scr \<noteq> [] \<and>
         js scr = Some b"
  with assms(1) show "toplevel_keeps_rel R p rs b" unfolding scripts_keep_rel_def by blast
next
  from assms(1,3) show "module_keeps_rel R p rs (module (sceneScriptRef st'))"
    by (simp add: scripts_keep_rel_def)
next
  fix j en assume e: "modelScriptsRef st' j = Some en"
  from assms(4) have "modelScriptsRef st' j = modelScriptsRef st j \<or>
        (\<exists>en. modelScriptsRef st' j = Some en \<and> module en = v)" by blast
  then show "module_keeps_rel R p rs (module en)"
  proof
    assume "modelScriptsRef st' j = modelScriptsRef st j"
    with e assms(1) show ?thesis by (simp add: scripts_keep_rel_def)
  next
    assume "\<exists>en. modelScriptsRef st' j = Some en \<and> module en = v"
    with e assms(2) show ?thesis by auto
  qed
qed

text \<open>The steps on the scene script.\<close>

lemma scene_module_init_keeps_rel:
  assumes rf: "reflp R" and k: "scripts_keep_rel R js p rs st" and ne: "sceneScript p \<noteq> []"
  shows "R (objects (world st)) (objects (world (snd (scene_module_init js p rs d st)))) \<and>
         scripts_keep_rel R js p rs (snd (scene_module_init js p rs d st))"
proof (cases "falsy (module (sceneScriptRef st))")
  case False
  with k rel_refl [OF rf] show ?thesis by (simp add: scene_module_init_cached)
next
  case True
  show ?thesis
  proof (cases "js (sceneScript p)")
    case None
    with True have "scene_module_init js p rs d st
        = (Throw SyntaxError, record_call (New_Function SceneSlot) st)"
      by (simp add: scene_module_init_syntax_error)
    with rel_refl [OF rf] show ?thesis
      by (simp add: record_call_simps scripts_keep_rel_cong [OF k])
  next
    case (Some b)
    from scripts_keep_relD(1) [OF k ne Some] have tk: "toplevel_keeps_rel R p rs b" .
    from scene_module_init_fresh [where js = js and p = p and b = b and st = st and rs = rs
      and d = d] True Some
    obtain v w' st' where i: "scriptFn Error_in_scene_script b
             (script_args p rs d (input st) None) (world st) = (Normal v, w')"
      "scene_module_init js p rs d st = (Normal (), st')"
      "module (sceneScriptRef st') = v" by blast
    from scriptFn_keeps_rel [OF rf tk, of "world st" Error_in_scene_script d "input st" None] i(1)
    have kk: "R (objects (world st)) (objects w')" "module_keeps_rel R p rs v" by simp_all
    from True Some i(1) have e: "st' = (record_call (Call_scriptFn SceneSlot)
            (record_call (New_Function SceneSlot) st))
         \<lparr>world := w', sceneScriptRef := (sceneScriptRef st)\<lparr>module := v\<rparr>\<rparr>"
      using i(2) by (simp add: scene_module_init_def Let_def record_call_simps)
    have "scripts_keep_rel R js p rs st'"
      by (rule scripts_keep_rel_scene [OF k kk(2)]) (simp_all add: e record_call_simps)
    with i(2) kk(1) e show ?thesis by simp
  qed
qed

lemma scene_module_update_keeps_rel:
  assumes rf: "reflp R" and k: "scripts_keep_rel R js p rs st"
  shows "R (objects (world st)) (objects (world (snd (scene_module_update p rs d st)))) \<and>
         scripts_keep_rel R js p rs (snd (scene_module_update p rs d st))"
proof (cases "\<exists>u. module (sceneScriptRef st) = JObject (Some u)")
  case False
  then have "snd (scene_module_update p rs d st) = st"
    by (cases "module (sceneScriptRef st)")
       (auto simp: scene_module_update_def split: option.splits)
  with k rel_refl [OF rf] show ?thesis by simp
next
  case True
  then obtain u where u: "module (sceneScriptRef st) = JObject (Some u)" by blast
  from scripts_keep_relD(3) [OF k] u have ku: "keeps_rel R p rs (update u)" by simp
  obtain r l w' where c: "update u (script_args p rs d (input st) None) (locals u, world st)
      = (r, l, w')" by (metis prod_cases3)
  from keeps_relD [OF ku c] have o: "R (objects (world st)) (objects w')" .
  have e: "snd (scene_module_update p rs d st)
    = (record_call (Call_update SceneSlot) st)
        \<lparr>world := (case r of Normal x \<Rightarrow> w'
                    | Throw e \<Rightarrow> console_log (Error_executing_scene_script_update e) w'),
         sceneScriptRef := (sceneScriptRef st)\<lparr>module := JObject (Some (u\<lparr>locals := l\<rparr>))\<rparr>\<rparr>"
    using u c by (simp add: scene_module_update_def Let_def record_call_simps)
  have kk: "module_keeps_rel R p rs (JObject (Some (u\<lparr>locals := l\<rparr>)))" using ku by simp
  have "scripts_keep_rel R js p rs (snd (scene_module_update p rs d st))"
    by (rule scripts_keep_rel_scene [OF k kk]) (simp_all add: e record_call_simps)
  moreover have "R (objects (world st)) (objects (world (snd (scene_module_update p rs d st))))"
    using o by (cases r) (simp_all add: e console_log_simps)
  ultimately show ?thesis by simp
qed

lemma execute_scene_script_keeps_rel:
  assumes rf: "reflp R" and tr: "transp R" and k: "scripts_keep_rel R js p rs st"
  shows "R (objects (world st)) (objects (world (snd (execute_scene_script js p rs d st)))) \<and>
         scripts_keep_rel R js p rs (snd (execute_scene_script js p rs d st))"
proof (cases "sceneScript p = []")
  case True
  with k rel_refl [OF rf] show ?thesis by (simp add: execute_scene_script_def)
next
  case False
  obtain r st' where i: "scene_module_init js p rs d st = (r, st')" by force
  from scene_module_init_keeps_rel [OF rf k False, of d] i
  have 1: "R (objects (world st)) (objects (world st'))" "scripts_keep_rel R js p rs st'"
    by simp_all
  from scene_module_update_keeps_rel [OF rf 1(2), of d]
  have 2: "R (objects (world st')) (objects (world (snd (scene_module_update p rs d st'))))"
    "scripts_keep_rel R js p rs (snd (scene_module_update p rs d st'))" by simp_all
  from rel_trans [OF tr] 1(1) 2(1)
  have 3: "R (objects (world st)) (objects (world (snd (scene_module_update p rs d st'))))"
    by blast
  from False i 1 2(2) 3 show ?thesis
    by (cases r) (simp_all add: execute_scene_script_def)
qed

text \<open>The steps on a model script.\<close>

lemma model_module_init_fresh_state:
  assumes "falsy (cached_module st i)" "js scr = Some b"
    and "scriptFn Error_in_model_script_body b
             (script_args p rs d (input st) (Some m)) (world st) = (Normal v, w')"
  shows "\<exists>st2. model_module_init js p rs d m i scr st
            = (Normal (), set_module i v (st2\<lparr>world := w'\<rparr>)) \<and>
          modelScriptsRef st2 i \<noteq> None \<and>
          (\<forall>j. j \<noteq> i \<longrightarrow> modelScriptsRef st2 j = modelScriptsRef st j) \<and>
          sceneScriptRef st2 = sceneScriptRef st"
proof -
  define st0 where "st0 = record_call (New_Function (EntitySlot i)) st"
  define st1 where "st1 = (case modelScriptsRef st0 i of
                       None \<Rightarrow> st0\<lparr>modelScriptsRef :=
                                    (modelScriptsRef st0)(i \<mapsto> \<lparr>script = scr, module = JNull\<rparr>)\<rparr>
                     | Some en \<Rightarrow> st0)"
  define st2 where "st2 = record_call (Call_scriptFn (EntitySlot i)) st1"
  have e: "modelScriptsRef st2 i \<noteq> None"
    by (simp add: st2_def st1_def record_call_simps split: option.splits)
  have o: "\<forall>j. j \<noteq> i \<longrightarrow> modelScriptsRef st2 j = modelScriptsRef st j"
    "sceneScriptRef st2 = sceneScriptRef st"
    by (simp_all add: st2_def st1_def st0_def record_call_simps split: option.splits)
  have w: "world st2 = world st" "input st2 = input st"
    by (simp_all add: st2_def st1_def st0_def record_call_simps split: option.splits)
  have "model_module_init js p rs d m i scr st = (Normal (), set_module i v (st2\<lparr>world := w'\<rparr>))"
    using assms w
    by (simp add: model_module_init_def Let_def st2_def [symmetric] st1_def [symmetric]
        st0_def [symmetric])
  with e o show ?thesis by blast
qed

lemma model_module_init_keeps_rel:
  assumes rf: "reflp R" and k: "scripts_keep_rel R js p rs st"
    and sc: "i < length (modelScripts p)" "modelScripts p ! i = Some scr" "scr \<noteq> []"
  shows "R (objects (world st)) (objects (world (snd (model_module_init js p rs d m i scr st)))) \<and>
         scripts_keep_rel R js p rs (snd (model_module_init js p rs d m i scr st))"
proof (cases "falsy (cached_module st i)")
  case False
  with k rel_refl [OF rf] show ?thesis by (simp add: model_module_init_cached)
next
  case True
  show ?thesis
  proof (cases "js scr")
    case None
    with True have "model_module_init js p rs d m i scr st
        = (Throw SyntaxError, record_call (New_Function (EntitySlot i)) st)"
      by (simp add: model_module_init_syntax_error)
    with rel_refl [OF rf] show ?thesis
      by (simp add: record_call_simps scripts_keep_rel_cong [OF k])
  next
    case (Some b)
    from scripts_keep_relD(2) [OF k sc Some] have tk: "toplevel_keeps_rel R p rs b" .
    obtain v w' where s: "scriptFn Error_in_model_script_body b
             (script_args p rs d (input st) (Some m)) (world st) = (Normal v, w')"
      using scriptFn_Normal by blast
    from scriptFn_keeps_rel [OF rf tk, of "world st" Error_in_model_script_body d "input st" "Some m"] s
    have kk: "R (objects (world st)) (objects w')" "module_keeps_rel R p rs v" by simp_all
    from model_module_init_fresh_state [where js = js and scr = scr and b = b and st = st
        and i = i and p = p and rs = rs and d = d and m = m and v = v and w' = w'] True Some s
    obtain st2 where i: "model_module_init js p rs d m i scr st
            = (Normal (), set_module i v (st2\<lparr>world := w'\<rparr>))"
      "modelScriptsRef st2 i \<noteq> None"
      "\<forall>j. j \<noteq> i \<longrightarrow> modelScriptsRef st2 j = modelScriptsRef st j"
      "sceneScriptRef st2 = sceneScriptRef st" by blast
    let ?st' = "set_module i v (st2\<lparr>world := w'\<rparr>)"
    have a: "\<forall>j. modelScriptsRef ?st' j = modelScriptsRef st j \<or>
        (\<exists>en. modelScriptsRef ?st' j = Some en \<and> module en = v)"
      using i(2,3) by (auto simp: set_module_at)
    have "scripts_keep_rel R js p rs ?st'"
      by (rule scripts_keep_rel_model [OF k kk(2) _ a]) (simp add: set_module_simps i(4))
    with i(1) kk(1) show ?thesis by (simp add: set_module_simps)
  qed
qed

lemma model_module_update_keeps_rel:
  assumes rf: "reflp R" and k: "scripts_keep_rel R js p rs st"
  shows "R (objects (world st)) (objects (world (snd (model_module_update p rs d m i st)))) \<and>
         scripts_keep_rel R js p rs (snd (model_module_update p rs d m i st))"
proof (cases "\<exists>u. cached_module st i = JObject (Some u)")
  case False
  then have "snd (model_module_update p rs d m i st) = st"
    by (cases "cached_module st i")
       (auto simp: model_module_update_def split: option.splits)
  with k rel_refl [OF rf] show ?thesis by simp
next
  case True
  then obtain u where u: "cached_module st i = JObject (Some u)" by blast
  then obtain en where en: "modelScriptsRef st i = Some en" "module en = JObject (Some u)"
    using cached_module_JObject by blast
  from scripts_keep_relD(4) [OF k en(1)] en(2) have ku: "keeps_rel R p rs (update u)"
    by simp
  obtain r l w' where c: "update u (script_args p rs d (input st) (Some m)) (locals u, world st)
      = (r, l, w')" by (metis prod_cases3)
  from keeps_relD [OF ku c] have o: "R (objects (world st)) (objects w')" .
  let ?v = "JObject (Some (u\<lparr>locals := l\<rparr>))"
  let ?w = "case r of Normal x \<Rightarrow> w'
                    | Throw e \<Rightarrow> console_log (Error_executing_model_script_update i e) w'"
  have e: "snd (model_module_update p rs d m i st)
    = set_module i ?v ((record_call (Call_update (EntitySlot i)) st)\<lparr>world := ?w\<rparr>)"
    using u c by (simp add: model_module_update_def Let_def record_call_simps)
  have kk: "module_keeps_rel R p rs ?v" using ku by simp
  have a: "\<forall>j. modelScriptsRef (snd (model_module_update p rs d m i st)) j = modelScriptsRef st j \<or>
        (\<exists>en. modelScriptsRef (snd (model_module_update p rs d m i st)) j = Some en \<and> module en = ?v)"
    using en(1) by (auto simp: e set_module_at record_call_simps)
  have "scripts_keep_rel R js p rs (snd (model_module_update p rs d m i st))"
    by (rule scripts_keep_rel_model [OF k kk _ a]) (simp add: e set_module_simps record_call_simps)
  moreover have "R (objects (world st)) (objects (world (snd (model_module_update p rs d m i st))))"
    using o by (cases r) (simp_all add: e set_module_simps console_log_simps)
  ultimately show ?thesis by simp
qed

lemma execute_model_script_keeps_rel:
  assumes rf: "reflp R" and tr: "transp R" and k: "scripts_keep_rel R js p rs st"
  shows "R (objects (world st)) (objects (world (execute_model_script js p rs d m i st))) \<and>
         scripts_keep_rel R js p rs (execute_model_script js p rs d m i st)"
proof (cases "if i < length (modelScripts p) then modelScripts p ! i else None")
  case None
  with k rel_refl [OF rf] show ?thesis by (simp add: execute_model_script_def)
next
  case (Some scr)
  show ?thesis
  proof (cases "scr = []")
    case True
    with Some k rel_refl [OF rf] show ?thesis by (simp add: execute_model_script_def)
  next
    case False
    from Some have sc: "i < length (modelScripts p)" "modelScripts p ! i = Some scr"
      by (simp_all split: if_splits)
    obtain r st' where i: "model_module_init js p rs d m i scr st = (r, st')" by force
    from model_module_init_keeps_rel [OF rf k sc False, of d m] i
    have 1: "R (objects (world st)) (objects (world st'))" "scripts_keep_rel R js p rs st'"
      by simp_all
    obtain r2 st2 where u: "model_module_update p rs d m i st' = (r2, st2)" by force
    from model_module_update_keeps_rel [OF rf 1(2), of d m i] u
    have 2: "R (objects (world st')) (objects (world st2))" "scripts_keep_rel R js p rs st2"
      by simp_all
    from rel_trans [OF tr] 1(1) 2(1) have 3: "R (objects (world st)) (objects (world st2))"
      by blast
    from Some False i u 1 2(2) 3 show ?thesis
      by (cases r; cases r2)
         (simp_all add: execute_model_script_def console_log_simps scripts_keep_rel_world)
  qed
qed

lemma forEach_model_keeps_rel:
  assumes rf: "reflp R" and tr: "transp R" and k: "scripts_keep_rel R js p rs st"
  shows "R (objects (world st))
           (objects (world (forEach_model (execute_model_script js p rs d) n ms st))) \<and>
         scripts_keep_rel R js p rs (forEach_model (execute_model_script js p rs d) n ms st)"
  using k
proof (induction ms arbitrary: n st)
  case Nil
  with rel_refl [OF rf] show ?case by simp
next
  case (Cons m ms)
  from execute_model_script_keeps_rel [OF rf tr Cons.prems, of d m n]
  have 1: "R (objects (world st)) (objects (world (execute_model_script js p rs d m n st)))"
    "scripts_keep_rel R js p rs (execute_model_script js p rs d m n st)" by simp_all
  from Cons.IH [OF 1(2), of "Suc n"]
  have 2: "R (objects (world (execute_model_script js p rs d m n st)))
      (objects (world (forEach_model (execute_model_script js p rs d) (Suc n) ms
          (execute_model_script js p rs d m n st))))"
    "scripts_keep_rel R js p rs (forEach_model (execute_model_script js p rs d) (Suc n) ms
          (execute_model_script js p rs d m n st))" by simp_all
  from rel_trans [OF tr] 1(1) 2(1)
  have "R (objects (world st))
      (objects (world (forEach_model (execute_model_script js p rs d) (Suc n) ms
          (execute_model_script js p rs d m n st))))" by blast
  with 2(2) show ?case by simp
qed

lemma mixer_step_keeps_rel:
  assumes rf: "reflp R" and k: "scripts_keep_rel R js p rs st"
  shows "R (objects (world st))
           (objects (world (if mixer p then record_call (Mixer_update d) st else st)))"
    and "scripts_keep_rel R js p rs (if mixer p then record_call (Mixer_update d) st else st)"
proof -
  show "R (objects (world st))
           (objects (world (if mixer p then record_call (Mixer_update d) st else st)))"
    using rel_refl [OF rf] by (simp add: record_call_simps)
  show "scripts_keep_rel R js p rs (if mixer p then record_call (Mixer_update d) st else st)"
    by (rule scripts_keep_rel_cong [OF k]) (simp_all add: record_call_simps)
qed

lemma before_model_keeps_rel:
  assumes rf: "reflp R" and tr: "transp R" and k: "scripts_keep_rel R js p rs st"
  shows "R (objects (world st)) (objects (world (before_model js p rs d j st))) \<and>
         scripts_keep_rel R js p rs (before_model js p rs d j st)"
proof -
  define st0 where "st0 = (if mixer p then record_call (Mixer_update d) st else st)"
  from mixer_step_keeps_rel [OF rf k, of d]
  have 0: "R (objects (world st)) (objects (world st0))" "scripts_keep_rel R js p rs st0"
    by (simp_all add: st0_def)
  define sta where "sta = snd (execute_scene_script js p rs d st0)"
  from execute_scene_script_keeps_rel [OF rf tr 0(2), of d]
  have 1: "R (objects (world st0)) (objects (world sta))" "scripts_keep_rel R js p rs sta"
    by (simp_all add: sta_def)
  from forEach_model_keeps_rel [OF rf tr 1(2), of d 0 "take j (uploadedModels p)"]
  have 2: "R (objects (world sta)) (objects (world (before_model js p rs d j st)))"
    "scripts_keep_rel R js p rs (before_model js p rs d j st)"
    by (simp_all add: before_model_def sta_def st0_def)
  from rel_trans [OF tr] 0(1) 1(1) 2(1)
  have "R (objects (world st)) (objects (world (before_model js p rs d j st)))" by blast
  with 2(2) show ?thesis by simp
qed

lemma useFrame_keeps_rel:
  assumes rf: "reflp R" and tr: "transp R" and k: "scripts_keep_rel R js p rs st"
  shows "R (objects (world st)) (objects (world (useFrame js p rs d st))) \<and>
         scripts_keep_rel R js p rs (useFrame js p rs d st)"
proof -
  define st0 where "st0 = (if mixer p then record_call (Mixer_update d) st else st)"
  from mixer_step_keeps_rel [OF rf k, of d]
  have 0: "R (objects (world st)) (objects (world st0))" "scripts_keep_rel R js p rs st0"
    by (simp_all add: st0_def)
  show ?thesis
  proof (cases "isEditMode p")
    case True
    with 0 show ?thesis by (simp add: useFrame_def st0_def)
  next
    case False
    obtain r sta where sc: "execute_scene_script js p rs d st0 = (r, sta)" by force
    from execute_scene_script_keeps_rel [OF rf tr 0(2), of d] sc
    have 1: "R (objects (world st0)) (objects (world sta))" "scripts_keep_rel R js p rs sta"
      by simp_all
    from rel_trans [OF tr] 0(1) 1(1) have 2: "R (objects (world st)) (objects (world sta))"
      by blast
    show ?thesis
    proof (cases r)
      case (Throw e)
      have "useFrame js p rs d st
          = sta\<lparr>world := console_log (Error_in_script_execution e) (world sta)\<rparr>"
        using sc False Throw by (simp add: useFrame_def st0_def)
      with 1(2) 2 show ?thesis by (simp add: console_log_simps scripts_keep_rel_world)
    next
      case (Normal x)
      have u: "useFrame js p rs d st
          = forEach_model (execute_model_script js p rs d) 0 (uploadedModels p) sta"
        using sc False Normal by (simp add: useFrame_def st0_def)
      from forEach_model_keeps_rel [OF rf tr 1(2), of d 0 "uploadedModels p"]
      have 3: "R (objects (world sta))
          (objects (world (forEach_model (execute_model_script js p rs d) 0 (uploadedModels p) sta)))"
        "scripts_keep_rel R js p rs
          (forEach_model (execute_model_script js p rs d) 0 (uploadedModels p) sta)"
        by simp_all
      from rel_trans [OF tr] 2 3(1)
      have "R (objects (world st))
          (objects (world (forEach_model (execute_model_script js p rs d) 0 (uploadedModels p) sta)))"
        by blast
      with 3(2) u show ?thesis by simp
    qed
  qed
qed

lemma frames_keeps_rel:
  assumes rf: "reflp R" and tr: "transp R" and k: "scripts_keep_rel R js p rs st"
  shows "R (objects (world st)) (objects (world (frames js p rs ds st))) \<and>
         scripts_keep_rel R js p rs (frames js p rs ds st)"
  using k
proof (induction ds arbitrary: st)
  case Nil
  with rel_refl [OF rf] show ?case by simp
next
  case (Cons d ds)
  from useFrame_keeps_rel [OF rf tr Cons.prems, of d]
  have 1: "R (objects (world st)) (objects (world (useFrame js p rs d st)))"
    "scripts_keep_rel R js p rs (useFrame js p rs d st)" by simp_all
  from Cons.IH [OF 1(2)]
  have 2: "R (objects (world (useFrame js p rs d st)))
      (objects (world (frames js p rs ds (useFrame js p rs d st))))"
    "scripts_keep_rel R js p rs (frames js p rs ds (useFrame js p rs d st))" by simp_all
  from rel_trans [OF tr] 1(1) 2(1)
  have "R (objects (world st))
      (objects (world (frames js p rs ds (useFrame js p rs d st))))" by blast
  with 2(2) show ?case by simp
qed

subsection \<open>Playing and stopping animations\<close>

lemma find_Some_name: "find (\<lambda>c. clip_name c = a) xs = Some c \<Longrightarrow> clip_name c = a"
  by (auto simp: find_Some_iff)

lemma stop_play:
  "playing (play_action c t (stopAllAction w)) = [(c, t)]"
  "objects (play_action c t (stopAllAction w)) = objects w"
  by (simp_all add: play_action_def stopAllAction_def)

lemma handlePlayAnimation_facts:
  "fst (handlePlayAnimation act mx m a w) = Normal () \<and>
   objects (snd (handlePlayAnimation act mx m a w)) = objects w \<and>
   (playing (snd (handlePlayAnimation act mx m a w)) = playing w \<or>
    (\<exists>c t. playing (snd (handlePlayAnimation act mx m a w)) = [(c, t)] \<and> clip_name c = a))"
  by (auto simp: handlePlayAnimation_def console_log_simps stop_play
      split: option.splits dest: find_Some_name)

lemma targetModel_objects: "objects w' = objects w \<Longrightarrow> targetModel p m w' = targetModel p m w"
  by (simp add: targetModel_def split: option.splits)

lemma playAnimation_facts:
  assumes "rendered_by_Engine p"
  shows "objects (snd (playAnimation p m a w)) = objects w \<and>
   (playing (snd (playAnimation p m a w)) = playing w \<or>
    (\<exists>c t. playing (snd (playAnimation p m a w)) = [(c, t)] \<and> clip_name c = a))"
proof -
  from assms have cb: "onPlayAnimation p = Some (handlePlayAnimation (activeModel p) (mixer p))"
    by (simp add: rendered_by_Engine_def)
  have h: "objects (snd (handlePlayAnimation act mx m a w1)) = objects w1 \<and>
   (playing (snd (handlePlayAnimation act mx m a w1)) = playing w1 \<or>
    (\<exists>c t. playing (snd (handlePlayAnimation act mx m a w1)) = [(c, t)] \<and> clip_name c = a))"
    for act mx w1 using handlePlayAnimation_facts [of act mx m a w1] by simp
  show ?thesis
  proof (cases "\<exists>t anims c. mixer p \<and> targetModel p m w = Some t \<and>
      animations (objects w t) = Some anims \<and> find (\<lambda>c. clip_name c = a) anims = Some c")
    case False
    then show ?thesis
      by (auto simp: playAnimation_def console_log_simps split: option.splits)
  next
    case True
    then obtain t anims c where f: "mixer p" "targetModel p m w = Some t"
      "animations (objects w t) = Some anims" "find (\<lambda>c. clip_name c = a) anims = Some c"
      by blast
    from f(4) have ne: "anims \<noteq> []" by auto
    let ?w3 = "play_action c t (stopAllAction (console_log (Playing_animation_for_model a m) w))"
    from f ne cb have e: "playAnimation p m a w
        = handlePlayAnimation (activeModel p) (mixer p) m a ?w3"
      by (simp add: playAnimation_def Let_def)
    have 3: "playing ?w3 = [(c, t)]" "objects ?w3 = objects w"
      by (simp_all add: stop_play console_log_simps)
    from find_Some_name [OF f(4)] have n: "clip_name c = a" .
    from h [of "activeModel p" "mixer p" ?w3] 3 n e show ?thesis by auto
  qed
qed

lemma playAnimation_found:
  assumes "rendered_by_Engine p" "mixer p" "targetModel p m w = Some t"
    and "animations (objects w t) = Some anims" "find (\<lambda>c. clip_name c = a) anims = Some c"
  shows "fst (playAnimation p m a w) = Normal () \<and>
     (\<exists>c' t'. playing (snd (playAnimation p m a w)) = [(c', t')] \<and> clip_name c' = a)"
proof -
  from assms(1) have cb: "onPlayAnimation p = Some (handlePlayAnimation (activeModel p) (mixer p))"
    by (simp add: rendered_by_Engine_def)
  from assms(5) have ne: "anims \<noteq> []" by auto
  let ?w3 = "play_action c t (stopAllAction (console_log (Playing_animation_for_model a m) w))"
  from assms ne cb have e: "playAnimation p m a w
        = handlePlayAnimation (activeModel p) (mixer p) m a ?w3"
    by (simp add: playAnimation_def Let_def)
  have 3: "playing ?w3 = [(c, t)]" by (simp add: stop_play)
  from find_Some_name [OF assms(5)] have n: "clip_name c = a" .
  from handlePlayAnimation_facts [of "activeModel p" "mixer p" m a ?w3] 3 n e
  show ?thesis by auto
qed

lemma stopAnimation_facts:
  assumes "rendered_by_Engine p"
  shows "objects (snd (stopAnimation p m w)) = objects w \<and>
    (mixer p \<longrightarrow> playing (snd (stopAnimation p m w)) = [])"
  using assms
  by (simp add: rendered_by_Engine_def stopAnimation_def handleStopAnimation_def
      stopAllAction_def Let_def)

lemma active_clip_objects: "objects w' = objects w \<Longrightarrow> active_clip p a w' = active_clip p a w"
  by (simp add: active_clip_def split: option.splits)

lemma handlePlayAnimation_playing:
  "playing (snd (handlePlayAnimation (activeModel p) True m a w))
     = (case active_clip p a w of None \<Rightarrow> playing w | Some y \<Rightarrow> [y])"
  by (simp add: handlePlayAnimation_def active_clip_def console_log_simps stop_play
      split: option.splits)

lemma requested_clip_SomeD:
  assumes "requested_clip p m a w = Some x"
  shows "\<exists>t anims c. mixer p \<and> targetModel p m w = Some t \<and>
      animations (objects w t) = Some anims \<and> find (\<lambda>c. clip_name c = a) anims = Some c \<and>
      x = (c, t)"
  using assms by (auto simp: requested_clip_def split: if_splits option.splits)

lemma playAnimation_not_requested:
  assumes "rendered_by_Engine p" "requested_clip p m a w = None"
  shows "playing (snd (playAnimation p m a w)) = playing w"
  using assms(2)
  by (auto simp: playAnimation_def requested_clip_def console_log_simps
      split: if_splits option.splits)

lemma playAnimation_requested:
  assumes "rendered_by_Engine p" "requested_clip p m a w = Some x"
  shows "fst (playAnimation p m a w) = Normal () \<and>
     playing (snd (playAnimation p m a w))
       = (case active_clip p a w of None \<Rightarrow> [x] | Some y \<Rightarrow> [y])"
proof -
  from requested_clip_SomeD [OF assms(2)]
  obtain t anims c where f: "mixer p" "targetModel p m w = Some t"
      "animations (objects w t) = Some anims" "find (\<lambda>c. clip_name c = a) anims = Some c"
      "x = (c, t)" by blast
  from assms(1) have cb: "onPlayAnimation p = Some (handlePlayAnimation (activeModel p) (mixer p))"
    by (simp add: rendered_by_Engine_def)
  from f(4) have ne: "anims \<noteq> []" by auto
  let ?w3 = "play_action c t (stopAllAction (console_log (Playing_animation_for_model a m) w))"
  from f ne cb have e: "playAnimation p m a w
        = handlePlayAnimation (activeModel p) True m a ?w3"
    by (simp add: playAnimation_def Let_def)
  have 3: "playing ?w3 = [(c, t)]" "objects ?w3 = objects w"
    by (simp_all add: stop_play console_log_simps)
  from active_clip_objects [OF 3(2), of p a]
  have ac: "active_clip p a ?w3 = active_clip p a w" .
  from handlePlayAnimation_facts [of "activeModel p" True m a ?w3] e
  have "fst (playAnimation p m a w) = Normal ()" by simp
  moreover from handlePlayAnimation_playing [of p m a ?w3] e 3(1) ac f(5)
  have "playing (snd (playAnimation p m a w))
       = (case active_clip p a w of None \<Rightarrow> [x] | Some y \<Rightarrow> [y])"
    by (cases "active_clip p a w") simp_all
  ultimately show ?thesis by simp
qed

subsection \<open>The step of a model slot within a frame\<close>

lemma forEach_model_append:
  "forEach_model f n (xs @ ys) st = forEach_model f (n + length xs) ys (forEach_model f n xs st)"
  by (induction xs arbitrary: n st) simp_all

lemma forEach_model_no_script:
  assumes "\<forall>k. n \<le> k \<and> k < n + length ms \<longrightarrow>
      (if k < length (modelScripts p) then modelScripts p ! k else None) = None \<or>
      (if k < length (modelScripts p) then modelScripts p ! k else None) = Some []"
  shows "forEach_model (execute_model_script js p rs d) n ms st = st"
  using assms
proof (induction ms arbitrary: n st)
  case Nil
  then show ?case by simp
next
  case (Cons m ms)
  from Cons.prems have "(if n < length (modelScripts p) then modelScripts p ! n else None) = None \<or>
      (if n < length (modelScripts p) then modelScripts p ! n else None) = Some []"
    by simp
  then have 1: "execute_model_script js p rs d m n st = st"
    by (rule execute_model_script_no_script)
  from Cons.prems have "\<forall>k. Suc n \<le> k \<and> k < Suc n + length ms \<longrightarrow>
      (if k < length (modelScripts p) then modelScripts p ! k else None) = None \<or>
      (if k < length (modelScripts p) then modelScripts p ! k else None) = Some []"
    by simp
  from Cons.IH [OF this] 1 show ?case by simp
qed

lemma slot_script_None:
  assumes "slot_script p (EntitySlot k) = None" "k < length (uploadedModels p)"
  shows "(if k < length (modelScripts p) then modelScripts p ! k else None) = None \<or>
      (if k < length (modelScripts p) then modelScripts p ! k else None) = Some []"
  using assms by (auto split: if_splits option.splits)

lemma forEach_model_later_no_script:
  assumes "\<forall>k. j < k \<longrightarrow> slot_script p (EntitySlot k) = None"
  shows "forEach_model (execute_model_script js p rs d) (Suc j) (drop (Suc j) (uploadedModels p)) st
           = st"
proof (rule forEach_model_no_script, intro allI impI)
  fix k assume k: "Suc j \<le> k \<and> k < Suc j + length (drop (Suc j) (uploadedModels p))"
  with assms have "slot_script p (EntitySlot k) = None" by simp
  moreover from k have "k < length (uploadedModels p)" by (simp add: Suc_le_eq) arith
  ultimately show "(if k < length (modelScripts p) then modelScripts p ! k else None) = None \<or>
      (if k < length (modelScripts p) then modelScripts p ! k else None) = Some []"
    by (rule slot_script_None)
qed

lemma useFrame_at_model:
  assumes run: "\<not> isEditMode p" and safe: "scene_safe js p st"
    and j: "j < length (uploadedModels p)"
  shows "useFrame js p rs d st
     = forEach_model (execute_model_script js p rs d) (Suc j) (drop (Suc j) (uploadedModels p))
         (execute_model_script js p rs d (uploadedModels p ! j) j (before_model js p rs d j st))"
proof -
  define st0 where "st0 = (if mixer p then record_call (Mixer_update d) st else st)"
  define ms where "ms = uploadedModels p"
  have f0: "foreign SceneSlot st st0"
    by (simp add: st0_def foreign_record_call foreign_refl)
  from safe scene_safe_foreign [OF f0] have "scene_safe js p st0" by simp
  from execute_scene_script_safe [OF this, where rs = rs and d = d]
  obtain sta where sc: "execute_scene_script js p rs d st0 = (Normal (), sta)" by blast
  from sc run have u: "useFrame js p rs d st
      = forEach_model (execute_model_script js p rs d) 0 ms sta"
    by (simp add: useFrame_def st0_def ms_def)
  from sc have b: "before_model js p rs d j st
      = forEach_model (execute_model_script js p rs d) 0 (take j ms) sta"
    by (simp add: before_model_def st0_def ms_def)
  from j have l: "length (take j ms) = j" by (simp add: ms_def)
  from j have "take j ms @ ms ! j # drop (Suc j) ms = ms"
    by (simp add: ms_def id_take_nth_drop [symmetric])
  then have "forEach_model (execute_model_script js p rs d) 0 ms sta
      = forEach_model (execute_model_script js p rs d) 0 (take j ms @ ms ! j # drop (Suc j) ms) sta"
    by simp
  also have "\<dots> = forEach_model (execute_model_script js p rs d) (Suc j) (drop (Suc j) ms)
         (execute_model_script js p rs d (ms ! j) j
            (forEach_model (execute_model_script js p rs d) 0 (take j ms) sta))"
    unfolding forEach_model_append using l by simp
  finally show ?thesis using u b by (simp add: ms_def)
qed

lemma before_model_foreign: "foreign (EntitySlot j) st (before_model js p rs d j st)"
proof -
  define st0 where "st0 = (if mixer p then record_call (Mixer_update d) st else st)"
  have f0: "foreign (EntitySlot j) st st0"
    by (simp add: st0_def foreign_record_call foreign_refl)
  have f1: "foreign (EntitySlot j) st0 (snd (execute_scene_script js p rs d st0))"
    by (rule execute_scene_script_foreign)
  have f2: "foreign (EntitySlot j) (snd (execute_scene_script js p rs d st0))
      (forEach_model (execute_model_script js p rs d) 0 (take j (uploadedModels p))
         (snd (execute_scene_script js p rs d st0)))"
    by (rule forEach_model_foreign) simp
  from foreign_trans [OF foreign_trans [OF f0 f1] f2] show ?thesis
    by (simp add: before_model_def st0_def)
qed

lemma before_model_entry:
  "modelScriptsRef (before_model js p rs d j st) j = modelScriptsRef st j"
  using before_model_foreign [of j st js p rs d] by (simp add: foreign_def)

lemma forEach_model_input:
  "input (forEach_model (execute_model_script js p rs d) n ms st) = input st"
  by (induction ms arbitrary: n st) (simp_all add: execute_model_script_frame)

lemma before_model_input: "input (before_model js p rs d j st) = input st"
  by (simp add: before_model_def forEach_model_input execute_scene_script_frame record_call_simps)

lemma execute_model_script_ready_world:
  assumes "i < length (modelScripts p)" "modelScripts p ! i = Some scr" "scr \<noteq> []"
    and "modelScriptsRef st i = Some en" "module en = JObject (Some u)"
    and "update u (script_args p rs d (input st) (Some m)) (locals u, world st) = (r, l, w')"
  shows "world (execute_model_script js p rs d m i st)
     = (case r of Normal x \<Rightarrow> w'
        | Throw e \<Rightarrow> console_log (Error_executing_model_script_update i e) w')"
proof -
  from assms(4,5) have t: "\<not> falsy (cached_module st i)" "cached_module st i = JObject (Some u)"
    by (simp_all add: cached_module_def)
  from assms t show ?thesis
    by (simp add: execute_model_script_def model_module_init_cached model_module_update_def
        Let_def record_call_simps set_module_simps)
qed

lemma last_script_plays:
  assumes run: "\<not> isEditMode p" and eng: "rendered_by_Engine p"
    and safe: "scene_safe js p st"
    and later: "\<forall>k. j < k \<longrightarrow> slot_script p (EntitySlot k) = None"
    and scr: "slot_script p (EntitySlot j) = Some sb"
    and en: "modelScriptsRef st j = Some enb" "module enb = JObject (Some ub)"
      "update ub = play_update nb cb"
    and req: "requested_clip p nb cb (world (before_model js p rs d j st)) = Some x"
  shows "playing (world (useFrame js p rs d st))
     = (case active_clip p cb (world (before_model js p rs d j st)) of
          None \<Rightarrow> [x] | Some y \<Rightarrow> [y])"
proof -
  define stj where "stj = before_model js p rs d j st"
  define stk where "stk = execute_model_script js p rs d (uploadedModels p ! j) j stj"
  from scr have a: "j < length (uploadedModels p)" "j < length (modelScripts p)"
    "modelScripts p ! j = Some sb" "sb \<noteq> []"
    by (auto split: if_splits option.splits)
  from useFrame_at_model [OF run safe a(1), of rs d]
    forEach_model_later_no_script [OF later, of js rs d stk]
  have u: "useFrame js p rs d st = stk" by (simp add: stk_def stj_def)
  from en(1) have ej: "modelScriptsRef stj j = Some enb"
    by (simp add: stj_def before_model_entry)
  define w' where "w' = snd (playAnimation p nb cb (world stj))"
  from playAnimation_requested [OF eng, of nb cb "world stj" x] req
  have pl: "playAnimation p nb cb (world stj) = (Normal (), w')"
    "playing w' = (case active_clip p cb (world stj) of None \<Rightarrow> [x] | Some y \<Rightarrow> [y])"
    unfolding w'_def stj_def by (cases "playAnimation p nb cb (world (before_model js p rs d j st))"; simp)+
  have "update ub (script_args p rs d (input stj) (Some (uploadedModels p ! j))) (locals ub, world stj)
      = (Normal (), locals ub, w')"
    using pl(1) by (simp add: en(3) play_update_def script_args_def)
  from execute_model_script_ready_world [OF a(2,3,4) ej en(2) this, of js]
  have "world stk = w'" by (simp add: stk_def)
  with u pl(2) show ?thesis by (simp add: stj_def)
qed

lemma duel_props_simps:
  "mixer duel_props" "\<not> isEditMode duel_props" "activeModel duel_props = None"
  "modelScripts duel_props = [Some walk_script, Some run_script]"
  "sceneScript duel_props = hud_script" "uploadedModels duel_props = [1, 2]"
  "modelNames duel_props = [''hero.glb'', ''enemy.glb'']"
  "onPlayAnimation duel_props = Some (handlePlayAnimation None True)"
  "onStopAnimation duel_props = Some (handleStopAnimation True)"
  by (simp_all add: duel_props_def demo_props_def)

lemma duel_state_simps:
  "sceneScriptRef duel_state
     = \<lparr>script = hud_script, module = JObject (Some \<lparr>locals = Map.empty, update = hud_update\<rparr>)\<rparr>"
  "modelScriptsRef duel_state 0
     = Some \<lparr>script = walk_script,
             module = JObject (Some \<lparr>locals = Map.empty,
                                     update = play_update ''hero.glb'' ''walk''\<rparr>)\<rparr>"
  "modelScriptsRef duel_state (Suc 0)
     = Some \<lparr>script = run_script,
             module = JObject (Some \<lparr>locals = Map.empty,
                                     update = play_update ''enemy.glb'' ''run''\<rparr>)\<rparr>"
  "input duel_state = demo_input" "world duel_state = demo_world" "calls duel_state = []"
  by (simp_all add: duel_state_def)

lemma duel_rendered_by_Engine: "rendered_by_Engine duel_props"
  by (simp add: rendered_by_Engine_def duel_props_simps)

lemma selected_props_simps:
  "mixer selected_props" "\<not> isEditMode selected_props" "activeModel selected_props = Some 1"
  "modelScripts selected_props = [Some idle_script, Some enemy_walk_script]"
  "sceneScript selected_props = hud_script" "uploadedModels selected_props = [1, 2]"
  "modelNames selected_props = [''hero.glb'', ''enemy.glb'']"
  "onPlayAnimation selected_props = Some (handlePlayAnimation (Some 1) True)"
  "onStopAnimation selected_props = Some (handleStopAnimation True)"
  by (simp_all add: selected_props_def demo_props_def)

lemma selected_state_simps:
  "sceneScriptRef selected_state
     = \<lparr>script = hud_script, module = JObject (Some \<lparr>locals = Map.empty, update = hud_update\<rparr>)\<rparr>"
  "modelScriptsRef selected_state 0
     = Some \<lparr>script = idle_script,
             module = JObject (Some \<lparr>locals = Map.empty,
                                     update = play_update ''hero.glb'' ''idle''\<rparr>)\<rparr>"
  "modelScriptsRef selected_state (Suc 0)
     = Some \<lparr>script = enemy_walk_script,
             module = JObject (Some \<lparr>locals = Map.empty,
                                     update = play_update ''enemy.glb'' ''walk''\<rparr>)\<rparr>"
  "input selected_state = demo_input" "world selected_state = demo_world"
  "calls selected_state = []"
  by (simp_all add: selected_state_def)

lemma selected_rendered_by_Engine: "rendered_by_Engine selected_props"
  by (simp add: rendered_by_Engine_def selected_props_simps)

lemma more_script_nonempty: "idle_script \<noteq> []" "enemy_walk_script \<noteq> []"
  by (simp_all add: idle_script_def enemy_walk_script_def)

subsection \<open>What the driver and the cache do to the objects\<close>

lemma clear_overlay_objects: "objects (clear_overlay w) = objects w"
  by (simp add: clear_overlay_def split: option.splits)

lemma commit_objects: "objects (world (commit p p' st)) = objects (world st)"
  by (simp add: commit_def Scene_effect_world clear_overlay_objects)

lemma commit_model_text_changed:
  assumes "modelScripts p' \<noteq> modelScripts p" "i < length (modelScripts p')"
    "modelScripts p' ! i = Some scr" "modelScriptsRef st i = Some en" "script en \<noteq> scr"
  shows "modelScriptsRef (commit p p' st) i = Some \<lparr>script = scr, module = JNull\<rparr>"
  using assms by (simp add: commit_def Scene_effect_models reset_entry_def)

lemma commit_scene_text_changed:
  assumes "sceneScript p' \<noteq> sceneScript p" "script (sceneScriptRef st) = sceneScript p"
  shows "sceneScriptRef (commit p p' st) = \<lparr>script = sceneScript p', module = JNull\<rparr>"
  using assms by (auto simp: commit_def Scene_effect_scene)

lemma execute_model_script_fresh_world:
  assumes "i < length (modelScripts p)" "modelScripts p ! i = Some scr" "scr \<noteq> []"
    and "modelScriptsRef st i = Some en" "falsy (module en)" "js scr = Some b"
    and "b (script_args p rs d (input st) (Some m)) (world st) = (Normal (JObject (Some u)), wa)"
    and "update u (script_args p rs d (input st) (Some m)) (locals u, wa) = (r, l, wb)"
  shows "world (execute_model_script js p rs d m i st)
           = (case r of Normal x \<Rightarrow> wb
              | Throw e \<Rightarrow> console_log (Error_executing_model_script_update i e) wb) \<and>
         modelScriptsRef (execute_model_script js p rs d m i st) i
           = Some (en\<lparr>module := JObject (Some (u\<lparr>locals := l\<rparr>))\<rparr>)"
proof -
  from assms(4,5) have f: "falsy (cached_module st i)" by (simp add: cached_module_def)
  have s: "scriptFn Error_in_model_script_body b
             (script_args p rs d (input st) (Some m)) (world st) = (Normal (JObject (Some u)), wa)"
    using assms(7) by (simp add: scriptFn_def)
  let ?st1 = "record_call (Call_scriptFn (EntitySlot i)) (record_call (New_Function (EntitySlot i)) st)"
  let ?st2 = "set_module i (JObject (Some u)) (?st1\<lparr>world := wa\<rparr>)"
  have i: "model_module_init js p rs d m i scr st = (Normal (), ?st2)"
    using f assms(4,6) s
    by (simp add: model_module_init_def Let_def record_call_simps)
  have c: "cached_module ?st2 i = JObject (Some u)"
    using assms(4) by (simp add: cached_module_set_module record_call_simps)
  have w: "world ?st2 = wa" "input ?st2 = input st"
    by (simp_all add: set_module_simps record_call_simps)
  let ?st3 = "record_call (Call_update (EntitySlot i)) ?st2"
  let ?w = "case r of Normal x \<Rightarrow> wb
              | Throw e \<Rightarrow> console_log (Error_executing_model_script_update i e) wb"
  have u: "model_module_update p rs d m i ?st2
      = (Normal (), set_module i (JObject (Some (u\<lparr>locals := l\<rparr>))) (?st3\<lparr>world := ?w\<rparr>))"
    using c w assms(8) by (simp add: model_module_update_def Let_def record_call_simps)
  from assms(1-3) i u have e: "execute_model_script js p rs d m i st
      = set_module i (JObject (Some (u\<lparr>locals := l\<rparr>))) (?st3\<lparr>world := ?w\<rparr>)"
    by (simp add: execute_model_script_def)
  have "modelScriptsRef (set_module i (JObject (Some (u\<lparr>locals := l\<rparr>))) (?st3\<lparr>world := ?w\<rparr>)) i
      = Some (en\<lparr>module := JObject (Some (u\<lparr>locals := l\<rparr>))\<rparr>)"
    using assms(4) by (simp add: set_module_at record_call_simps)
  with e show ?thesis by (simp add: set_module_simps)
qed

lemma solo_props_simps:
  "mixer solo_props" "\<not> isEditMode solo_props" "activeModel solo_props = None"
  "modelScripts solo_props = [Some counter_script]" "sceneScript solo_props = []"
  "uploadedModels solo_props = [1]" "modelNames solo_props = [''hero.glb'']"
  "mixer edited_props" "\<not> isEditMode edited_props" "activeModel edited_props = None"
  "modelScripts edited_props = [Some edited_counter_script]" "sceneScript edited_props = []"
  "uploadedModels edited_props = [1]" "modelNames edited_props = [''hero.glb'']"
  by (simp_all add: solo_props_def edited_props_def demo_props_def)


subsection \<open>Relations that the example scripts keep\<close>

lemma userData_kept_preorder: "reflp userData_kept" "transp userData_kept"
  by (auto simp: userData_kept_def reflp_def transp_def)

lemma equality_preorder:
  "reflp ((=) :: (obj_ref \<Rightarrow> 'v object3d) \<Rightarrow> (obj_ref \<Rightarrow> 'v object3d) \<Rightarrow> bool)"
  "transp ((=) :: (obj_ref \<Rightarrow> 'v object3d) \<Rightarrow> (obj_ref \<Rightarrow> 'v object3d) \<Rightarrow> bool)"
  by (auto simp: reflp_def transp_def)

lemma increment_userData_kept: "userData_kept (objects w) (objects (increment r k w))"
  by (simp add: userData_kept_def increment_def)

lemma counter_update_keeps_rel: "keeps_rel userData_kept p rs counter_update"
  by (simp add: keeps_rel_def counter_update_def increment_userData_kept)

lemma counter_toplevel_keeps_rel:
  "toplevel_keeps_rel userData_kept p rs
     (\<lambda>a w. (Normal (JObject (Some \<lparr>locals = l, update = counter_update\<rparr>)), w))"
  by (simp add: toplevel_keeps_rel_def counter_update_keeps_rel userData_kept_def)

lemma play_update_keeps_rel:
  assumes "rendered_by_Engine p"
  shows "keeps_rel (=) p rs (play_update m a)"
proof -
  have "objects w = objects (snd (snd (play_update m a (script_args p rs d inp x) (l, w))))"
    for d inp x l w
    using playAnimation_facts [OF assms, of m a w]
    by (cases "playAnimation p m a w") (simp add: play_update_def script_args_def)
  then show ?thesis by (simp add: keeps_rel_def)
qed

lemma hud_update_keeps_rel: "keeps_rel (=) p rs hud_update"
  by (simp add: keeps_rel_def hud_update_def script_args_def createHTML_def
      split: option.splits list.splits)

lemma returns_keeps_rel:
  "keeps_rel (=) p rs f \<Longrightarrow> toplevel_keeps_rel (=) p rs (returns f)"
  by (simp add: toplevel_keeps_rel_def returns_def)

lemma quiet_js_simps:
  "quiet_js hud_script = Some (returns hud_update)"
  "quiet_js walk_script = Some (returns (play_update ''hero.glb'' ''walk''))"
  "quiet_js run_script = Some (returns (play_update ''enemy.glb'' ''run''))"
  by (simp_all add: quiet_js_def boom_script_def hud_script_def walk_script_def run_script_def)

lemma duel_scripts_keep_rel: "scripts_keep_rel (=) quiet_js duel_props demo_rs duel_state"
  unfolding scripts_keep_rel_def
proof (intro conjI allI impI)
  fix b assume "sceneScript duel_props \<noteq> [] \<and> quiet_js (sceneScript duel_props) = Some b"
  then have "b = returns hud_update" by (simp add: duel_props_simps quiet_js_simps)
  then show "toplevel_keeps_rel (=) duel_props demo_rs b"
    by (simp add: returns_keeps_rel hud_update_keeps_rel)
next
  fix i scr b
  assume a: "i < length (modelScripts duel_props) \<and> modelScripts duel_props ! i = Some scr \<and>
         scr \<noteq> [] \<and> quiet_js scr = Some b"
  then have "i = 0 \<or> i = 1" by (auto simp: duel_props_simps)
  with a have "b = returns (play_update ''hero.glb'' ''walk'') \<or>
      b = returns (play_update ''enemy.glb'' ''run'')"
    by (auto simp: duel_props_simps quiet_js_simps)
  then show "toplevel_keeps_rel (=) duel_props demo_rs b"
    by (auto simp: returns_keeps_rel play_update_keeps_rel [OF duel_rendered_by_Engine])
next
  show "module_keeps_rel (=) duel_props demo_rs (module (sceneScriptRef duel_state))"
    by (simp add: duel_state_simps hud_update_keeps_rel)
next
  fix i en assume "modelScriptsRef duel_state i = Some en"
  then have "module en = JObject (Some \<lparr>locals = Map.empty,
                                     update = play_update ''hero.glb'' ''walk''\<rparr>) \<or>
      module en = JObject (Some \<lparr>locals = Map.empty,
                                     update = play_update ''enemy.glb'' ''run''\<rparr>)"
    by (auto simp: duel_state_def split: if_splits)
  then show "module_keeps_rel (=) duel_props demo_rs (module en)"
    by (auto simp: play_update_keeps_rel [OF duel_rendered_by_Engine])
qed

lemma useFrame_fresh_last:
  assumes run: "\<not> isEditMode p" and safe: "scene_safe js p st"
    and later: "\<forall>k. i < k \<longrightarrow> slot_script p (EntitySlot k) = None"
    and scr: "slot_script p (EntitySlot i) = Some scr"
    and en: "modelScriptsRef st i = Some en" "falsy (module en)" and js: "js scr = Some b"
    and top: "b (script_args p rs d (input st) (Some (uploadedModels p ! i)))
          (world (before_model js p rs d i st)) = (Normal (JObject (Some u)), wa)"
    and upd: "update u (script_args p rs d (input st) (Some (uploadedModels p ! i))) (locals u, wa)
          = (r, l, wb)"
  shows "world (useFrame js p rs d st)
           = (case r of Normal x \<Rightarrow> wb
              | Throw e \<Rightarrow> console_log (Error_executing_model_script_update i e) wb) \<and>
         modelScriptsRef (useFrame js p rs d st) i
           = Some (en\<lparr>module := JObject (Some (u\<lparr>locals := l\<rparr>))\<rparr>)"
proof -
  define sti where "sti = before_model js p rs d i st"
  define stk where "stk = execute_model_script js p rs d (uploadedModels p ! i) i sti"
  from scr have a: "i < length (uploadedModels p)" "i < length (modelScripts p)"
    "modelScripts p ! i = Some scr" "scr \<noteq> []"
    by (auto split: if_splits option.splits)
  from useFrame_at_model [OF run safe a(1), of rs d]
    forEach_model_later_no_script [OF later, of js rs d stk]
  have u: "useFrame js p rs d st = stk" by (simp add: stk_def sti_def)
  have e: "modelScriptsRef sti i = Some en" "input sti = input st"
    using en(1) by (simp_all add: sti_def before_model_entry before_model_input)
  from top upd e(2)
  have t: "b (script_args p rs d (input sti) (Some (uploadedModels p ! i))) (world sti)
      = (Normal (JObject (Some u)), wa)"
    "update u (script_args p rs d (input sti) (Some (uploadedModels p ! i))) (locals u, wa)
      = (r, l, wb)"
    by (simp_all add: sti_def)
  from execute_model_script_fresh_world [where js = js and p = p and rs = rs and d = d
      and m = "uploadedModels p ! i" and i = i and st = sti and scr = scr and en = en and b = b
      and u = u and wa = wa and r = r and l = l and wb = wb] a(2,3,4) e(1) en(2) js t
  show ?thesis unfolding u stk_def by blast
qed

subsection \<open>C1: a script whose construction fails\<close>

text \<open>
  C1 does not hold for a syntax error. The text of a script is parsed by \<^verbatim>\<open>new Function\<close>
  outside the \<^verbatim>\<open>try\<close> that replaces a failed module by the no-op module, so the
  SyntaxError leaves the cache entry as it is. In running mode, over any frames: a scene
  text that does not parse leaves the scene entry as it was (without a module) and is
  parsed again in every frame; and so does the text of a model script, when the scene
  script lets the frame reach the model scripts.
\<close>

theorem syntax_error_retried_every_frame:
  "(\<not> isEditMode p \<and> sceneScript p \<noteq> [] \<and> js (sceneScript p) = None \<and>
      falsy (module (sceneScriptRef st)) \<longrightarrow>
      sceneScriptRef (frames js p rs ds st) = sceneScriptRef st \<and>
      count_list (calls_since st (frames js p rs ds st)) (New_Function SceneSlot) = length ds) \<and>
   (\<not> isEditMode p \<and> scene_safe js p st \<and> slot_script p (EntitySlot i) = Some scr \<and>
      js scr = None \<and> falsy (cached_module st i) \<longrightarrow>
      modelScriptsRef (frames js p rs ds st) i = modelScriptsRef st i \<and>
      count_list (calls_since st (frames js p rs ds st)) (New_Function (EntitySlot i)) = length ds)"
proof (intro conjI impI)
  assume a: "\<not> isEditMode p \<and> sceneScript p \<noteq> [] \<and> js (sceneScript p) = None \<and>
      falsy (module (sceneScriptRef st))"
  then have 1: "sceneScriptRef (frames js p rs ds st) = sceneScriptRef st"
    "count_list (calls (frames js p rs ds st)) (New_Function SceneSlot)
       = count_list (calls st) (New_Function SceneSlot) + length ds"
    using frames_scene_syntax_error [where js = js and p = p and st = st and rs = rs and ds = ds]
    by simp_all
  from 1(1) show "sceneScriptRef (frames js p rs ds st) = sceneScriptRef st" .
  from count_calls_since [OF frames_grows, of js p rs ds st "New_Function SceneSlot"] 1(2)
  show "count_list (calls_since st (frames js p rs ds st)) (New_Function SceneSlot) = length ds"
    by simp
next
  assume a: "\<not> isEditMode p \<and> scene_safe js p st \<and> slot_script p (EntitySlot i) = Some scr \<and>
      js scr = None \<and> falsy (cached_module st i)"
  then have 1: "modelScriptsRef (frames js p rs ds st) i = modelScriptsRef st i"
    "count_list (calls (frames js p rs ds st)) (New_Function (EntitySlot i))
       = count_list (calls st) (New_Function (EntitySlot i)) + length ds"
    using frames_entity_syntax_error [where js = js and p = p and st = st and i = i
        and scr = scr and rs = rs and ds = ds] by simp_all
  from 1(1) show "modelScriptsRef (frames js p rs ds st) i = modelScriptsRef st i" .
  from count_calls_since [OF frames_grows, of js p rs ds st "New_Function (EntitySlot i)"] 1(2)
  show "count_list (calls_since st (frames js p rs ds st)) (New_Function (EntitySlot i)) = length ds"
    by simp
qed

text \<open>
  C1, in the example: after three frames the entry of the broken scene script, or of the
  broken script of model 0, is still empty and the text has been parsed three times; and
  in a frame whose scene text does not parse nothing but the mixer and the Function
  constructor is called, so no model script runs.
\<close>

theorem syntax_error_retried_every_frame_witness:
  "module (sceneScriptRef (frames demo_js broken_scene_props demo_rs [1, 1, 1] fresh_state)) = JNull \<and>
   count_list (calls_since fresh_state (frames demo_js broken_scene_props demo_rs [1, 1, 1] fresh_state))
     (New_Function SceneSlot) = 3 \<and>
   modelScriptsRef (frames demo_js broken_model_props demo_rs [1, 1, 1] fresh_state) 0 = None \<and>
   count_list (calls_since fresh_state (frames demo_js broken_model_props demo_rs [1, 1, 1] fresh_state))
     (New_Function (EntitySlot 0)) = 3 \<and>
   calls (useFrame demo_js broken_scene_props demo_rs 1 fresh_state)
     = [Mixer_update 1, New_Function SceneSlot] \<and>
   console (world (useFrame demo_js broken_scene_props demo_rs 1 fresh_state))
     = [Error_in_script_execution SyntaxError]"
proof -
  have 1: "\<not> isEditMode broken_scene_props" "sceneScript broken_scene_props \<noteq> []"
    "demo_js (sceneScript broken_scene_props) = None"
    "falsy (module (sceneScriptRef fresh_state))"
    by (simp_all add: broken_props_simps script_nonempty demo_js_simps fresh_state_simps)
  have 2: "\<not> isEditMode broken_model_props" "scene_safe demo_js broken_model_props fresh_state"
    "slot_script broken_model_props (EntitySlot 0) = Some broken_script"
    "demo_js broken_script = None" "falsy (cached_module fresh_state 0)"
    by (simp_all add: broken_props_simps script_nonempty demo_js_simps fresh_state_simps
        scene_safe_def yields_module_demo cached_module_def)
  have 3: "calls (useFrame demo_js broken_scene_props demo_rs 1 fresh_state)
     = [Mixer_update 1, New_Function SceneSlot]"
    "console (world (useFrame demo_js broken_scene_props demo_rs 1 fresh_state))
     = [Error_in_script_execution SyntaxError]"
    by (simp_all add: driver_defs script_defs demo_js_simps script_nonempty broken_props_simps
        fresh_state_simps)
  show ?thesis
    using syntax_error_retried_every_frame [where js = demo_js and p = broken_scene_props
        and st = fresh_state and rs = demo_rs and ds = "[1, 1, 1]"]
      syntax_error_retried_every_frame [where js = demo_js and p = broken_model_props
        and st = fresh_state and rs = demo_rs and ds = "[1, 1, 1]" and i = 0
        and scr = broken_script]
      1 2 3
    by (simp add: fresh_state_simps)
qed

subsection \<open>C2: the top level of a script runs once\<close>



text \<open>
  A text whose top level returns nothing defines no \<^verbatim>\<open>update\<close> for the driver and is no
  script as the cache takes them: the cache keeps no module for it, and its top level runs
  in every frame, as the counter it keeps in \<^verbatim>\<open>scene.userData\<close> shows.
\<close>

lemma toplevel_without_module_runs_every_frame:
  "calls (frames demo_js hits_props demo_rs [1, 1] fresh_state)
     = [Mixer_update 1, New_Function SceneSlot, Call_scriptFn SceneSlot,
        Mixer_update 1, New_Function SceneSlot, Call_scriptFn SceneSlot] \<and>
   userData (objects (world (frames demo_js hits_props demo_rs [1, 1] fresh_state)) 0) ''hits''
     = Some 2"
  by (simp add: driver_defs script_defs script_args_simps demo_js_simps script_nonempty
      hits_props_simps fresh_state_simps demo_rs_def)

subsection \<open>C3: an \<^verbatim>\<open>update\<close> that throws\<close>



subsection \<open>C4: the cache at a change from editing to running\<close>

text \<open>
  C4, as the code has it. When the mode changes from editing to running the effect runs,
  but it resets the cache entry of a slot only if the slot's source text differs from the
  text the entry records: the scene entry is kept when the text is the same and becomes
  an empty entry for the new text otherwise, and so is the entry of every model script.
\<close>

theorem mode_transition_resets_changed_text_only:
  "isEditMode p \<and> \<not> isEditMode p' \<longrightarrow>
     sceneScriptRef (commit p p' st) =
       (if sceneScript p' = script (sceneScriptRef st) then sceneScriptRef st
        else \<lparr>script = sceneScript p', module = JNull\<rparr>) \<and>
     (\<forall>i s en. i < length (modelScripts p') \<and> modelScripts p' ! i = Some s \<and>
        modelScriptsRef st i = Some en \<longrightarrow>
        modelScriptsRef (commit p p' st) i =
          Some (if script en = s then en else \<lparr>script = s, module = JNull\<rparr>))"
  by (auto simp: commit_mode_change Scene_effect_scene Scene_effect_models reset_entry_def)

text \<open>
  C4, in the example: with the texts unchanged the scene module and the module of model 0
  survive the change to running mode; with another scene text the scene entry is reset.
\<close>

theorem mode_transition_resets_changed_text_only_witness:
  "sceneScriptRef (commit (demo_props\<lparr>isEditMode := True\<rparr>) demo_props demo_state)
     = \<lparr>script = ''S'', module = JObject (Some noop_unit)\<rparr> \<and>
   modelScriptsRef (commit (demo_props\<lparr>isEditMode := True\<rparr>) demo_props demo_state) 0
     = Some \<lparr>script = ''A'', module = JObject (Some noop_unit)\<rparr> \<and>
   sceneScriptRef (commit (demo_props\<lparr>isEditMode := True\<rparr>) (demo_props\<lparr>sceneScript := ''T''\<rparr>) demo_state)
     = \<lparr>script = ''T'', module = JNull\<rparr>"
proof -
  have 1: "isEditMode (demo_props\<lparr>isEditMode := True\<rparr>)" "\<not> isEditMode demo_props"
    "\<not> isEditMode (demo_props\<lparr>sceneScript := ''T''\<rparr>)"
    "sceneScript demo_props = ''S''" "modelScripts demo_props = [Some ''A'', Some ''B'']"
    "sceneScriptRef demo_state = \<lparr>script = ''S'', module = JObject (Some noop_unit)\<rparr>"
    "modelScriptsRef demo_state 0 = Some \<lparr>script = ''A'', module = JObject (Some noop_unit)\<rparr>"
    by (simp_all add: demo_props_def demo_state_def)
  show ?thesis
    using mode_transition_resets_changed_text_only
        [where p = "demo_props\<lparr>isEditMode := True\<rparr>" and p' = demo_props and st = demo_state]
      mode_transition_resets_changed_text_only
        [where p = "demo_props\<lparr>isEditMode := True\<rparr>" and p' = "demo_props\<lparr>sceneScript := ''T''\<rparr>"
           and st = demo_state]
      1
    by simp
qed

text \<open>
  C4 as stated fails: the mode changes from editing to running, the scene text is the
  one the cache entry records, and the entry with its compiled module is still there.
\<close>

theorem mode_transition_counterexample:
  "isEditMode (demo_props\<lparr>isEditMode := True\<rparr>) \<and> \<not> isEditMode demo_props \<and>
   sceneScriptRef (commit (demo_props\<lparr>isEditMode := True\<rparr>) demo_props demo_state)
     = sceneScriptRef demo_state \<and>
   module (sceneScriptRef demo_state) = JObject (Some noop_unit)"
  by (simp add: commit_def Scene_effect_scene demo_props_def demo_state_def)

subsection \<open>C5: looking up what does not exist\<close>

text \<open>
  C5, as the code has it. \<^verbatim>\<open>getModelByName\<close> returns the not-found value for a name
  that no model has. \<^verbatim>\<open>playAnimation\<close> returns without doing or logging anything when
  there is no mixer; with a mixer, it returns normally and only logs one diagnostic when
  the named entity is not found, and when the entity is found with a list of animations
  that has no clip of that name.
\<close>

theorem playAnimation_not_found:
  "(n \<notin> set (modelNames p) \<longrightarrow> getModelByName p n = None) \<and>
   (\<not> mixer p \<longrightarrow> playAnimation p m a w = (Normal (), w)) \<and>
   (mixer p \<and> targetModel p m w = None \<longrightarrow>
      playAnimation p m a w = (Normal (), console_log (No_model_found_for m) w)) \<and>
   (mixer p \<and> targetModel p m w = Some t \<and> animations (objects w t) = Some anims \<and>
      find (\<lambda>c. clip_name c = a) anims = None \<longrightarrow>
      playAnimation p m a w =
        (Normal (),
         console_log (if anims = [] then No_animations_found_for m
                      else Animation_not_found_for_model a m) w))"
proof (intro conjI impI)
  assume "n \<notin> set (modelNames p)"
  then have "findIndex (\<lambda>x. x = n) (modelNames p) = None"
    by (auto simp: findIndex_None)
  then show "getModelByName p n = None" by (simp add: getModelByName_def)
qed (auto simp: playAnimation_def)

text \<open>
  C5, in the example: an unknown name, no mixer, an unknown entity, an unknown clip of a
  known entity.
\<close>

theorem playAnimation_not_found_witness:
  "getModelByName demo_props ''ghost.glb'' = None \<and>
   playAnimation (demo_props\<lparr>mixer := False\<rparr>) ''hero.glb'' ''walk'' demo_world = (Normal (), demo_world) \<and>
   playAnimation demo_props ''ghost.glb'' ''walk'' demo_world
     = (Normal (), demo_world\<lparr>console := [No_model_found_for ''ghost.glb'']\<rparr>) \<and>
   playAnimation demo_props ''hero.glb'' ''fly'' demo_world
     = (Normal (), demo_world\<lparr>console := [Animation_not_found_for_model ''fly'' ''hero.glb'']\<rparr>)"
proof -
  have 1: "''ghost.glb'' \<notin> set (modelNames demo_props)" "mixer demo_props"
     "\<not> mixer (demo_props\<lparr>mixer := False\<rparr>)"
    by (simp_all add: demo_props_def)
  have 2: "targetModel demo_props ''ghost.glb'' demo_world = None"
    by (simp add: targetModel_def getModelByName_def demo_props_def)
  have 3: "targetModel demo_props ''hero.glb'' demo_world = Some 1"
     "animations (objects demo_world 1) = Some [AnimationClip ''idle'' 10, AnimationClip ''walk'' 11]"
     "find (\<lambda>c. clip_name c = ''fly'') [AnimationClip ''idle'' 10, AnimationClip ''walk'' 11] = None"
    by (simp_all add: targetModel_def getModelByName_def demo_props_def demo_world_def demo_objects_def)
  show ?thesis
    using playAnimation_not_found [where p = demo_props and n = "''ghost.glb''" and m = "''ghost.glb''"
        and a = "''walk''" and w = demo_world]
      playAnimation_not_found [where p = "demo_props\<lparr>mixer := False\<rparr>" and m = "''hero.glb''"
        and a = "''walk''" and w = demo_world]
      playAnimation_not_found [where p = demo_props and m = "''hero.glb''" and a = "''fly''"
        and w = demo_world and t = 1 and anims = "[AnimationClip ''idle'' 10, AnimationClip ''walk'' 11]"]
      1 2 3
    by (simp add: console_log_def demo_world_def)
qed

text \<open>
  C5 as stated fails: without a mixer a call for an entity that is not found returns
  before anything is looked up, and no diagnostic reaches the console.
\<close>

theorem playAnimation_silent_counterexample:
  "targetModel (demo_props\<lparr>mixer := False\<rparr>) ''ghost.glb'' demo_world = None \<and>
   playAnimation (demo_props\<lparr>mixer := False\<rparr>) ''ghost.glb'' ''walk'' demo_world = (Normal (), demo_world) \<and>
   console demo_world = []"
  by (simp add: playAnimation_def targetModel_def getModelByName_def demo_props_def demo_world_def)

text \<open>
  Outside the claim as amended: a model that is found but whose \<^verbatim>\<open>animations\<close>
  property is undefined makes \<^verbatim>\<open>playAnimation\<close> evaluate the unbound identifier.
\<close>

lemma playAnimation_undefined_animations:
  "mixer p \<Longrightarrow> targetModel p m w = Some t \<Longrightarrow> animations (objects w t) = None \<Longrightarrow>
     playAnimation p m a w = (Throw ReferenceError, w)"
  by (simp add: playAnimation_def)

subsection \<open>C6: one clip at a time\<close>

text \<open>
  C6. With the callbacks that \<^verbatim>\<open>Engine\<close> passes, a call of \<^verbatim>\<open>playAnimation\<close> that finds
  nothing to play (no mixer, no model or no clip of that name) leaves the actions of the
  mixer as they are. A call that finds the requested clip stops all actions and leaves
  exactly one playing: the requested clip on the requested model, unless the active model
  of the editor has a clip of the same name; \<^verbatim>\<open>handlePlayAnimation\<close> then stops the
  requested clip and plays that clip of the active model instead. So a mixer with at most
  one playing action has at most one after the call, and \<^verbatim>\<open>stopAnimation\<close> leaves none.
  In a frame in running mode in which the scene script lets the model scripts run: if the
  \<^verbatim>\<open>update\<close> of a model slot calls \<^verbatim>\<open>playAnimation\<close>, the clip is found in the world as
  the scripts dispatched before it have left it, and no model after it has a script, then
  after the frame exactly that one action is playing, whatever the scripts dispatched
  before it have played.
\<close>

theorem playAnimation_leaves_one_action:
  "rendered_by_Engine p \<longrightarrow>
     playing (snd (playAnimation p m a w))
       = (case requested_clip p m a w of
            None \<Rightarrow> playing w
          | Some x \<Rightarrow> (case active_clip p a w of None \<Rightarrow> [x] | Some y \<Rightarrow> [y])) \<and>
     (length (playing w) \<le> 1 \<longrightarrow> length (playing (snd (playAnimation p m a w))) \<le> 1) \<and>
     (mixer p \<longrightarrow> playing (snd (stopAnimation p m w)) = []) \<and>
     (\<not> isEditMode p \<and> scene_safe js p st \<and>
        (\<forall>k. j < k \<longrightarrow> slot_script p (EntitySlot k) = None) \<and>
        slot_script p (EntitySlot j) = Some sb \<and>
        modelScriptsRef st j = Some enb \<and> module enb = JObject (Some ub) \<and>
        update ub = play_update nb cb \<and>
        requested_clip p nb cb (world (before_model js p rs d j st)) = Some x \<longrightarrow>
        playing (world (useFrame js p rs d st))
          = (case active_clip p cb (world (before_model js p rs d j st)) of
               None \<Rightarrow> [x] | Some y \<Rightarrow> [y]))"
proof (intro impI conjI)
  assume eng: "rendered_by_Engine p"
  show 1: "playing (snd (playAnimation p m a w))
       = (case requested_clip p m a w of
            None \<Rightarrow> playing w
          | Some x \<Rightarrow> (case active_clip p a w of None \<Rightarrow> [x] | Some y \<Rightarrow> [y]))"
  proof (cases "requested_clip p m a w")
    case None
    with playAnimation_not_requested [OF eng None] show ?thesis by simp
  next
    case (Some x)
    with playAnimation_requested [OF eng Some] show ?thesis by simp
  qed
  {
    assume "length (playing w) \<le> 1"
    with 1 show "length (playing (snd (playAnimation p m a w))) \<le> 1"
      by (simp split: option.splits)
  }
  {
    assume "mixer p"
    with stopAnimation_facts [OF eng, of m w] show "playing (snd (stopAnimation p m w)) = []"
      by simp
  }
  {
    assume "\<not> isEditMode p \<and> scene_safe js p st \<and>
        (\<forall>k. j < k \<longrightarrow> slot_script p (EntitySlot k) = None) \<and>
        slot_script p (EntitySlot j) = Some sb \<and>
        modelScriptsRef st j = Some enb \<and> module enb = JObject (Some ub) \<and>
        update ub = play_update nb cb \<and>
        requested_clip p nb cb (world (before_model js p rs d j st)) = Some x"
    then have h: "\<not> isEditMode p" "scene_safe js p st"
        "\<forall>k. j < k \<longrightarrow> slot_script p (EntitySlot k) = None"
        "slot_script p (EntitySlot j) = Some sb"
        "modelScriptsRef st j = Some enb" "module enb = JObject (Some ub)"
        "update ub = play_update nb cb"
        "requested_clip p nb cb (world (before_model js p rs d j st)) = Some x" by blast+
    from last_script_plays [where js = js and p = p and rs = rs and d = d and st = st
        and j = j and sb = sb and enb = enb and ub = ub and nb = nb and cb = cb and x = x]
      eng h
    show "playing (world (useFrame js p rs d st))
          = (case active_clip p cb (world (before_model js p rs d j st)) of
               None \<Rightarrow> [x] | Some y \<Rightarrow> [y])" by blast
  }
qed

text \<open>
  C6, in the examples. With no active model: the script of the first model plays \<^verbatim>\<open>walk\<close>
  on the hero and the script of the second model plays \<^verbatim>\<open>run\<close> on the enemy; after the
  frame only \<^verbatim>\<open>run\<close> of the enemy is playing, and a call for a clip that does not exist
  leaves the clip that is playing. With the hero as the active model: the script of the
  second model requests \<^verbatim>\<open>walk\<close> of the enemy, and after the frame the \<^verbatim>\<open>walk\<close> of the hero
  is playing instead.
\<close>

theorem playAnimation_leaves_one_action_witness:
  "playing (world (before_model quiet_js duel_props demo_rs 1 1 duel_state))
     = [(AnimationClip ''walk'' 11, 1)] \<and>
   playing (world (useFrame quiet_js duel_props demo_rs 1 duel_state))
     = [(AnimationClip ''run'' 20, 2)] \<and>
   playing (snd (playAnimation duel_props ''enemy.glb'' ''jump''
       (snd (playAnimation duel_props ''hero.glb'' ''walk'' demo_world))))
     = [(AnimationClip ''walk'' 11, 1)] \<and>
   requested_clip selected_props ''enemy.glb'' ''walk''
       (world (before_model quiet_js selected_props demo_rs 1 1 selected_state))
     = Some (AnimationClip ''walk'' 21, 2) \<and>
   playing (world (useFrame quiet_js selected_props demo_rs 1 selected_state))
     = [(AnimationClip ''walk'' 11, 1)]"
proof -
  let ?ub = "\<lparr>locals = Map.empty, update = play_update ''enemy.glb'' ''run''\<rparr> :: int compiled_unit"
  let ?enb = "\<lparr>script = run_script, module = JObject (Some ?ub)\<rparr>"
  let ?uc = "\<lparr>locals = Map.empty, update = play_update ''enemy.glb'' ''walk''\<rparr> :: int compiled_unit"
  let ?enc = "\<lparr>script = enemy_walk_script, module = JObject (Some ?uc)\<rparr>"
  let ?wd = "world (before_model quiet_js duel_props demo_rs 1 1 duel_state)"
  let ?ws = "world (before_model quiet_js selected_props demo_rs 1 1 selected_state)"
  have bd: "playing ?wd = [(AnimationClip ''walk'' 11, 1)]" "objects ?wd = demo_objects"
    by (simp_all add: before_model_def driver_defs script_defs script_args_simps script_nonempty
        duel_props_simps duel_state_simps playAnimation_def targetModel_def getModelByName_def
        handlePlayAnimation_def stopAllAction_def play_action_def)
  have bs: "objects ?ws = demo_objects"
    by (simp add: before_model_def driver_defs script_defs script_args_simps script_nonempty
        more_script_nonempty selected_props_simps selected_state_simps playAnimation_def
        targetModel_def getModelByName_def handlePlayAnimation_def stopAllAction_def
        play_action_def)
  have rd: "requested_clip duel_props ''enemy.glb'' ''run'' ?wd = Some (AnimationClip ''run'' 20, 2)"
    "active_clip duel_props ''run'' ?wd = None"
    using bd(2)
    by (simp_all add: requested_clip_def active_clip_def duel_props_simps targetModel_def
        getModelByName_def demo_objects_def)
  have rs: "requested_clip selected_props ''enemy.glb'' ''walk'' ?ws
      = Some (AnimationClip ''walk'' 21, 2)"
    "active_clip selected_props ''walk'' ?ws = Some (AnimationClip ''walk'' 11, 1)"
    using bs
    by (simp_all add: requested_clip_def active_clip_def selected_props_simps targetModel_def
        getModelByName_def demo_objects_def)
  have hd: "\<not> isEditMode duel_props \<and> scene_safe quiet_js duel_props duel_state \<and>
        (\<forall>k. 1 < k \<longrightarrow> slot_script duel_props (EntitySlot k) = None) \<and>
        slot_script duel_props (EntitySlot 1) = Some run_script \<and>
        modelScriptsRef duel_state 1 = Some ?enb \<and> module ?enb = JObject (Some ?ub) \<and>
        update ?ub = play_update ''enemy.glb'' ''run''"
    by (simp add: duel_props_simps duel_state_simps scene_safe_def script_nonempty)
  have hs: "\<not> isEditMode selected_props \<and> scene_safe quiet_js selected_props selected_state \<and>
        (\<forall>k. 1 < k \<longrightarrow> slot_script selected_props (EntitySlot k) = None) \<and>
        slot_script selected_props (EntitySlot 1) = Some enemy_walk_script \<and>
        modelScriptsRef selected_state 1 = Some ?enc \<and> module ?enc = JObject (Some ?uc) \<and>
        update ?uc = play_update ''enemy.glb'' ''walk''"
    by (simp add: selected_props_simps selected_state_simps scene_safe_def more_script_nonempty)
  note Td = playAnimation_leaves_one_action [where p = duel_props and js = quiet_js
      and rs = demo_rs and d = 1 and st = duel_state and j = 1
      and sb = run_script and enb = ?enb and ub = ?ub and nb = "''enemy.glb''" and cb = "''run''"
      and x = "(AnimationClip ''run'' 20, 2)"]
  from Td duel_rendered_by_Engine hd rd(1)
  have "playing (world (useFrame quiet_js duel_props demo_rs 1 duel_state))
      = (case active_clip duel_props ''run'' ?wd of
           None \<Rightarrow> [(AnimationClip ''run'' 20, 2)] | Some y \<Rightarrow> [y])" by blast
  with rd(2) have A: "playing (world (useFrame quiet_js duel_props demo_rs 1 duel_state))
     = [(AnimationClip ''run'' 20, 2)]" by simp
  note Ts = playAnimation_leaves_one_action [where p = selected_props and js = quiet_js
      and rs = demo_rs and d = 1 and st = selected_state and j = 1
      and sb = enemy_walk_script and enb = ?enc and ub = ?uc and nb = "''enemy.glb''"
      and cb = "''walk''" and x = "(AnimationClip ''walk'' 21, 2)"]
  from Ts selected_rendered_by_Engine hs rs(1)
  have "playing (world (useFrame quiet_js selected_props demo_rs 1 selected_state))
      = (case active_clip selected_props ''walk'' ?ws of
           None \<Rightarrow> [(AnimationClip ''walk'' 21, 2)] | Some y \<Rightarrow> [y])" by blast
  with rs(2) have B: "playing (world (useFrame quiet_js selected_props demo_rs 1 selected_state))
     = [(AnimationClip ''walk'' 11, 1)]" by simp
  have f: "playing (snd (playAnimation duel_props ''enemy.glb'' ''jump''
       (snd (playAnimation duel_props ''hero.glb'' ''walk'' demo_world))))
     = [(AnimationClip ''walk'' 11, 1)]"
    by (simp add: script_defs duel_props_simps playAnimation_def targetModel_def
        getModelByName_def handlePlayAnimation_def stopAllAction_def play_action_def)
  from bd(1) A f rs(1) B show ?thesis by simp
qed

subsection \<open>C7: \<^verbatim>\<open>userData\<close> outlives the compiled unit\<close>

text \<open>
  C7. Neither the effect that resets the cache nor the frame driver writes to a three.js
  object, and so to no \<^verbatim>\<open>userData\<close>: a commit of new props leaves all objects as they
  are, and whatever relation between the objects before and after a call the scripts of
  the slots keep (reflexive and transitive: that no key of a \<^verbatim>\<open>userData\<close> is lost, say, or
  that nothing changes), any number of frames keep it, and so does the part of a frame
  before the step of a model slot. When a commit changes the text of a slot, the cache
  entry of the slot becomes an entry for the new text without a module, so the variables
  captured by the previous module are gone. In a frame in running mode the step of a model
  slot starts from the state that the steps before it have left, with the cache entry of
  the slot as it was; when the entry has no module, the top level of the text runs on that
  world, with every \<^verbatim>\<open>userData\<close> in it, the \<^verbatim>\<open>update\<close> of the module it returns runs on
  the world the top level left, and the entry holds the new module; if no model after the
  slot has a script, that is the world at the end of the frame.
\<close>

theorem userData_survives_recompilation:
  "objects (world (commit p p' st)) = objects (world st) \<and>
   (reflp R \<and> transp R \<and> scripts_keep_rel R js p rs st \<longrightarrow>
      R (objects (world st)) (objects (world (frames js p rs ds st))) \<and>
      R (objects (world st)) (objects (world (before_model js p rs d i st)))) \<and>
   (modelScripts p' \<noteq> modelScripts p \<and> i < length (modelScripts p') \<and>
      modelScripts p' ! i = Some scr \<and> modelScriptsRef st i = Some en \<and> script en \<noteq> scr \<longrightarrow>
      modelScriptsRef (commit p p' st) i = Some \<lparr>script = scr, module = JNull\<rparr>) \<and>
   (sceneScript p' \<noteq> sceneScript p \<and> script (sceneScriptRef st) = sceneScript p \<longrightarrow>
      sceneScriptRef (commit p p' st) = \<lparr>script = sceneScript p', module = JNull\<rparr>) \<and>
   (\<not> isEditMode p \<and> scene_safe js p st \<and> i < length (uploadedModels p) \<longrightarrow>
      useFrame js p rs d st
        = forEach_model (execute_model_script js p rs d) (Suc i) (drop (Suc i) (uploadedModels p))
            (execute_model_script js p rs d (uploadedModels p ! i) i
               (before_model js p rs d i st)) \<and>
      modelScriptsRef (before_model js p rs d i st) i = modelScriptsRef st i \<and>
      input (before_model js p rs d i st) = input st) \<and>
   (i < length (modelScripts p) \<and> modelScripts p ! i = Some scr \<and> scr \<noteq> [] \<and>
      modelScriptsRef st i = Some en \<and> falsy (module en) \<and> js scr = Some b \<and>
      b (script_args p rs d (input st) (Some m)) (world st) = (Normal (JObject (Some u)), wa) \<and>
      update u (script_args p rs d (input st) (Some m)) (locals u, wa) = (r, l, wb) \<longrightarrow>
      world (execute_model_script js p rs d m i st)
        = (case r of Normal x \<Rightarrow> wb
           | Throw e \<Rightarrow> console_log (Error_executing_model_script_update i e) wb) \<and>
      modelScriptsRef (execute_model_script js p rs d m i st) i
        = Some (en\<lparr>module := JObject (Some (u\<lparr>locals := l\<rparr>))\<rparr>)) \<and>
   (\<not> isEditMode p \<and> scene_safe js p st \<and>
      (\<forall>k. i < k \<longrightarrow> slot_script p (EntitySlot k) = None) \<and>
      slot_script p (EntitySlot i) = Some scr \<and>
      modelScriptsRef st i = Some en \<and> falsy (module en) \<and> js scr = Some b \<and>
      b (script_args p rs d (input st) (Some (uploadedModels p ! i)))
          (world (before_model js p rs d i st)) = (Normal (JObject (Some u)), wa) \<and>
      update u (script_args p rs d (input st) (Some (uploadedModels p ! i))) (locals u, wa)
          = (r, l, wb) \<longrightarrow>
      world (useFrame js p rs d st)
        = (case r of Normal x \<Rightarrow> wb
           | Throw e \<Rightarrow> console_log (Error_executing_model_script_update i e) wb) \<and>
      modelScriptsRef (useFrame js p rs d st) i
        = Some (en\<lparr>module := JObject (Some (u\<lparr>locals := l\<rparr>))\<rparr>))"
proof (intro conjI impI)
  show "objects (world (commit p p' st)) = objects (world st)" by (rule commit_objects)
next
  assume a: "reflp R \<and> transp R \<and> scripts_keep_rel R js p rs st"
  then have rf: "reflp R" and tr: "transp R" and k: "scripts_keep_rel R js p rs st" by simp_all
  from frames_keeps_rel [OF rf tr k, of ds]
  show "R (objects (world st)) (objects (world (frames js p rs ds st)))" by simp
  from before_model_keeps_rel [OF rf tr k, of d i]
  show "R (objects (world st)) (objects (world (before_model js p rs d i st)))" by simp
next
  assume "modelScripts p' \<noteq> modelScripts p \<and> i < length (modelScripts p') \<and>
      modelScripts p' ! i = Some scr \<and> modelScriptsRef st i = Some en \<and> script en \<noteq> scr"
  then show "modelScriptsRef (commit p p' st) i = Some \<lparr>script = scr, module = JNull\<rparr>"
    using commit_model_text_changed by blast
next
  assume "sceneScript p' \<noteq> sceneScript p \<and> script (sceneScriptRef st) = sceneScript p"
  then show "sceneScriptRef (commit p p' st) = \<lparr>script = sceneScript p', module = JNull\<rparr>"
    using commit_scene_text_changed by blast
next
  assume a: "\<not> isEditMode p \<and> scene_safe js p st \<and> i < length (uploadedModels p)"
  then have h: "\<not> isEditMode p" "scene_safe js p st" "i < length (uploadedModels p)"
    by simp_all
  from useFrame_at_model [OF h, of rs d]
  show "useFrame js p rs d st
        = forEach_model (execute_model_script js p rs d) (Suc i) (drop (Suc i) (uploadedModels p))
            (execute_model_script js p rs d (uploadedModels p ! i) i
               (before_model js p rs d i st))" .
  show "modelScriptsRef (before_model js p rs d i st) i = modelScriptsRef st i"
    by (rule before_model_entry)
  show "input (before_model js p rs d i st) = input st" by (rule before_model_input)
next
  assume "i < length (modelScripts p) \<and> modelScripts p ! i = Some scr \<and> scr \<noteq> [] \<and>
      modelScriptsRef st i = Some en \<and> falsy (module en) \<and> js scr = Some b \<and>
      b (script_args p rs d (input st) (Some m)) (world st) = (Normal (JObject (Some u)), wa) \<and>
      update u (script_args p rs d (input st) (Some m)) (locals u, wa) = (r, l, wb)"
  then have h: "i < length (modelScripts p)" "modelScripts p ! i = Some scr" "scr \<noteq> []"
      "modelScriptsRef st i = Some en" "falsy (module en)" "js scr = Some b"
      "b (script_args p rs d (input st) (Some m)) (world st) = (Normal (JObject (Some u)), wa)"
      "update u (script_args p rs d (input st) (Some m)) (locals u, wa) = (r, l, wb)"
    by blast+
  from execute_model_script_fresh_world [where js = js and p = p and rs = rs and d = d
      and m = m and i = i and st = st and scr = scr and en = en and b = b and u = u
      and wa = wa and r = r and l = l and wb = wb] h
  show "world (execute_model_script js p rs d m i st)
        = (case r of Normal x \<Rightarrow> wb
           | Throw e \<Rightarrow> console_log (Error_executing_model_script_update i e) wb)"
    "modelScriptsRef (execute_model_script js p rs d m i st) i
        = Some (en\<lparr>module := JObject (Some (u\<lparr>locals := l\<rparr>))\<rparr>)"
    by simp_all
next
  assume "\<not> isEditMode p \<and> scene_safe js p st \<and>
      (\<forall>k. i < k \<longrightarrow> slot_script p (EntitySlot k) = None) \<and>
      slot_script p (EntitySlot i) = Some scr \<and>
      modelScriptsRef st i = Some en \<and> falsy (module en) \<and> js scr = Some b \<and>
      b (script_args p rs d (input st) (Some (uploadedModels p ! i)))
          (world (before_model js p rs d i st)) = (Normal (JObject (Some u)), wa) \<and>
      update u (script_args p rs d (input st) (Some (uploadedModels p ! i))) (locals u, wa)
          = (r, l, wb)"
  then have h: "\<not> isEditMode p" "scene_safe js p st"
      "\<forall>k. i < k \<longrightarrow> slot_script p (EntitySlot k) = None"
      "slot_script p (EntitySlot i) = Some scr"
      "modelScriptsRef st i = Some en" "falsy (module en)" "js scr = Some b"
      "b (script_args p rs d (input st) (Some (uploadedModels p ! i)))
          (world (before_model js p rs d i st)) = (Normal (JObject (Some u)), wa)"
      "update u (script_args p rs d (input st) (Some (uploadedModels p ! i))) (locals u, wa)
          = (r, l, wb)"
    by blast+
  from useFrame_fresh_last [where js = js and p = p and rs = rs and d = d and i = i
      and st = st and scr = scr and en = en and b = b and u = u and wa = wa and r = r
      and l = l and wb = wb] h
  show "world (useFrame js p rs d st)
        = (case r of Normal x \<Rightarrow> wb
           | Throw e \<Rightarrow> console_log (Error_executing_model_script_update i e) wb)"
    "modelScriptsRef (useFrame js p rs d st) i
        = Some (en\<lparr>module := JObject (Some (u\<lparr>locals := l\<rparr>))\<rparr>)"
    by simp_all
qed

text \<open>
  C7, in the example: the script of the one model counts its calls in a variable \<^verbatim>\<open>n\<close>
  and in \<^verbatim>\<open>model.userData.counter\<close>. After two frames both are 2. An edit of the text
  resets the cache entry and leaves the objects alone; the frame after it compiles the new
  text, whose \<^verbatim>\<open>update\<close> then counts \<^verbatim>\<open>n\<close> from 0 to 1 and \<^verbatim>\<open>userData.counter\<close> from 2 to
  3; two frames after the edit the counter is still there. Two frames of the two scripts
  that play animations leave all objects as they were.
\<close>

theorem userData_survives_recompilation_witness:
  "modelScriptsRef (frames demo_js solo_props demo_rs [1, 1] (Scene_effect solo_props fresh_state)) 0
     = Some \<lparr>script = counter_script,
             module = JObject (Some \<lparr>locals = [''n'' \<mapsto> 2], update = counter_update\<rparr>)\<rparr> \<and>
   userData (objects (world (frames demo_js solo_props demo_rs [1, 1]
       (Scene_effect solo_props fresh_state))) 1) ''counter'' = Some 2 \<and>
   modelScriptsRef (commit solo_props edited_props
       (frames demo_js solo_props demo_rs [1, 1] (Scene_effect solo_props fresh_state))) 0
     = Some \<lparr>script = edited_counter_script, module = JNull\<rparr> \<and>
   userData (objects (world (commit solo_props edited_props
       (frames demo_js solo_props demo_rs [1, 1] (Scene_effect solo_props fresh_state)))) 1)
     ''counter'' = Some 2 \<and>
   userData (objects (world (useFrame demo_js edited_props demo_rs 1
       (commit solo_props edited_props
         (frames demo_js solo_props demo_rs [1, 1] (Scene_effect solo_props fresh_state))))) 1)
     ''counter'' = Some 3 \<and>
   modelScriptsRef (useFrame demo_js edited_props demo_rs 1
       (commit solo_props edited_props
         (frames demo_js solo_props demo_rs [1, 1] (Scene_effect solo_props fresh_state)))) 0
     = Some \<lparr>script = edited_counter_script,
             module = JObject (Some \<lparr>locals = [''n'' \<mapsto> 1], update = counter_update\<rparr>)\<rparr> \<and>
   userData (objects (world (frames demo_js edited_props demo_rs [1, 1]
       (commit solo_props edited_props
         (frames demo_js solo_props demo_rs [1, 1] (Scene_effect solo_props fresh_state))))) 1)
     ''counter'' \<noteq> None \<and>
   objects (world (frames quiet_js duel_props demo_rs [1, 1] duel_state)) = demo_objects"
proof -
  define st1 where
    "st1 = frames demo_js solo_props demo_rs [1, 1] (Scene_effect solo_props fresh_state)"
  define st2 where "st2 = commit solo_props edited_props st1"
  define w3 where "w3 = world (before_model demo_js edited_props demo_rs 1 0 st2)"
  let ?en1 = "\<lparr>script = counter_script,
             module = JObject (Some \<lparr>locals = [''n'' \<mapsto> 2::int], update = counter_update\<rparr>)\<rparr>"
  let ?u = "\<lparr>locals = [''n'' \<mapsto> 0::int], update = counter_update\<rparr>"
  let ?b = "\<lambda>(a::int call_args) (w::int world). (Normal (JObject (Some ?u)), w)"
  let ?en2 = "\<lparr>script = edited_counter_script, module = JNull :: int jsval\<rparr>"
  have a1: "modelScriptsRef st1 = [0 \<mapsto> ?en1]"
    "sceneScriptRef st1 = \<lparr>script = [], module = JNull\<rparr>"
    unfolding st1_def
    by (simp_all add: driver_defs script_defs script_args_simps script_nonempty demo_js_simps
        solo_props_simps fresh_state_simps Scene_effect_def reset_model_cache_def
        clear_overlay_def)
  have a2: "userData (objects (world st1) 1) ''counter'' = Some 2"
    unfolding st1_def
    by (simp add: driver_defs script_defs script_args_simps script_nonempty demo_js_simps
        solo_props_simps fresh_state_simps Scene_effect_def reset_model_cache_def
        clear_overlay_def)
  note T1 = userData_survives_recompilation [where p = solo_props and p' = edited_props
      and st = st1 and i = 0 and scr = edited_counter_script and en = ?en1]
  have h1: "modelScripts edited_props \<noteq> modelScripts solo_props \<and>
      0 < length (modelScripts edited_props) \<and>
      modelScripts edited_props ! 0 = Some edited_counter_script \<and>
      modelScriptsRef st1 0 = Some ?en1 \<and> script ?en1 \<noteq> edited_counter_script"
    using a1(1) script_nonempty(10) by (simp add: solo_props_simps)
  from T1 have b1: "objects (world st2) = objects (world st1)" unfolding st2_def by blast
  from T1 h1 have b2: "modelScriptsRef st2 0 = Some ?en2" unfolding st2_def by blast
  from a2 b1 have b3: "userData (objects (world st2) 1) ''counter'' = Some 2" by simp
  have b4: "modelScriptsRef st2 i = (if i = 0 then Some ?en2 else None)" for i
    using a1(1) script_nonempty(10)
    by (simp add: st2_def commit_def Scene_effect_models reset_entry_def solo_props_simps)
  have b5: "sceneScriptRef st2 = \<lparr>script = [], module = JNull\<rparr>"
    using a1(2) by (simp add: st2_def commit_def Scene_effect_scene solo_props_simps)
  have w3: "w3 = world st2"
    by (simp add: w3_def before_model_def execute_scene_script_def solo_props_simps
        record_call_simps)
  note T2 = userData_survives_recompilation [where p = edited_props and js = demo_js
      and rs = demo_rs and d = 1 and st = st2 and i = 0
      and scr = edited_counter_script and en = ?en2 and b = ?b and u = ?u
      and wa = w3 and r = "Normal ()" and l = "[''n'' \<mapsto> 1]"
      and wb = "increment 1 ''counter'' w3" and R = userData_kept and ds = "[1, 1]"]
  have h2: "\<not> isEditMode edited_props \<and> scene_safe demo_js edited_props st2 \<and>
      (\<forall>k. 0 < k \<longrightarrow> slot_script edited_props (EntitySlot k) = None) \<and>
      slot_script edited_props (EntitySlot 0) = Some edited_counter_script \<and>
      modelScriptsRef st2 0 = Some ?en2 \<and>
      falsy (module ?en2) \<and> demo_js edited_counter_script = Some ?b \<and>
      ?b (script_args edited_props demo_rs 1 (input st2) (Some (uploadedModels edited_props ! 0)))
          (world (before_model demo_js edited_props demo_rs 1 0 st2))
         = (Normal (JObject (Some ?u)), w3) \<and>
      update ?u (script_args edited_props demo_rs 1 (input st2)
          (Some (uploadedModels edited_props ! 0))) (locals ?u, w3)
         = (Normal (), [''n'' \<mapsto> 1], increment 1 ''counter'' w3)"
    using b2
    by (simp add: solo_props_simps script_nonempty demo_js_simps counter_update_def
        first_arg_def script_args_simps scene_safe_def w3_def)
  from T2 h2
  have c1: "world (useFrame demo_js edited_props demo_rs 1 st2) = increment 1 ''counter'' w3"
    and c2: "modelScriptsRef (useFrame demo_js edited_props demo_rs 1 st2) 0
        = Some (?en2\<lparr>module := JObject (Some (?u\<lparr>locals := [''n'' \<mapsto> 1]\<rparr>))\<rparr>)"
    by simp_all
  from c1 b3 w3 have c3: "userData (objects (world (useFrame demo_js edited_props
        demo_rs 1 st2)) 1) ''counter'' = Some 3"
    by (simp add: increment_def)
  from c2 have c4: "modelScriptsRef (useFrame demo_js edited_props demo_rs 1 st2) 0
     = Some \<lparr>script = edited_counter_script,
             module = JObject (Some \<lparr>locals = [''n'' \<mapsto> 1], update = counter_update\<rparr>)\<rparr>"
    by simp
  have k: "scripts_keep_rel userData_kept demo_js edited_props demo_rs st2"
    unfolding scripts_keep_rel_def
  proof (intro conjI allI impI)
    fix b assume "sceneScript edited_props \<noteq> [] \<and> demo_js (sceneScript edited_props) = Some b"
    then show "toplevel_keeps_rel userData_kept edited_props demo_rs b"
      by (simp add: solo_props_simps)
  next
    fix i scr b
    assume "i < length (modelScripts edited_props) \<and> modelScripts edited_props ! i = Some scr \<and>
         scr \<noteq> [] \<and> demo_js scr = Some b"
    then have "b = ?b" by (auto simp: solo_props_simps demo_js_simps)
    then show "toplevel_keeps_rel userData_kept edited_props demo_rs b"
      by (simp add: counter_toplevel_keeps_rel)
  next
    show "module_keeps_rel userData_kept edited_props demo_rs (module (sceneScriptRef st2))"
      by (simp add: b5)
  next
    fix i en assume "modelScriptsRef st2 i = Some en"
    with b4 [of i] have "module en = JNull" by (auto split: if_splits)
    then show "module_keeps_rel userData_kept edited_props demo_rs (module en)" by simp
  qed
  from T2 userData_kept_preorder k
  have "userData_kept (objects (world st2))
      (objects (world (frames demo_js edited_props demo_rs [1, 1] st2)))" by blast
  with b3 have c5: "userData (objects (world (frames demo_js edited_props demo_rs [1, 1] st2)) 1)
      ''counter'' \<noteq> None"
    unfolding userData_kept_def by (metis option.distinct(1))
  note T3 = userData_survives_recompilation [where p = duel_props and js = quiet_js
      and rs = demo_rs and st = duel_state and ds = "[1, 1]"
      and R = "(=) :: (obj_ref \<Rightarrow> int object3d) \<Rightarrow> (obj_ref \<Rightarrow> int object3d) \<Rightarrow> bool"]
  from T3 equality_preorder [where ?'v = int] duel_scripts_keep_rel
  have "objects (world duel_state)
      = objects (world (frames quiet_js duel_props demo_rs [1, 1] duel_state))" by blast
  then have d: "objects (world (frames quiet_js duel_props demo_rs [1, 1] duel_state))
      = demo_objects" by (simp add: duel_state_simps demo_world_def)
  from a1(1) a2 b2 b3 c3 c4 c5 d show ?thesis unfolding st2_def st1_def by simp
qed

subsection \<open>C8: the overlay at a change from running to editing\<close>

text \<open>
  C8. When the mode changes from running to editing, the overlay root (if it has been
  created) is left without children, so no lookup by id finds an element at or below a
  child of the overlay root; the frames that follow in editing mode leave the world, and
  with it the document, as it is; and the change back to running mode starts from the
  same empty overlay. Markup can therefore come back only from a script that runs in a
  later frame in running mode.
\<close>

theorem edit_transition_empties_overlay:
  "\<not> isEditMode p \<and> isEditMode p' \<longrightarrow>
     overlay (document (world (commit p p' st))) =
       (case overlay (document (world st)) of None \<Rightarrow> None | Some kids \<Rightarrow> Some []) \<and>
     (\<forall>i k. getElementById (document (world (commit p p' st))) i \<noteq> Some (OverlayChild k) \<and>
            getElementById (document (world (commit p p' st))) i \<noteq> Some (BelowOverlayChild k)) \<and>
     world (frames js p' rs ds (commit p p' st)) = world (commit p p' st) \<and>
     (\<not> isEditMode p'' \<longrightarrow>
        overlay (document (world (commit p' p'' (frames js p' rs ds (commit p p' st))))) =
          overlay (document (world (commit p p' st))))"
proof (intro impI)
  assume a: "\<not> isEditMode p \<and> isEditMode p'"
  then have c: "commit p p' st = Scene_effect p' st" by (simp add: commit_mode_change)
  have o: "overlay (document (world (commit p p' st))) =
       (case overlay (document (world st)) of None \<Rightarrow> None | Some kids \<Rightarrow> Some [])"
    by (simp add: c Scene_effect_world clear_overlay_overlay)
  then have e: "overlay (document (world (commit p p' st))) = Some [] \<or>
      overlay (document (world (commit p p' st))) = None"
    by (simp split: option.splits)
  have f: "world (frames js p' rs ds (commit p p' st)) = world (commit p p' st)"
    using a by (simp add: frames_edit_world)
  have b: "\<not> isEditMode p'' \<longrightarrow>
        overlay (document (world (commit p' p'' (frames js p' rs ds (commit p p' st))))) =
          overlay (document (world (commit p p' st)))"
  proof
    assume "\<not> isEditMode p''"
    with a have "commit p' p'' (frames js p' rs ds (commit p p' st))
        = Scene_effect p'' (frames js p' rs ds (commit p p' st))"
      by (simp add: commit_mode_change)
    with e f show "overlay (document (world (commit p' p'' (frames js p' rs ds (commit p p' st))))) =
          overlay (document (world (commit p p' st)))"
      by (auto simp: Scene_effect_world clear_overlay_overlay)
  qed
  from getElementById_empty_overlay [OF e] o f b
  show "overlay (document (world (commit p p' st))) =
       (case overlay (document (world st)) of None \<Rightarrow> None | Some kids \<Rightarrow> Some []) \<and>
     (\<forall>i k. getElementById (document (world (commit p p' st))) i \<noteq> Some (OverlayChild k) \<and>
            getElementById (document (world (commit p p' st))) i \<noteq> Some (BelowOverlayChild k)) \<and>
     world (frames js p' rs ds (commit p p' st)) = world (commit p p' st) \<and>
     (\<not> isEditMode p'' \<longrightarrow>
        overlay (document (world (commit p' p'' (frames js p' rs ds (commit p p' st))))) =
          overlay (document (world (commit p p' st))))"
    by simp
qed

text \<open>
  C8, in the example: the overlay holds an element with id \<^verbatim>\<open>hud\<close>; after the change to
  editing mode the overlay is empty, the id is not found, and two frames in editing mode
  change nothing.
\<close>

theorem edit_transition_empties_overlay_witness:
  "getElementById (document (world demo_state)) ''hud'' = Some (OverlayChild 0) \<and>
   overlay (document (world (commit demo_props (demo_props\<lparr>isEditMode := True\<rparr>) demo_state)))
     = Some [] \<and>
   getElementById (document (world (commit demo_props (demo_props\<lparr>isEditMode := True\<rparr>) demo_state)))
     ''hud'' = None \<and>
   world (frames demo_js (demo_props\<lparr>isEditMode := True\<rparr>) demo_rs [1, 1]
            (commit demo_props (demo_props\<lparr>isEditMode := True\<rparr>) demo_state))
     = world (commit demo_props (demo_props\<lparr>isEditMode := True\<rparr>) demo_state)"
proof -
  have 1: "\<not> isEditMode demo_props \<and> isEditMode (demo_props\<lparr>isEditMode := True\<rparr>)"
    by (simp add: demo_props_def)
  have 2: "overlay (document (world demo_state)) = Some [Element ''hud'' [Element ''score'' []]]"
    by (simp add: demo_state_def demo_world_def demo_dom_def)
  have 3: "getElementById (document (world demo_state)) ''hud'' = Some (OverlayChild 0)"
    by (simp add: getElementById_def demo_state_def demo_world_def demo_dom_def)
  have 4: "document (world (commit demo_props (demo_props\<lparr>isEditMode := True\<rparr>) demo_state))
      = demo_dom\<lparr>overlay := Some []\<rparr>"
    by (simp add: commit_def Scene_effect_world clear_overlay_def demo_props_def demo_state_def
        demo_world_def demo_dom_def)
  have 5: "getElementById (demo_dom\<lparr>overlay := Some []\<rparr>) ''hud'' = None"
    by (simp add: getElementById_def demo_dom_def)
  show ?thesis
    using edit_transition_empties_overlay [where p = demo_props
        and p' = "demo_props\<lparr>isEditMode := True\<rparr>" and st = demo_state and js = demo_js
        and rs = demo_rs and ds = "[1, 1]"] 1 2 3 4 5
    by simp
qed

subsection \<open>C9: the mixer in every frame, the scripts only in running mode\<close>

text \<open>
  C9. In every frame, whatever the mode, the first thing that happens is the update of
  the mixer (when there is one) by the frame's delta time, and nothing else in the frame
  updates the mixer. In editing mode that is all the frame does: no script is parsed,
  run or updated, and the cache and the world stay as they are.
\<close>

theorem mixer_every_frame_scripts_when_running:
  "(mixer p \<longrightarrow>
      (\<exists>cs. calls (useFrame js p rs d st) = calls st @ Mixer_update d # cs \<and>
            (\<forall>c \<in> set cs. slot_of c \<noteq> None))) \<and>
   (isEditMode p \<longrightarrow>
      useFrame js p rs d st = (if mixer p then record_call (Mixer_update d) st else st))"
proof (intro conjI impI)
  assume m: "mixer p"
  show "\<exists>cs. calls (useFrame js p rs d st) = calls st @ Mixer_update d # cs \<and>
            (\<forall>c \<in> set cs. slot_of c \<noteq> None)"
  proof (cases "isEditMode p")
    case True
    with m have "calls (useFrame js p rs d st) = calls st @ Mixer_update d # []"
      by (simp add: useFrame_edit record_call_simps)
    then show ?thesis by auto
  next
    case False
    from useFrame_run_calls [OF False, of js rs d st] m show ?thesis
      by (simp add: record_call_simps)
  qed
next
  assume "isEditMode p"
  then show "useFrame js p rs d st = (if mixer p then record_call (Mixer_update d) st else st)"
    by (rule useFrame_edit)
qed

text \<open>
  C9, in the example: a frame in editing mode records the mixer update only; the same
  frame in running mode updates the mixer and then compiles and calls the three scripts.
\<close>

theorem mixer_every_frame_scripts_when_running_witness:
  "useFrame demo_js (game_props\<lparr>isEditMode := True\<rparr>) demo_rs 1 fresh_state
     = record_call (Mixer_update 1) fresh_state \<and>
   calls (useFrame demo_js (game_props\<lparr>isEditMode := True\<rparr>) demo_rs 1 fresh_state)
     = [Mixer_update 1] \<and>
   calls (useFrame demo_js game_props demo_rs 1 fresh_state)
     = [Mixer_update 1, New_Function SceneSlot, Call_scriptFn SceneSlot, Call_update SceneSlot,
        New_Function (EntitySlot 0), Call_scriptFn (EntitySlot 0), Call_update (EntitySlot 0),
        New_Function (EntitySlot 1), Call_scriptFn (EntitySlot 1), Call_update (EntitySlot 1)]"
proof -
  have 1: "mixer (game_props\<lparr>isEditMode := True\<rparr>)" "isEditMode (game_props\<lparr>isEditMode := True\<rparr>)"
    by (simp_all add: game_props_simps)
  have 2: "calls (useFrame demo_js game_props demo_rs 1 fresh_state)
     = [Mixer_update 1, New_Function SceneSlot, Call_scriptFn SceneSlot, Call_update SceneSlot,
        New_Function (EntitySlot 0), Call_scriptFn (EntitySlot 0), Call_update (EntitySlot 0),
        New_Function (EntitySlot 1), Call_scriptFn (EntitySlot 1), Call_update (EntitySlot 1)]"
    by (simp add: driver_defs script_defs script_args_simps demo_js_simps script_nonempty
        game_props_simps fresh_state_simps)
  show ?thesis
    using mixer_every_frame_scripts_when_running [where js = demo_js
        and p = "game_props\<lparr>isEditMode := True\<rparr>" and rs = demo_rs and d = 1 and st = fresh_state]
      1 2
    by (simp add: record_call_simps fresh_state_simps)
qed

subsection \<open>C10: removing markup by identifier\<close>

text \<open>
  C10, as the code has it. \<^verbatim>\<open>removeHTML(id)\<close> does nothing when
  \<^verbatim>\<open>document.getElementById(id)\<close> finds no element or when the overlay root has not been
  created. Otherwise the element found, the first one with that id in document order,
  is removed when it is a child of the overlay root, and the call throws (NotFoundError
  of \<^verbatim>\<open>removeChild\<close>) and changes nothing when it is any other element: one outside
  the overlay root, the overlay root itself, or one nested below a child. In particular the
  call throws when an element with that id exists outside the overlay root and none
  inside it.
\<close>

theorem removeHTML_by_place:
  "(getElementById (document w) i = None \<or> overlay (document w) = None \<longrightarrow>
      removeHTML i w = (Normal (), w)) \<and>
   (overlay (document w) = Some kids \<and> getElementById (document w) i = Some (OverlayChild k) \<longrightarrow>
      removeHTML i w =
        (Normal (), w\<lparr>document := (document w)\<lparr>overlay := Some (take k kids @ drop (Suc k) kids)\<rparr>\<rparr>)) \<and>
   (overlay (document w) = Some kids \<and> getElementById (document w) i = Some el \<and>
      (\<forall>k. el \<noteq> OverlayChild k) \<longrightarrow> removeHTML i w = (Throw NotFoundError, w)) \<and>
   (overlay (document w) = Some kids \<and> i \<noteq> [] \<and> i \<noteq> ''scriptOverlay'' \<and>
      (\<exists>e \<in> set (before (document w)) \<union> set (after (document w)). contains_id i e) \<and>
      (\<forall>e \<in> set kids. \<not> contains_id i e) \<longrightarrow> removeHTML i w = (Throw NotFoundError, w))"
proof (intro conjI impI)
  assume "getElementById (document w) i = None \<or> overlay (document w) = None"
  then show "removeHTML i w = (Normal (), w)"
    by (auto simp: removeHTML_def split: option.splits)
next
  assume "overlay (document w) = Some kids \<and> getElementById (document w) i = Some (OverlayChild k)"
  then show "removeHTML i w =
      (Normal (), w\<lparr>document := (document w)\<lparr>overlay := Some (take k kids @ drop (Suc k) kids)\<rparr>\<rparr>)"
    by (simp add: removeHTML_def)
next
  assume "overlay (document w) = Some kids \<and> getElementById (document w) i = Some el \<and>
      (\<forall>k. el \<noteq> OverlayChild k)"
  then show "removeHTML i w = (Throw NotFoundError, w)"
    by (cases el) (simp_all add: removeHTML_def)
next
  assume a: "overlay (document w) = Some kids \<and> i \<noteq> [] \<and> i \<noteq> ''scriptOverlay'' \<and>
      (\<exists>e \<in> set (before (document w)) \<union> set (after (document w)). contains_id i e) \<and>
      (\<forall>e \<in> set kids. \<not> contains_id i e)"
  then have "getElementById (document w) i = Some Outside"
    by (intro getElementById_outside_only) auto
  with a show "removeHTML i w = (Throw NotFoundError, w)"
    by (simp add: removeHTML_def)
qed

text \<open>
  C10, in the document of the examples: an id nobody has, no overlay root, a child of the
  overlay root, an element nested below a child, and an element outside the overlay root.
\<close>

theorem removeHTML_by_place_witness:
  "removeHTML ''missing'' demo_world = (Normal (), demo_world) \<and>
   removeHTML ''hud'' (demo_world\<lparr>document := demo_dom\<lparr>overlay := None\<rparr>\<rparr>)
     = (Normal (), demo_world\<lparr>document := demo_dom\<lparr>overlay := None\<rparr>\<rparr>) \<and>
   removeHTML ''hud'' demo_world = (Normal (), demo_world\<lparr>document := demo_dom\<lparr>overlay := Some []\<rparr>\<rparr>) \<and>
   removeHTML ''score'' demo_world = (Throw NotFoundError, demo_world) \<and>
   removeHTML ''scriptPrompt'' demo_world = (Throw NotFoundError, demo_world)"
proof -
  have d: "document demo_world = demo_dom"
    and o: "overlay (document demo_world) = Some [Element ''hud'' [Element ''score'' []]]"
    by (simp_all add: demo_world_def demo_dom_def)
  have 1: "getElementById (document demo_world) ''missing'' = None"
    by (simp add: getElementById_def demo_world_def demo_dom_def)
  have 2: "overlay (document (demo_world\<lparr>document := demo_dom\<lparr>overlay := None\<rparr>\<rparr>)) = None"
    by simp
  have 3: "getElementById (document demo_world) ''hud'' = Some (OverlayChild 0)"
    by (simp add: getElementById_def demo_world_def demo_dom_def)
  have 4: "getElementById (document demo_world) ''score'' = Some (BelowOverlayChild 0)"
    by (simp add: getElementById_def demo_world_def demo_dom_def)
  have 5: "\<exists>e \<in> set (before (document demo_world)) \<union> set (after (document demo_world)).
             contains_id ''scriptPrompt'' e"
     "\<forall>e \<in> set [Element ''hud'' [Element ''score'' []]]. \<not> contains_id ''scriptPrompt'' e"
    by (simp_all add: demo_world_def demo_dom_def)
  show ?thesis
    using removeHTML_by_place [where w = demo_world and i = "''missing''"]
      removeHTML_by_place [where w = "demo_world\<lparr>document := demo_dom\<lparr>overlay := None\<rparr>\<rparr>" and i = "''hud''"]
      removeHTML_by_place [where w = demo_world and kids = "[Element ''hud'' [Element ''score'' []]]"
        and i = "''hud''" and k = 0]
      removeHTML_by_place [where w = demo_world and kids = "[Element ''hud'' [Element ''score'' []]]"
        and i = "''score''" and el = "BelowOverlayChild 0"]
      removeHTML_by_place [where w = demo_world and kids = "[Element ''hud'' [Element ''score'' []]]"
        and i = "''scriptPrompt''"]
      1 2 3 4 5 o d
    by (simp add: demo_dom_def)
qed

text \<open>
  C10 as stated fails where the id occurs twice: an element with id \<^verbatim>\<open>hud\<close> stands outside
  the overlay root, after it, and a child of the overlay root has the same id. The child
  comes first in document order, so it is removed and nothing is thrown.
\<close>

theorem removeHTML_outside_counterexample:
  "Element ''hud'' [] \<in> set (after (document twice_hud_world)) \<and>
   removeHTML ''hud'' twice_hud_world
     = (Normal (),
        twice_hud_world\<lparr>document := \<lparr>before = [], overlay = Some [], after = [Element ''hud'' []]\<rparr>\<rparr>)"
  by (simp add: removeHTML_def getElementById_def twice_hud_world_def)

end
